theory Spec2Isabelle
  imports Complex_Main
begin

section \<open>Floating-point values\<close>

text \<open>
  The program computes with \<^verbatim>\<open>float\<close>. A value is modelled as a real number or as
  \<open>NaN\<close>, the result of \<open>0/0\<close>, which every arithmetic operation propagates and on
  which every comparison is false. Arithmetic on finite values is exact: rounding,
  overflow to infinity and underflow to zero are not modelled, so a statement about a
  computed value is a statement about the program only where the values stay within the
  range of a \<^verbatim>\<open>float\<close>. The program divides only by the length of a vector whose
  components are the numerators (and by the constant \<open>chargeTime\<close>), so a zero divisor
  always meets a zero numerator (lemma \<open>Vector2_length_zero\<close> below) and the quotient
  is \<open>NaN\<close>; the infinite quotient of a non-zero numerator does not arise and is mapped
  to \<open>NaN\<close> too.
\<close>

datatype fl = Fin real | NaN

instantiation fl :: "{plus,minus,uminus,times,inverse,abs,ord}"
begin

fun plus_fl :: "fl \<Rightarrow> fl \<Rightarrow> fl" where
  "plus_fl (Fin a) (Fin b) = Fin (a + b)"
| "plus_fl _ _ = NaN"

fun minus_fl :: "fl \<Rightarrow> fl \<Rightarrow> fl" where
  "minus_fl (Fin a) (Fin b) = Fin (a - b)"
| "minus_fl _ _ = NaN"

fun uminus_fl :: "fl \<Rightarrow> fl" where
  "uminus_fl (Fin a) = Fin (- a)"
| "uminus_fl NaN = NaN"

fun times_fl :: "fl \<Rightarrow> fl \<Rightarrow> fl" where
  "times_fl (Fin a) (Fin b) = Fin (a * b)"
| "times_fl _ _ = NaN"

fun divide_fl :: "fl \<Rightarrow> fl \<Rightarrow> fl" where
  "divide_fl (Fin a) (Fin b) = (if b = 0 then NaN else Fin (a / b))"
| "divide_fl _ _ = NaN"

fun inverse_fl :: "fl \<Rightarrow> fl" where
  "inverse_fl (Fin a) = (if a = 0 then NaN else Fin (inverse a))"
| "inverse_fl NaN = NaN"

fun abs_fl :: "fl \<Rightarrow> fl" where
  "abs_fl (Fin a) = Fin \<bar>a\<bar>"
| "abs_fl NaN = NaN"

fun less_fl :: "fl \<Rightarrow> fl \<Rightarrow> bool" where
  "less_fl (Fin a) (Fin b) = (a < b)"
| "less_fl _ _ = False"

fun less_eq_fl :: "fl \<Rightarrow> fl \<Rightarrow> bool" where
  "less_eq_fl (Fin a) (Fin b) = (a \<le> b)"
| "less_eq_fl _ _ = False"

instance ..

end

text \<open>\<^verbatim>\<open>pow(v, 0.5)\<close>: the square root, \<open>NaN\<close> on a negative or \<open>NaN\<close> argument.\<close>

fun pow_half :: "fl \<Rightarrow> fl" where
  "pow_half (Fin a) = (if a < 0 then NaN else Fin (sqrt a))"
| "pow_half NaN = NaN"

text \<open>\<^verbatim>\<open>std::max(a, b)\<close> is \<^verbatim>\<open>(a < b) ? b : a\<close> and \<^verbatim>\<open>std::min(a, b)\<close> is
  \<^verbatim>\<open>(b < a) ? b : a\<close>.\<close>

definition std_max :: "fl \<Rightarrow> fl \<Rightarrow> fl" where
  "std_max a b = (if a < b then b else a)"

definition std_min :: "fl \<Rightarrow> fl \<Rightarrow> fl" where
  "std_min a b = (if b < a then b else a)"

text \<open>The conversion of a \<^verbatim>\<open>float\<close> to \<^verbatim>\<open>bool\<close>: false for zero only (\<open>NaN\<close> is true).\<close>

definition to_bool :: "fl \<Rightarrow> bool" where
  "to_bool a = (a \<noteq> Fin 0)"

section \<open>Vector2\<close>

datatype Vector2 = Vector2 (vx: fl) (vy: fl)

text \<open>\<^verbatim>\<open>length\<close> and \<^verbatim>\<open>normalize\<close>, with the exact square root. In the program the squares
  are \<^verbatim>\<open>float\<close> products: for a component above about \<open>1.8 * 10\<^sup>1\<^sup>9\<close> in magnitude the
  square overflows to infinity, for components below about \<open>10\<^sup>-\<^sup>2\<^sup>2\<close> it underflows to zero,
  and \<^verbatim>\<open>normalize\<close> then returns zero, infinite or \<open>NaN\<close> components where the definitions
  below return a unit vector. The statements about the direction of a shot are therefore
  made for \<open>representable\<close> offsets only.\<close>

definition Vector2_length :: "Vector2 \<Rightarrow> fl" where
  "Vector2_length v = pow_half (vx v * vx v + vy v * vy v)"

definition Vector2_normalize :: "Vector2 \<Rightarrow> Vector2" where
  "Vector2_normalize v = (let len = Vector2_length v in Vector2 (vx v / len) (vy v / len))"

definition invertY :: "Vector2 \<Rightarrow> Vector2" where
  "invertY v = Vector2 (vx v) (vy v * Fin (- 1))"

definition invertX :: "Vector2 \<Rightarrow> Vector2" where
  "invertX v = Vector2 (vx v * Fin (- 1)) (vy v)"

section \<open>Game parameters\<close>

definition targetFPS :: int where
  "targetFPS = 60"

definition width :: fl where
  "width = Fin 15"

definition height :: fl where
  "height = Fin 8"

definition pocketRadius :: fl where
  "pocketRadius = Fin 0.5"

definition pocketsPositions :: "Vector2 list" where
  "pocketsPositions =
    [Vector2 (- Fin 0.5 * width) (- Fin 0.5 * height),
     Vector2 (Fin 0) (- Fin 0.5 * height),
     Vector2 (Fin 0.5 * width) (- Fin 0.5 * height),
     Vector2 (- Fin 0.5 * width) (Fin 0.5 * height),
     Vector2 (Fin 0) (Fin 0.5 * height),
     Vector2 (Fin 0.5 * width) (Fin 0.5 * height)]"

definition ballsPositions :: "Vector2 list" where
  "ballsPositions =
    [Vector2 (- Fin 0.3 * width) (Fin 0),
     Vector2 (Fin 0.2 * width) (Fin 0),
     Vector2 (Fin 0.25 * width) (Fin 0.05 * height),
     Vector2 (Fin 0.25 * width) (- Fin 0.05 * height),
     Vector2 (Fin 0.3 * width) (Fin 0.1 * height),
     Vector2 (Fin 0.3 * width) (Fin 0),
     Vector2 (Fin 0.3 * width) (- Fin 0.1 * height)]"

definition radius :: fl where
  "radius = Fin 0.3"

definition chargeTime :: fl where
  "chargeTime = Fin 1"

section \<open>The presentation layer\<close>

text \<open>
  Modelled from the spec: the framework (\<^verbatim>\<open>Scene\<close>, \<^verbatim>\<open>Engine\<close>) is not part of the
  sources. The spec describes it as a passive presentation layer that creates, places
  and destroys mesh handles. It is modelled as the log of the calls made to it and a
  counter of the handles created; a \<^verbatim>\<open>Scene::Mesh*\<close> is a handle or \<open>None\<close> for
  \<^verbatim>\<open>nullptr\<close>.
\<close>

type_synonym Mesh = "nat option"

datatype scene_call =
    SetTargetFPS int
  | SetupBackground fl fl
  | CreatePocketMesh fl
  | CreateBallMesh fl
  | PlaceMesh Mesh fl fl fl
  | DestroyMesh Mesh
  | UpdateProgressBar fl

record Scene =
  created :: nat
  calls :: "scene_call list"

definition setTargetFPS :: "int \<Rightarrow> Scene \<Rightarrow> Scene" where
  "setTargetFPS fps sc = sc\<lparr>calls := calls sc @ [SetTargetFPS fps]\<rparr>"

definition setupBackground :: "fl \<Rightarrow> fl \<Rightarrow> Scene \<Rightarrow> Scene" where
  "setupBackground w h sc = sc\<lparr>calls := calls sc @ [SetupBackground w h]\<rparr>"

definition createPocketMesh :: "fl \<Rightarrow> Scene \<Rightarrow> Mesh \<times> Scene" where
  "createPocketMesh r sc =
    (Some (created sc), sc\<lparr>created := Suc (created sc), calls := calls sc @ [CreatePocketMesh r]\<rparr>)"

definition createBallMesh :: "fl \<Rightarrow> Scene \<Rightarrow> Mesh \<times> Scene" where
  "createBallMesh r sc =
    (Some (created sc), sc\<lparr>created := Suc (created sc), calls := calls sc @ [CreateBallMesh r]\<rparr>)"

definition placeMesh :: "Mesh \<Rightarrow> fl \<Rightarrow> fl \<Rightarrow> fl \<Rightarrow> Scene \<Rightarrow> Scene" where
  "placeMesh m px py pz sc = sc\<lparr>calls := calls sc @ [PlaceMesh m px py pz]\<rparr>"

definition destroyMesh :: "Mesh \<Rightarrow> Scene \<Rightarrow> Scene" where
  "destroyMesh m sc = sc\<lparr>calls := calls sc @ [DestroyMesh m]\<rparr>"

definition updateProgressBar :: "fl \<Rightarrow> Scene \<Rightarrow> Scene" where
  "updateProgressBar p sc = sc\<lparr>calls := calls sc @ [UpdateProgressBar p]\<rparr>"

section \<open>Table logic\<close>

record Table =
  ballsCurrentPositions :: "Vector2 list"
  speedDirection :: "Vector2 list"
  speedModulus :: "fl list"
  isPocketed :: "bool list"
  balls :: "Mesh list"
  pockets :: "Mesh list"

text \<open>The value-initialised table (\<^verbatim>\<open>= {}\<close> on every array).\<close>

definition Table_empty :: Table where
  "Table_empty =
    \<lparr>ballsCurrentPositions = replicate 7 (Vector2 (Fin 0) (Fin 0)),
     speedDirection = replicate 7 (Vector2 (Fin 0) (Fin 0)),
     speedModulus = replicate 7 (Fin 0),
     isPocketed = replicate 7 False,
     balls = replicate 7 None,
     pockets = replicate 6 None\<rparr>"

text \<open>The two loops of \<^verbatim>\<open>Table::init\<close>; a failed \<^verbatim>\<open>assert\<close> aborts: \<open>None\<close>.\<close>

fun initPockets :: "nat list \<Rightarrow> Table \<times> Scene \<Rightarrow> (Table \<times> Scene) option" where
  "initPockets [] ts = Some ts"
| "initPockets (i # is) (t, sc) =
    (if pockets t ! i \<noteq> None then None
     else
       let (m, sc1) = createPocketMesh pocketRadius sc;
           t1 = t\<lparr>pockets := (pockets t)[i := m]\<rparr>;
           sc2 = placeMesh m (vx (pocketsPositions ! i)) (vy (pocketsPositions ! i)) (Fin 0) sc1
       in initPockets is (t1, sc2))"

fun initBalls :: "nat list \<Rightarrow> Table \<times> Scene \<Rightarrow> (Table \<times> Scene) option" where
  "initBalls [] ts = Some ts"
| "initBalls (i # is) (t, sc) =
    (if balls t ! i \<noteq> None then None
     else
       let (m, sc1) = createBallMesh radius sc;
           t1 = t\<lparr>balls := (balls t)[i := m]\<rparr>;
           sc2 = placeMesh m (vx (ballsPositions ! i)) (vy (ballsPositions ! i)) (Fin 0) sc1;
           t2 = t1\<lparr>speedDirection := (speedDirection t1)[i := Vector2 (Fin 0) (Fin 0)]\<rparr>;
           t3 = t2\<lparr>speedModulus := (speedModulus t2)[i := Fin 0]\<rparr>
       in initBalls is (t3, sc2))"

definition Table_init :: "Table \<times> Scene \<Rightarrow> (Table \<times> Scene) option" where
  "Table_init ts =
    (case ts of (t, sc) \<Rightarrow>
      let t1 = t\<lparr>ballsCurrentPositions := ballsPositions\<rparr>;
          t2 = t1\<lparr>isPocketed := replicate 7 False\<rparr>
      in Option.bind (initPockets [0..<6] (t2, sc)) (initBalls [0..<7]))"

definition Table_deinit :: "Table \<times> Scene \<Rightarrow> Table \<times> Scene" where
  "Table_deinit ts =
    (case ts of (t, sc) \<Rightarrow>
      let sc1 = foldl (\<lambda>s mesh. destroyMesh mesh s) sc (pockets t);
          sc2 = foldl (\<lambda>s mesh. if mesh \<noteq> None then destroyMesh mesh s else s) sc1 (balls t)
      in (Table_empty, sc2))"

definition speedSum :: "Table \<Rightarrow> fl" where
  "speedSum t = foldl (\<lambda>sum v. sum + v) (Fin 0) (speedModulus t)"

section \<open>Game\<close>

record Game =
  table :: Table
  isChargingShot :: bool
  shotChargeProgress :: fl
  isBallsMoving :: bool
  scene :: Scene

text \<open>The globals as the program starts, before \<^verbatim>\<open>Game::init\<close>.\<close>

definition Game_start :: Game where
  "Game_start =
    \<lparr>table = Table_empty, isChargingShot = False, shotChargeProgress = Fin 0,
     isBallsMoving = False, scene = \<lparr>created = 0, calls = []\<rparr>\<rparr>"

definition Game_init :: "Game \<Rightarrow> Game option" where
  "Game_init g =
    (let sc1 = setTargetFPS targetFPS (scene g);
         sc2 = setupBackground width height sc1
     in map_option (\<lambda>(t, sc). g\<lparr>table := t, scene := sc\<rparr>) (Table_init (table g, sc2)))"

definition Game_deinit :: "Game \<Rightarrow> Game" where
  "Game_deinit g = (case Table_deinit (table g, scene g) of (t, sc) \<Rightarrow> g\<lparr>table := t, scene := sc\<rparr>)"

text \<open>\<^verbatim>\<open>isInPocket\<close>: the loop over the pockets returns at the first pocket that is near enough.
  The second parameter of the source, the mesh, is not used there.\<close>

fun pocketLoop :: "nat list \<Rightarrow> fl \<Rightarrow> fl \<Rightarrow> bool" where
  "pocketLoop [] px py = False"
| "pocketLoop (i # is) px py =
    (let distance = Vector2 (vx (pocketsPositions ! i) - px) (vy (pocketsPositions ! i) - py)
     in if Vector2_length distance \<le> pocketRadius then True else pocketLoop is px py)"

definition isInPocket :: "nat \<Rightarrow> Table \<Rightarrow> bool" where
  "isInPocket ballIdx t =
    pocketLoop [0..<6] (vx (ballsCurrentPositions t ! ballIdx)) (vy (ballsCurrentPositions t ! ballIdx))"

text \<open>The four tests of \<^verbatim>\<open>checkBorders\<close>, in the order of the source. The tests on the upper
  edges add the component as it is. The tests on the lower edges call \<^verbatim>\<open>abs\<close> unqualified on a
  \<^verbatim>\<open>float\<close>; it is taken as the floating-point absolute value, the overload that \<^verbatim>\<open><cmath>\<close>
  declares. Where the standard library makes only \<^verbatim>\<open>int abs(int)\<close> visible in the global
  namespace, the call would truncate the component to an integer first; that reading is
  not modelled.\<close>

definition checkBorders_yLow :: "nat \<Rightarrow> Table \<Rightarrow> Table" where
  "checkBorders_yLow ballIdx t =
    (let p = ballsCurrentPositions t ! ballIdx;
         d = speedDirection t ! ballIdx;
         m = speedModulus t ! ballIdx
     in if vy p < - Fin 0.5 * height + radius then
          t\<lparr>ballsCurrentPositions :=
              (ballsCurrentPositions t)[ballIdx := Vector2 (vx p) (- Fin 0.5 * height + radius)],
            speedModulus := (speedModulus t)[ballIdx := m - Fin 0.15 * m * (Fin 1 + \<bar>vy d\<bar>)],
            speedDirection := (speedDirection t)[ballIdx := invertY d]\<rparr>
        else t)"

definition checkBorders_yHigh :: "nat \<Rightarrow> Table \<Rightarrow> Table" where
  "checkBorders_yHigh ballIdx t =
    (let p = ballsCurrentPositions t ! ballIdx;
         d = speedDirection t ! ballIdx;
         m = speedModulus t ! ballIdx
     in if Fin 0.5 * height - radius < vy p then
          t\<lparr>ballsCurrentPositions :=
              (ballsCurrentPositions t)[ballIdx := Vector2 (vx p) (Fin 0.5 * height - radius)],
            speedModulus := (speedModulus t)[ballIdx := m - Fin 0.15 * m * (Fin 1 + vy d)],
            speedDirection := (speedDirection t)[ballIdx := invertY d]\<rparr>
        else t)"

definition checkBorders_xLow :: "nat \<Rightarrow> Table \<Rightarrow> Table" where
  "checkBorders_xLow ballIdx t =
    (let p = ballsCurrentPositions t ! ballIdx;
         d = speedDirection t ! ballIdx;
         m = speedModulus t ! ballIdx
     in if vx p < - Fin 0.5 * width + radius then
          t\<lparr>ballsCurrentPositions :=
              (ballsCurrentPositions t)[ballIdx := Vector2 (- Fin 0.5 * width + radius) (vy p)],
            speedModulus := (speedModulus t)[ballIdx := m - Fin 0.15 * m * (Fin 1 + \<bar>vx d\<bar>)],
            speedDirection := (speedDirection t)[ballIdx := invertX d]\<rparr>
        else t)"

definition checkBorders_xHigh :: "nat \<Rightarrow> Table \<Rightarrow> Table" where
  "checkBorders_xHigh ballIdx t =
    (let p = ballsCurrentPositions t ! ballIdx;
         d = speedDirection t ! ballIdx;
         m = speedModulus t ! ballIdx
     in if Fin 0.5 * width - radius < vx p then
          t\<lparr>ballsCurrentPositions :=
              (ballsCurrentPositions t)[ballIdx := Vector2 (Fin 0.5 * width - radius) (vy p)],
            speedModulus := (speedModulus t)[ballIdx := m - Fin 0.15 * m * (Fin 1 + vx d)],
            speedDirection := (speedDirection t)[ballIdx := invertX d]\<rparr>
        else t)"

definition checkBorders :: "nat \<Rightarrow> Table \<Rightarrow> Table" where
  "checkBorders ballIdx t =
    checkBorders_xHigh ballIdx (checkBorders_xLow ballIdx
      (checkBorders_yHigh ballIdx (checkBorders_yLow ballIdx t)))"

text \<open>The body of the loop of \<^verbatim>\<open>checkBallCollision\<close> for one other ball \<open>i\<close>.\<close>

definition collide :: "nat \<Rightarrow> nat \<Rightarrow> Table \<Rightarrow> Table" where
  "collide ballIdx i t =
    (let p = ballsCurrentPositions t ! ballIdx;
         q = ballsCurrentPositions t ! i;
         d1 = speedDirection t ! ballIdx;
         m1 = speedModulus t ! ballIdx;
         d2 = speedDirection t ! i;
         m2 = speedModulus t ! i;
         distance = Vector2 (vx q - vx p) (vy q - vy p);
         len = Vector2_length distance
     in if len < Fin 2 * radius then
          let s = vx distance / len;
              c = vy distance / len;
              distance' = Vector2_normalize distance;
              px' = vx p - vx distance' * (Fin 2 * radius - len);
              py' = vy p - vy distance' * (Fin 2 * radius - len);
              vn1 = vx d1 * m1 * s + vy d1 * m1 * c;
              vn2 = vx d2 * m2 * s + vy d2 * m2 * c;
              vt1 = - vx d2 * m2 * c + vy d2 * m2 * s;
              vt2 = - vx d1 * m1 * c + vy d1 * m1 * s;
              e1 = Vector2 (Fin 0.85 * (vn2 * s - vt2 * c) + Fin 0.15 * (vn1 * s - vt1 * c))
                           (Fin 0.85 * (vn2 * c + vt2 * s) + Fin 0.15 * (vn1 * c + vt1 * s));
              e2 = Vector2 (Fin 0.85 * (vn1 * s - vt1 * c) + Fin 0.15 * (vn2 * s - vt2 * c))
                           (Fin 0.85 * (vn1 * c + vt1 * s) + Fin 0.15 * (vn2 * c + vt2 * s))
          in t\<lparr>ballsCurrentPositions := (ballsCurrentPositions t)[ballIdx := Vector2 px' py'],
               speedDirection := (speedDirection t)[ballIdx := Vector2_normalize e1, i := Vector2_normalize e2],
               speedModulus := (speedModulus t)
                 [ballIdx := Fin 0.95 * Vector2_length e1, i := Fin 0.95 * Vector2_length e2]\<rparr>
        else t)"

fun collisionLoop :: "nat list \<Rightarrow> nat \<Rightarrow> Table \<Rightarrow> Table" where
  "collisionLoop [] ballIdx t = t"
| "collisionLoop (i # is) ballIdx t =
    (if i = ballIdx then collisionLoop is ballIdx t
     else collisionLoop is ballIdx (collide ballIdx i t))"

definition checkBallCollision :: "nat \<Rightarrow> Table \<Rightarrow> Table" where
  "checkBallCollision ballIdx t = collisionLoop [0..<7] ballIdx t"

text \<open>The branch of \<^verbatim>\<open>moveBall\<close> that removes a pocketed ball other than the cue ball.\<close>

definition pocketBall :: "nat \<Rightarrow> Game \<Rightarrow> Game" where
  "pocketBall ballIdx g =
    (let ball = balls (table g) ! ballIdx;
         sc = destroyMesh ball (scene g);
         t = table g;
         t1 = t\<lparr>balls := (balls t)[ballIdx := None]\<rparr>;
         t2 = t1\<lparr>ballsCurrentPositions :=
                 (ballsCurrentPositions t1)[ballIdx := Vector2 (Fin 2 * width) (Fin 2 * width)]\<rparr>;
         t3 = t2\<lparr>speedModulus := (speedModulus t2)[ballIdx := Fin 0]\<rparr>;
         t4 = t3\<lparr>isPocketed := (isPocketed t3)[ballIdx := True]\<rparr>
     in g\<lparr>table := t4, scene := sc\<rparr>)"

text \<open>The rest of \<^verbatim>\<open>moveBall\<close>: borders, collisions, integration, friction.\<close>

definition rollBall :: "nat \<Rightarrow> fl \<Rightarrow> Game \<Rightarrow> Game" where
  "rollBall ballIdx dt g =
    (let ball = balls (table g) ! ballIdx;
         t1 = checkBorders ballIdx (table g);
         t2 = checkBallCollision ballIdx t1;
         p = ballsCurrentPositions t2 ! ballIdx;
         d = speedDirection t2 ! ballIdx;
         m = speedModulus t2 ! ballIdx;
         newX = vx p + vx d * m * dt;
         newY = vy p + vy d * m * dt;
         t3 = t2\<lparr>ballsCurrentPositions := (ballsCurrentPositions t2)[ballIdx := Vector2 newX newY]\<rparr>;
         sc = placeMesh ball newX newY (Fin 0) (scene g);
         t4 = t3\<lparr>speedModulus :=
                 (speedModulus t3)[ballIdx := std_max (m - Fin 0.05 * width * dt) (Fin 0)]\<rparr>
     in g\<lparr>table := t4, scene := sc\<rparr>)"

definition moveBall :: "nat \<Rightarrow> fl \<Rightarrow> Game \<Rightarrow> Game option" where
  "moveBall ballIdx dt g =
    (if isInPocket ballIdx (table g) then
       if ballIdx = 0 then Game_init (Game_deinit g)
       else Some (pocketBall ballIdx g)
     else Some (rollBall ballIdx dt g))"

text \<open>The loop of \<^verbatim>\<open>update\<close> over the balls; \<^verbatim>\<open>isPocketed[i]\<close> is read in the current state.\<close>

fun ballsLoop :: "nat list \<Rightarrow> fl \<Rightarrow> Game \<Rightarrow> Game option" where
  "ballsLoop [] dt g = Some g"
| "ballsLoop (i # is) dt g =
    (if \<not> isPocketed (table g) ! i then Option.bind (moveBall i dt g) (ballsLoop is dt)
     else ballsLoop is dt g)"

text \<open>The first two statements of \<^verbatim>\<open>update\<close>: the charge and the progress bar.\<close>

definition advanceCharge :: "fl \<Rightarrow> Game \<Rightarrow> Game" where
  "advanceCharge dt g =
    (let g1 = (if isChargingShot g
               then g\<lparr>shotChargeProgress := std_min (shotChargeProgress g + dt / chargeTime) (Fin 1)\<rparr>
               else g)
     in g1\<lparr>scene := updateProgressBar (shotChargeProgress g1) (scene g1)\<rparr>)"

definition update :: "fl \<Rightarrow> Game \<Rightarrow> Game option" where
  "update dt g =
    (let g2 = advanceCharge dt g
     in if isBallsMoving g2 then
          Option.bind (ballsLoop [0..<7] dt g2)
            (\<lambda>g3. Some (if \<not> to_bool (speedSum (table g3)) then g3\<lparr>isBallsMoving := False\<rparr> else g3))
        else Some g2)"

definition mouseButtonPressed :: "fl \<Rightarrow> fl \<Rightarrow> Game \<Rightarrow> Game" where
  "mouseButtonPressed mx my g = (if \<not> isBallsMoving g then g\<lparr>isChargingShot := True\<rparr> else g)"

definition mouseButtonReleased :: "fl \<Rightarrow> fl \<Rightarrow> Game \<Rightarrow> Game" where
  "mouseButtonReleased mx my g =
    (if \<not> isBallsMoving g then
       let t = table g;
           c = ballsCurrentPositions t ! 0;
           t1 = t\<lparr>speedDirection := (speedDirection t)[0 := Vector2 (mx - vx c) (my - vy c)]\<rparr>;
           t2 = t1\<lparr>speedDirection := (speedDirection t1)[0 := Vector2_normalize (speedDirection t1 ! 0)]\<rparr>;
           t3 = t2\<lparr>speedModulus := (speedModulus t2)[0 := shotChargeProgress g * width]\<rparr>
       in g\<lparr>table := t3, isBallsMoving := True, isChargingShot := False, shotChargeProgress := Fin 0\<rparr>
     else g)"

text \<open>The states the program can be in: \<^verbatim>\<open>init\<close>, then any calls of the public interface.\<close>

inductive reachable :: "Game \<Rightarrow> bool" where
  r_init: "Game_init Game_start = Some g \<Longrightarrow> reachable g"
| r_update: "reachable g \<Longrightarrow> update dt g = Some g' \<Longrightarrow> reachable g'"
| r_pressed: "reachable g \<Longrightarrow> reachable (mouseButtonPressed mx my g)"
| r_released: "reachable g \<Longrightarrow> reachable (mouseButtonReleased mx my g)"

section \<open>Auxiliary definitions for the statements\<close>

text \<open>The table that \<^verbatim>\<open>Table::init\<close> builds when \<open>n\<close> meshes were created before: the
  canonical layout, at rest, nothing pocketed, thirteen fresh meshes.\<close>

definition Table_initial :: "nat \<Rightarrow> Table" where
  "Table_initial n =
    \<lparr>ballsCurrentPositions = ballsPositions,
     speedDirection = replicate 7 (Vector2 (Fin 0) (Fin 0)),
     speedModulus = replicate 7 (Fin 0),
     isPocketed = replicate 7 False,
     balls = map (\<lambda>i. Some (n + 6 + i)) [0..<7],
     pockets = map (\<lambda>i. Some (n + i)) [0..<6]\<rparr>"

text \<open>The calls that \<^verbatim>\<open>Table::init\<close> and \<^verbatim>\<open>Game::init\<close> make to the presentation layer.\<close>

definition Table_init_calls :: "nat \<Rightarrow> scene_call list" where
  "Table_init_calls n =
    concat (map (\<lambda>i. [CreatePocketMesh pocketRadius,
                       PlaceMesh (Some (n + i)) (vx (pocketsPositions ! i)) (vy (pocketsPositions ! i)) (Fin 0)])
              [0..<6]) @
    concat (map (\<lambda>i. [CreateBallMesh radius,
                       PlaceMesh (Some (n + 6 + i)) (vx (ballsPositions ! i)) (vy (ballsPositions ! i)) (Fin 0)])
              [0..<7])"

definition Game_init_calls :: "nat \<Rightarrow> scene_call list" where
  "Game_init_calls n = [SetTargetFPS targetFPS, SetupBackground width height] @ Table_init_calls n"

text \<open>The state after \<^verbatim>\<open>init()\<close> (lemma \<open>Game_init_start\<close>).\<close>

definition Game_initial :: Game where
  "Game_initial =
    \<lparr>table = Table_initial 0, isChargingShot = False, shotChargeProgress = Fin 0,
     isBallsMoving = False, scene = \<lparr>created = 13, calls = Game_init_calls 0\<rparr>\<rparr>"

text \<open>The third state of the state machine: neither charging nor balls moving.\<close>

definition idle :: "Game \<Rightarrow> bool" where
  "idle g = (\<not> isChargingShot g \<and> \<not> isBallsMoving g)"

text \<open>The arrays have the sizes that their types fix: \<^verbatim>\<open>std::array<_, 7>\<close> for the balls,
  \<^verbatim>\<open>std::array<_, 6>\<close> for the pockets.\<close>

definition wf_table :: "Table \<Rightarrow> bool" where
  "wf_table t =
    (length (ballsCurrentPositions t) = 7 \<and> length (speedDirection t) = 7 \<and>
     length (speedModulus t) = 7 \<and> length (isPocketed t) = 7 \<and>
     length (balls t) = 7 \<and> length (pockets t) = 6)"

text \<open>The state after \<^verbatim>\<open>init()\<close>, a press and \<^verbatim>\<open>update(dt)\<close>.\<close>

definition Game_charged :: "fl \<Rightarrow> Game" where
  "Game_charged dt = advanceCharge dt (mouseButtonPressed (Fin 0) (Fin 0) Game_initial)"

text \<open>A sequence of calls of the public interface, run from a state.\<close>

datatype call = Update fl | Pressed fl fl | Released fl fl

fun run :: "call list \<Rightarrow> Game \<Rightarrow> Game option" where
  "run [] g = Some g"
| "run (Update dt # cs) g = Option.bind (update dt g) (run cs)"
| "run (Pressed mx my # cs) g = run cs (mouseButtonPressed mx my g)"
| "run (Released mx my # cs) g = run cs (mouseButtonReleased mx my g)"

text \<open>The table \<open>t\<close> with ball \<open>i\<close> at position \<open>p\<close>, with direction \<open>d\<close> and speed \<open>m\<close>.\<close>

definition place :: "nat \<Rightarrow> Vector2 \<Rightarrow> Vector2 \<Rightarrow> fl \<Rightarrow> Table \<Rightarrow> Table" where
  "place i p d m t =
    t\<lparr>ballsCurrentPositions := (ballsCurrentPositions t)[i := p],
      speedDirection := (speedDirection t)[i := d],
      speedModulus := (speedModulus t)[i := m]\<rparr>"

text \<open>The table rectangle offset inward by the radius of a ball (false on \<open>NaN\<close>).\<close>

definition insideBorders :: "Vector2 \<Rightarrow> bool" where
  "insideBorders p =
    (- Fin 0.5 * width + radius \<le> vx p \<and> vx p \<le> Fin 0.5 * width - radius \<and>
     - Fin 0.5 * height + radius \<le> vy p \<and> vy p \<le> Fin 0.5 * height - radius)"

text \<open>The state of one ball.\<close>

definition ballPosition :: "nat \<Rightarrow> Game \<Rightarrow> Vector2" where
  "ballPosition i g = ballsCurrentPositions (table g) ! i"

definition ballDirection :: "nat \<Rightarrow> Game \<Rightarrow> Vector2" where
  "ballDirection i g = speedDirection (table g) ! i"

definition ballSpeed :: "nat \<Rightarrow> Game \<Rightarrow> fl" where
  "ballSpeed i g = speedModulus (table g) ! i"

definition ballPocketed :: "nat \<Rightarrow> Game \<Rightarrow> bool" where
  "ballPocketed i g = isPocketed (table g) ! i"

text \<open>The \<^verbatim>\<open>placeMesh\<close> calls that \<^verbatim>\<open>moveBall\<close> makes for the balls 1 to 6 of \<open>Table_initial n\<close>.\<close>

definition restPlacements :: "nat \<Rightarrow> scene_call list" where
  "restPlacements n =
    map (\<lambda>i. PlaceMesh (Some (n + 6 + i)) (vx (ballsPositions ! i)) (vy (ballsPositions ! i)) (Fin 0))
      [1..<7]"


text \<open>Ball \<open>i\<close> has been removed: what \<^verbatim>\<open>moveBall\<close> leaves of a pocketed ball.\<close>

definition restsPocketed :: "nat \<Rightarrow> Game \<Rightarrow> bool" where
  "restsPocketed i g =
    (wf_table (table g) \<and> isPocketed (table g) ! i \<and>
     ballsCurrentPositions (table g) ! i = Vector2 (Fin 30) (Fin 30) \<and>
     speedModulus (table g) ! i = Fin 0 \<and> balls (table g) ! i = None)"

text \<open>Ball \<open>i\<close> is not pocketed, at position \<open>p\<close> with mesh \<open>h\<close>: what the steps of the balls
  before it keep.\<close>

definition awaitsTurn :: "nat \<Rightarrow> Vector2 \<Rightarrow> Mesh \<Rightarrow> Game \<Rightarrow> bool" where
  "awaitsTurn i p h g =
    (wf_table (table g) \<and> \<not> isPocketed (table g) ! i \<and>
     ballsCurrentPositions (table g) ! i = p \<and> balls (table g) ! i = h)"

text \<open>A state with the cue ball and ball 1 each at the centre of a pocket, and one with ball 1
  alone.\<close>

definition Game_two_in_pockets :: Game where
  "Game_two_in_pockets =
    Game_initial\<lparr>table :=
        place 1 (Vector2 (Fin 7.5) (Fin 4)) (Vector2 (Fin 0.6) (Fin 0.8)) (Fin 1)
          (place 0 (Vector2 (Fin (- 7.5)) (Fin (- 4))) (Vector2 (Fin (- 0.6)) (Fin (- 0.8))) (Fin 1)
             (Table_initial 0)),
      isBallsMoving := True\<rparr>"

definition Game_ball_in_pocket :: Game where
  "Game_ball_in_pocket =
    Game_initial\<lparr>table :=
        place 1 (Vector2 (Fin 7.5) (Fin 4)) (Vector2 (Fin 0.6) (Fin 0.8)) (Fin 1) (Table_initial 0),
      isBallsMoving := True\<rparr>"

text \<open>A position with a \<open>NaN\<close> coordinate or with \<open>x \<le> B\<close>: a bound used for the balls that
  the border check has clamped.\<close>

definition leftOf :: "real \<Rightarrow> Vector2 \<Rightarrow> bool" where
  "leftOf B p = (case (vx p, vy p) of (Fin px, Fin py) \<Rightarrow> px \<le> B | _ \<Rightarrow> True)"

text \<open>The distance of the centres of two balls, as \<^verbatim>\<open>checkBallCollision\<close> computes it.\<close>

definition centerDistance :: "nat \<Rightarrow> nat \<Rightarrow> Table \<Rightarrow> fl" where
  "centerDistance i j t =
    Vector2_length (Vector2 (vx (ballsCurrentPositions t ! j) - vx (ballsCurrentPositions t ! i))
                            (vy (ballsCurrentPositions t ! j) - vy (ballsCurrentPositions t ! i)))"

text \<open>\<open>n\<close> calls of \<^verbatim>\<open>update(dt)\<close>.\<close>

primrec frames :: "nat \<Rightarrow> fl \<Rightarrow> Game \<Rightarrow> Game option" where
  "frames 0 dt g = Some g"
| "frames (Suc n) dt g = Option.bind (update dt g) (frames n dt)"

text \<open>The cue ball has a \<open>NaN\<close> speed and direction and is not in a pocket, balls moving.\<close>

definition lostCue :: "Game \<Rightarrow> bool" where
  "lostCue g =
    (wf_table (table g) \<and> isBallsMoving g \<and> \<not> isPocketed (table g) ! 0 \<and>
     \<not> isInPocket 0 (table g) \<and> speedModulus (table g) ! 0 = NaN \<and>
     speedDirection (table g) ! 0 = Vector2 NaN NaN)"

text \<open>A frame without pocketing and without contact: for every ball that is processed, it is
  not in a pocket and, after its border check, no other ball is closer than \<open>2 * radius\<close>.\<close>

definition noContact :: "nat \<Rightarrow> Table \<Rightarrow> bool" where
  "noContact b t = list_all (\<lambda>j. j = b \<or> \<not> centerDistance b j t < Fin 2 * radius) [0..<7]"

fun quietLoop :: "nat list \<Rightarrow> fl \<Rightarrow> Game \<Rightarrow> bool" where
  "quietLoop [] dt g = True"
| "quietLoop (i # is) dt g =
    (if \<not> isPocketed (table g) ! i
     then \<not> isInPocket i (table g) \<and> noContact i (checkBorders i (table g)) \<and>
          quietLoop is dt (rollBall i dt g)
     else quietLoop is dt g)"

definition quietFrame :: "fl \<Rightarrow> Game \<Rightarrow> bool" where
  "quietFrame dt g = quietLoop [0..<7] dt (advanceCharge dt g)"

text \<open>Every speed is finite and not negative, every direction has finite components in
  \<open>[-1, 1]\<close>.\<close>

definition wellBehaved :: "Table \<Rightarrow> bool" where
  "wellBehaved t =
    (list_all (\<lambda>m. Fin 0 \<le> m) (speedModulus t) \<and>
     list_all (\<lambda>d. \<bar>vx d\<bar> \<le> Fin 1 \<and> \<bar>vy d\<bar> \<le> Fin 1) (speedDirection t))"

text \<open>The normalised vector in the words of the specification: the offset \<open>(dx, dy)\<close> divided
  by its Euclidean length, the vector of length 1 that points from the cue ball to the point
  of release.\<close>

definition unitVector :: "real \<Rightarrow> real \<Rightarrow> Vector2" where
  "unitVector dx dy =
    Vector2 (Fin (dx / sqrt (dx * dx + dy * dy))) (Fin (dy / sqrt (dx * dx + dy * dy)))"

text \<open>The offsets on which \<^verbatim>\<open>Vector2::length\<close> computes as the exact arithmetic does: both
  components are at most \<open>10\<^sup>1\<^sup>8\<close> in magnitude and one of them is at least \<open>10\<^sup>-\<^sup>1\<^sup>8\<close>, so
  that the squares and their sum lie between \<open>10\<^sup>-\<^sup>3\<^sup>6\<close> and \<open>2 * 10\<^sup>3\<^sup>6\<close>, within the normal
  range of a \<^verbatim>\<open>float\<close> (about \<open>1.2 * 10\<^sup>-\<^sup>3\<^sup>8\<close> to \<open>3.4 * 10\<^sup>3\<^sup>8\<close>). In particular the
  offset is not zero.\<close>

definition representable :: "real \<Rightarrow> real \<Rightarrow> bool" where
  "representable dx dy \<longleftrightarrow>
    \<bar>dx\<bar> \<le> 10 ^ 18 \<and> \<bar>dy\<bar> \<le> 10 ^ 18 \<and> (1 / 10 ^ 18 \<le> \<bar>dx\<bar> \<or> 1 / 10 ^ 18 \<le> \<bar>dy\<bar>)"

section \<open>Basic facts\<close>

lemma upt7: "[0..<7] = [0,1,2,3,4,5,6]"
  by (simp add: upt_rec)

lemma upt6: "[0..<6] = [0,1,2,3,4,5]"
  by (simp add: upt_rec)

lemma replicate7: "replicate 7 v = [v,v,v,v,v,v,v]"
  by (simp add: numeral_eq_Suc)

lemma replicate6: "replicate 6 v = [v,v,v,v,v,v]"
  by (simp add: numeral_eq_Suc)

lemma Vector2_length_zero:
  assumes "Vector2_length v = Fin 0"
  shows "v = Vector2 (Fin 0) (Fin 0)"
proof (cases v)
  case (Vector2 a b)
  with assms obtain x y where f: "a = Fin x" "b = Fin y"
    by (cases a; cases b) (simp_all add: Vector2_length_def)
  with assms Vector2 have "sqrt (x * x + y * y) = 0"
    by (simp add: Vector2_length_def split: if_splits)
  then have "x = 0 \<and> y = 0"
    by (simp add: sum_squares_eq_zero_iff)
  with f Vector2 show ?thesis by simp
qed

lemma Table_init_empty:
  "Table_init (Table_empty, sc) =
     Some (Table_initial (created sc),
           sc\<lparr>created := created sc + 13, calls := calls sc @ Table_init_calls (created sc)\<rparr>)"
  apply (simp add: Table_init_def Table_initial_def Table_init_calls_def upt7 upt6 replicate7 replicate6
         createPocketMesh_def createBallMesh_def placeMesh_def Table_empty_def)
  done

lemma Game_init_empty:
  "table g = Table_empty \<Longrightarrow>
   Game_init g =
     Some (g\<lparr>table := Table_initial (created (scene g)),
             scene := (scene g)\<lparr>created := created (scene g) + 13,
                                calls := calls (scene g) @ Game_init_calls (created (scene g))\<rparr>\<rparr>)"
  by (simp add: Game_init_def Table_init_empty setTargetFPS_def setupBackground_def Game_init_calls_def)

lemma Game_init_start: "Game_init Game_start = Some Game_initial"
  by (simp add: Game_init_empty Game_start_def Game_initial_def)

lemma Game_deinit_eq:
  "Game_deinit g = g\<lparr>table := Table_empty, scene := snd (Table_deinit (table g, scene g))\<rparr>"
  by (simp add: Game_deinit_def Table_deinit_def Let_def)

lemma Game_reset_flags:
  assumes "Game_init (Game_deinit g) = Some g'"
  shows "isChargingShot g' = isChargingShot g \<and> isBallsMoving g' = isBallsMoving g \<and>
         shotChargeProgress g' = shotChargeProgress g"
  using assms by (auto simp: Game_deinit_eq Game_init_empty)

lemma moveBall_flags:
  assumes "moveBall i dt g = Some g'"
  shows "isChargingShot g' = isChargingShot g \<and> isBallsMoving g' = isBallsMoving g \<and>
         shotChargeProgress g' = shotChargeProgress g"
proof (cases "isInPocket i (table g) \<and> i = 0")
  case True
  with assms have "Game_init (Game_deinit g) = Some g'"
    by (auto simp: moveBall_def)
  then show ?thesis by (rule Game_reset_flags)
next
  case False
  with assms show ?thesis
    by (auto simp: moveBall_def pocketBall_def rollBall_def Let_def split: if_splits)
qed

lemma ballsLoop_flags:
  "ballsLoop js dt g = Some g' \<Longrightarrow>
   isChargingShot g' = isChargingShot g \<and> isBallsMoving g' = isBallsMoving g \<and>
   shotChargeProgress g' = shotChargeProgress g"
proof (induction js arbitrary: g)
  case Nil
  then show ?case by simp
next
  case (Cons j js)
  show ?case
  proof (cases "isPocketed (table g) ! j")
    case True
    with Cons show ?thesis by simp
  next
    case False
    with Cons.prems obtain g1 where m: "moveBall j dt g = Some g1" and l: "ballsLoop js dt g1 = Some g'"
      by (auto simp: bind_eq_Some_conv)
    from Cons.IH [OF l] moveBall_flags [OF m] show ?thesis by simp
  qed
qed

lemma advanceCharge_flags:
  "isChargingShot (advanceCharge dt g) = isChargingShot g"
  "isBallsMoving (advanceCharge dt g) = isBallsMoving g"
  "\<not> isChargingShot g \<Longrightarrow> shotChargeProgress (advanceCharge dt g) = shotChargeProgress g"
  "table (advanceCharge dt g) = table g"
  by (simp_all add: advanceCharge_def Let_def)

lemma update_flags:
  assumes "update dt g = Some g'"
  shows "isChargingShot g' = isChargingShot g \<and> (isBallsMoving g' \<longrightarrow> isBallsMoving g) \<and>
         (\<not> isChargingShot g \<longrightarrow> shotChargeProgress g' = shotChargeProgress g)"
proof (cases "isBallsMoving g")
  case False
  with assms show ?thesis by (auto simp: update_def Let_def advanceCharge_flags)
next
  case True
  with assms obtain g3 where
    l: "ballsLoop [0..<7] dt (advanceCharge dt g) = Some g3"
    and g': "g' = (if \<not> to_bool (speedSum (table g3)) then g3\<lparr>isBallsMoving := False\<rparr> else g3)"
    by (simp add: update_def Let_def bind_eq_Some_conv advanceCharge_flags) blast
  from ballsLoop_flags [OF l] g' show ?thesis by (auto simp: advanceCharge_flags split: if_splits)
qed

lemma reachable_flags:
  "reachable g \<Longrightarrow>
   \<not> (isChargingShot g \<and> isBallsMoving g) \<and> (\<not> isChargingShot g \<longrightarrow> shotChargeProgress g = Fin 0)"
proof (induction rule: reachable.induct)
  case (r_init g)
  then show ?case by (auto simp: Game_init_start Game_initial_def)
next
  case (r_update g dt g')
  from update_flags [OF r_update.hyps(2)] r_update.IH show ?case by auto
next
  case (r_pressed g mx my)
  then show ?case by (auto simp: mouseButtonPressed_def)
next
  case (r_released g mx my)
  then show ?case by (auto simp: mouseButtonReleased_def Let_def)
qed

section \<open>The state machine\<close>

text \<open>
  C9. In every state reachable from \<^verbatim>\<open>init()\<close> by calls of \<^verbatim>\<open>update\<close>,
  \<^verbatim>\<open>mouseButtonPressed\<close> and \<^verbatim>\<open>mouseButtonReleased\<close>, the flags
  \<^verbatim>\<open>isChargingShot\<close> and \<^verbatim>\<open>isBallsMoving\<close> are never both set: exactly one of
  charging, balls moving and idle (neither flag) holds.
\<close>

theorem charging_moving_exclusive:
  assumes "reachable g"
  shows "\<not> (isChargingShot g \<and> isBallsMoving g) \<and>
         ((isChargingShot g \<and> \<not> isBallsMoving g \<and> \<not> idle g) \<or>
          (isBallsMoving g \<and> \<not> isChargingShot g \<and> \<not> idle g) \<or>
          (idle g \<and> \<not> isChargingShot g \<and> \<not> isBallsMoving g))"
  using reachable_flags [OF assms] by (auto simp: idle_def)

theorem charging_moving_exclusive_witness:
  "reachable (mouseButtonPressed (Fin 0) (Fin 0) Game_initial) \<and>
   isChargingShot (mouseButtonPressed (Fin 0) (Fin 0) Game_initial) \<and>
   \<not> isBallsMoving (mouseButtonPressed (Fin 0) (Fin 0) Game_initial)"
proof -
  have r: "reachable (mouseButtonPressed (Fin 0) (Fin 0) Game_initial)"
    by (rule r_pressed, rule r_init, rule Game_init_start)
  have c: "isChargingShot (mouseButtonPressed (Fin 0) (Fin 0) Game_initial)"
    by (simp add: mouseButtonPressed_def Game_initial_def)
  from charging_moving_exclusive [OF r] r c show ?thesis by simp
qed

section \<open>Releasing the shot\<close>

lemma wf_Table_initial: "wf_table (Table_initial n)"
  by (simp add: wf_table_def Table_initial_def ballsPositions_def)

lemma wf_checkBorders: "wf_table (checkBorders b t) = wf_table t"
  by (simp add: wf_table_def checkBorders_def checkBorders_yLow_def checkBorders_yHigh_def
      checkBorders_xLow_def checkBorders_xHigh_def Let_def)

lemma wf_collide: "wf_table (collide b i t) = wf_table t"
  by (simp add: wf_table_def collide_def Let_def)

lemma wf_collisionLoop: "wf_table (collisionLoop js b t) = wf_table t"
  by (induction js arbitrary: t) (simp_all add: wf_collide)

lemma wf_rollBall: "wf_table (table (rollBall b dt g)) = wf_table (table g)"
  using wf_collisionLoop [of "[0..<7]" b "checkBorders b (table g)"] wf_checkBorders [of b "table g"]
  by (simp add: rollBall_def Let_def checkBallCollision_def wf_table_def)

lemma wf_pocketBall: "wf_table (table (pocketBall b g)) = wf_table (table g)"
  by (simp add: pocketBall_def Let_def wf_table_def)

lemma wf_moveBall:
  assumes "moveBall b dt g = Some g'" "wf_table (table g)"
  shows "wf_table (table g')"
  using assms
  by (auto simp: moveBall_def wf_rollBall wf_pocketBall Game_deinit_eq Game_init_empty wf_Table_initial
      split: if_splits)

lemma wf_ballsLoop:
  "ballsLoop js dt g = Some g' \<Longrightarrow> wf_table (table g) \<Longrightarrow> wf_table (table g')"
proof (induction js arbitrary: g)
  case Nil
  then show ?case by simp
next
  case (Cons j js)
  show ?case
  proof (cases "isPocketed (table g) ! j")
    case True
    with Cons show ?thesis by simp
  next
    case False
    with Cons.prems obtain g1 where m: "moveBall j dt g = Some g1" and l: "ballsLoop js dt g1 = Some g'"
      by (auto simp: bind_eq_Some_conv)
    from Cons.IH [OF l] wf_moveBall [OF m] Cons.prems show ?thesis by simp
  qed
qed

lemma wf_update:
  assumes "update dt g = Some g'" "wf_table (table g)"
  shows "wf_table (table g')"
proof (cases "isBallsMoving g")
  case False
  with assms show ?thesis by (auto simp: update_def Let_def advanceCharge_flags)
next
  case True
  with assms obtain g3 where
    l: "ballsLoop [0..<7] dt (advanceCharge dt g) = Some g3"
    and g': "g' = (if \<not> to_bool (speedSum (table g3)) then g3\<lparr>isBallsMoving := False\<rparr> else g3)"
    by (simp add: update_def Let_def bind_eq_Some_conv advanceCharge_flags) blast
  from wf_ballsLoop [OF l] g' assms(2) show ?thesis by (auto simp: advanceCharge_flags split: if_splits)
qed

lemma reachable_wf: "reachable g \<Longrightarrow> wf_table (table g)"
proof (induction rule: reachable.induct)
  case (r_init g)
  then show ?case by (auto simp: Game_init_start Game_initial_def wf_Table_initial)
next
  case (r_update g dt g')
  then show ?case by (simp add: wf_update)
next
  case (r_pressed g mx my)
  then show ?case by (simp add: mouseButtonPressed_def)
next
  case (r_released g mx my)
  then show ?case by (simp add: mouseButtonReleased_def Let_def wf_table_def)
qed

lemma released_effect:
  assumes "\<not> isBallsMoving g" "wf_table (table g)"
  shows "speedDirection (table (mouseButtonReleased mx my g)) ! 0 =
           Vector2_normalize (Vector2 (mx - vx (ballsCurrentPositions (table g) ! 0))
                              (my - vy (ballsCurrentPositions (table g) ! 0)))"
    and "speedModulus (table (mouseButtonReleased mx my g)) ! 0 = shotChargeProgress g * width"
    and "isBallsMoving (mouseButtonReleased mx my g)"
    and "\<not> isChargingShot (mouseButtonReleased mx my g)"
    and "shotChargeProgress (mouseButtonReleased mx my g) = Fin 0"
  using assms by (simp_all add: mouseButtonReleased_def Let_def wf_table_def)

lemma normalize_east:
  assumes "0 < e"
  shows "Vector2_normalize (Vector2 (Fin e) (Fin 0)) = Vector2 (Fin 1) (Fin 0)"
proof -
  have "Vector2_length (Vector2 (Fin e) (Fin 0)) = Fin e"
    using assms by (simp add: Vector2_length_def)
  then show ?thesis
    using assms by (simp add: Vector2_normalize_def Let_def)
qed

lemma reachable_initial: "reachable Game_initial"
  by (rule r_init) (rule Game_init_start)

lemma reachable_charged: "reachable (Game_charged dt)"
proof -
  have "update dt (mouseButtonPressed (Fin 0) (Fin 0) Game_initial) = Some (Game_charged dt)"
    by (simp add: update_def Let_def advanceCharge_flags Game_charged_def mouseButtonPressed_def
        Game_initial_def)
  with r_pressed [OF reachable_initial] show ?thesis
    by (rule r_update)
qed

lemma pow_half_less: "pow_half (Fin a) < Fin r \<longleftrightarrow> 0 \<le> a \<and> 0 < r \<and> a < r * r"
proof (cases "0 \<le> a \<and> 0 < r")
  case True
  then have "sqrt a < r \<longleftrightarrow> a < r\<^sup>2"
    by (metis real_sqrt_less_iff real_sqrt_abs abs_of_pos)
  with True show ?thesis by (simp add: power2_eq_square)
next
  case False
  show ?thesis
  proof (cases "a < 0")
    case True
    then show ?thesis by simp
  next
    case a: False
    with False have r: "r \<le> 0" by simp
    have "0 \<le> sqrt a" using a by simp
    with r have "\<not> sqrt a < r" by linarith
    with False a show ?thesis by simp
  qed
qed

lemma pow_half_le: "pow_half (Fin a) \<le> Fin r \<longleftrightarrow> 0 \<le> a \<and> 0 \<le> r \<and> a \<le> r * r"
proof (cases "0 \<le> a \<and> 0 \<le> r")
  case True
  then have "sqrt a \<le> r \<longleftrightarrow> a \<le> r\<^sup>2"
    by (metis real_sqrt_le_iff real_sqrt_abs abs_of_nonneg)
  with True show ?thesis by (simp add: power2_eq_square)
next
  case False
  show ?thesis
  proof (cases "a < 0")
    case True
    then show ?thesis by simp
  next
    case a: False
    with False have r: "r < 0" by simp
    have "0 \<le> sqrt a" using a by simp
    with r have "\<not> sqrt a \<le> r" by linarith
    with False a show ?thesis by simp
  qed
qed

lemmas params = width_def height_def radius_def pocketRadius_def chargeTime_def
  pocketsPositions_def ballsPositions_def
lemmas steps = update_def advanceCharge_def moveBall_def rollBall_def pocketBall_def isInPocket_def
  checkBorders_def checkBorders_yLow_def checkBorders_yHigh_def checkBorders_xLow_def
  checkBorders_xHigh_def checkBallCollision_def collide_def Vector2_length_def Vector2_normalize_def
  invertX_def invertY_def std_max_def std_min_def to_bool_def speedSum_def
  mouseButtonPressed_def mouseButtonReleased_def placeMesh_def destroyMesh_def updateProgressBar_def
lemmas evals = upt7 upt6 replicate7 replicate6 pow_half_less pow_half_le Let_def

lemma charged_half:
  "isChargingShot (Game_charged (Fin 0.5))"
  "shotChargeProgress (Game_charged (Fin 0.5)) = Fin 0.5"
  "ballsCurrentPositions (table (Game_charged (Fin 0.5))) ! 0 = Vector2 (Fin (- 4.5)) (Fin 0)"
  by (simp_all add: Game_charged_def advanceCharge_def mouseButtonPressed_def Game_initial_def
      Table_initial_def ballsPositions_def width_def chargeTime_def std_min_def Let_def)

text \<open>A representable offset is not zero, and the normalised vector of the specification has
  length 1.\<close>

lemma representable_nonzero:
  assumes "representable dx dy"
  shows "0 < dx * dx + dy * dy" and "dx \<noteq> 0 \<or> dy \<noteq> 0"
proof -
  from assms show nz: "dx \<noteq> 0 \<or> dy \<noteq> 0"
    by (auto simp add: representable_def)
  then have "dx * dx + dy * dy \<noteq> 0"
    by (simp add: sum_squares_eq_zero_iff)
  moreover have "0 \<le> dx * dx + dy * dy" by simp
  ultimately show "0 < dx * dx + dy * dy" by linarith
qed

lemma unitVector_length:
  assumes "0 < dx * dx + dy * dy"
  shows "Vector2_length (unitVector dx dy) = Fin 1"
proof -
  define q where "q = dx * dx + dy * dy"
  define s where "s = sqrt q"
  from assms have "0 < q" by (simp add: q_def)
  then have s: "s * s = q" "s \<noteq> 0"
    by (simp_all add: s_def)
  have "dx / s * (dx / s) + dy / s * (dy / s) = q / (s * s)"
    by (simp add: q_def add_divide_distrib)
  also from s \<open>0 < q\<close> have "\<dots> = 1" by simp
  finally have "dx / s * (dx / s) + dy / s * (dy / s) = 1" .
  then show ?thesis
    by (simp add: Vector2_length_def unitVector_def s_def q_def)
qed

lemma unitVector_east:
  assumes "0 < e"
  shows "unitVector e 0 = Vector2 (Fin 1) (Fin 0)"
  using assms by (simp add: unitVector_def)

lemma unitVector_3_4: "unitVector 3 4 = Vector2 (Fin 0.6) (Fin 0.8)"
proof -
  have "sqrt 25 = (5::real)" using real_sqrt_abs2 [of 5] by simp
  then show ?thesis by (simp add: unitVector_def)
qed

lemma initial_cue:
  "ballsCurrentPositions (table Game_initial) ! 0 = Vector2 (Fin (- 4.5)) (Fin 0)"
  by (simp add: Game_initial_def Table_initial_def ballsPositions_def width_def)

text \<open>
  C7, as stated: in every charging state and for every point \<open>(x, y)\<close>, the release sets the
  direction of the cue ball to the normalised vector from its position to \<open>(x, y)\<close>. It
  fails for a release at the position of the cue ball itself: the offset is \<open>(0, 0)\<close>, no
  normalised vector exists, and \<^verbatim>\<open>Vector2::normalize\<close> divides zero by the zero length. Below,
  after \<^verbatim>\<open>init()\<close>, a press and \<^verbatim>\<open>update(0.5)\<close>, the cue ball is at \<open>(-4.5, 0)\<close>, and
  \<^verbatim>\<open>mouseButtonReleased(-4.5, 0)\<close> leaves the direction \<open>(NaN, NaN)\<close>, whose length is not 1.
\<close>

theorem release_at_cue_counterexample:
  "reachable (Game_charged (Fin 0.5)) \<and> isChargingShot (Game_charged (Fin 0.5)) \<and>
   ballsCurrentPositions (table (Game_charged (Fin 0.5))) ! 0 = Vector2 (Fin (- 4.5)) (Fin 0) \<and>
   speedDirection (table (mouseButtonReleased (Fin (- 4.5)) (Fin 0) (Game_charged (Fin 0.5)))) ! 0 =
     Vector2 NaN NaN \<and>
   Vector2_length
     (speedDirection (table (mouseButtonReleased (Fin (- 4.5)) (Fin 0) (Game_charged (Fin 0.5)))) ! 0)
     \<noteq> Fin 1"
proof -
  have nm: "\<not> isBallsMoving (Game_charged (Fin 0.5))"
    using reachable_flags [OF reachable_charged [of "Fin 0.5"]] charged_half(1) by simp
  have "speedDirection (table (mouseButtonReleased (Fin (- 4.5)) (Fin 0) (Game_charged (Fin 0.5)))) ! 0 =
      Vector2 NaN NaN"
    using released_effect(1) [OF nm reachable_wf [OF reachable_charged], of "Fin (- 4.5)" "Fin 0"]
      charged_half(3)
    by (simp add: Vector2_normalize_def Vector2_length_def Let_def)
  then show ?thesis
    using reachable_charged [of "Fin 0.5"] charged_half(1,3)
    by (simp add: Vector2_length_def)
qed

text \<open>
  C7, amended: in every charging state (\<^verbatim>\<open>isChargingShot\<close> set, any charge \<open>p\<close>),
  \<^verbatim>\<open>mouseButtonReleased(x, y)\<close> sets the speed of the cue ball to \<open>p * width\<close>, sets
  \<^verbatim>\<open>isBallsMoving\<close> and resets \<^verbatim>\<open>isChargingShot\<close> and the charge, for every \<open>x\<close> and \<open>y\<close>.
  When the cue position \<open>c = (a, b)\<close> and the point \<open>(x, y)\<close> are finite and the offset
  \<open>(x - a, y - b)\<close> is \<open>representable\<close> (not zero in particular), it sets the direction of
  the cue ball to \<open>((x - a) / len, (y - b) / len)\<close> with \<open>len = sqrt ((x - a)\<^sup>2 + (y - b)\<^sup>2)\<close>,
  the vector of length 1 from \<open>c\<close> to \<open>(x, y)\<close>. Released at such a point directly east of
  the cue ball with \<open>p = 0.5\<close>, the direction is \<open>(1, 0)\<close> and the speed \<open>0.5 * width\<close>.
\<close>

theorem release_when_charging:
  assumes "reachable g" and "isChargingShot g"
  shows "speedModulus (table (mouseButtonReleased mx my g)) ! 0 = shotChargeProgress g * width \<and>
         isBallsMoving (mouseButtonReleased mx my g) \<and>
         \<not> isChargingShot (mouseButtonReleased mx my g) \<and>
         shotChargeProgress (mouseButtonReleased mx my g) = Fin 0 \<and>
         (\<forall>a b x y. ballsCurrentPositions (table g) ! 0 = Vector2 (Fin a) (Fin b) \<and>
             mx = Fin x \<and> my = Fin y \<and> representable (x - a) (y - b) \<longrightarrow>
           speedDirection (table (mouseButtonReleased mx my g)) ! 0 = unitVector (x - a) (y - b) \<and>
           Vector2_length (speedDirection (table (mouseButtonReleased mx my g)) ! 0) = Fin 1 \<and>
           (y = b \<and> a < x \<and> shotChargeProgress g = Fin 0.5 \<longrightarrow>
             speedDirection (table (mouseButtonReleased mx my g)) ! 0 = Vector2 (Fin 1) (Fin 0) \<and>
             speedModulus (table (mouseButtonReleased mx my g)) ! 0 = Fin 0.5 * width))"
proof -
  from reachable_flags [OF assms(1)] assms(2) have nm: "\<not> isBallsMoving g" by simp
  note eff = released_effect [OF nm reachable_wf [OF assms(1)], of mx my]
  have dir: "speedDirection (table (mouseButtonReleased mx my g)) ! 0 = unitVector (x - a) (y - b) \<and>
      Vector2_length (speedDirection (table (mouseButtonReleased mx my g)) ! 0) = Fin 1 \<and>
      (y = b \<and> a < x \<and> shotChargeProgress g = Fin 0.5 \<longrightarrow>
        speedDirection (table (mouseButtonReleased mx my g)) ! 0 = Vector2 (Fin 1) (Fin 0) \<and>
        speedModulus (table (mouseButtonReleased mx my g)) ! 0 = Fin 0.5 * width)"
    if h: "ballsCurrentPositions (table g) ! 0 = Vector2 (Fin a) (Fin b)" "mx = Fin x" "my = Fin y"
      "representable (x - a) (y - b)" for a b x y
  proof -
    note pos = representable_nonzero(1) [OF h(4)]
    from representable_nonzero [OF h(4)]
    have n: "Vector2_normalize (Vector2 (Fin (x - a)) (Fin (y - b))) = unitVector (x - a) (y - b)"
      by (auto simp add: Vector2_normalize_def Vector2_length_def unitVector_def Let_def)
    from h(1-3) have "Vector2 (mx - vx (ballsCurrentPositions (table g) ! 0))
        (my - vy (ballsCurrentPositions (table g) ! 0)) = Vector2 (Fin (x - a)) (Fin (y - b))"
      by simp
    with eff(1) n
    have d: "speedDirection (table (mouseButtonReleased mx my g)) ! 0 = unitVector (x - a) (y - b)"
      by simp
    have e: "unitVector (x - a) (y - b) = Vector2 (Fin 1) (Fin 0)" if "y = b" "a < x"
      using that unitVector_east [of "x - a"] by simp
    from d e unitVector_length [OF pos] eff(2) show ?thesis
      by simp
  qed
  from eff(2-5) dir show ?thesis by blast
qed

theorem release_when_charging_witness:
  "reachable (Game_charged (Fin 0.5)) \<and> isChargingShot (Game_charged (Fin 0.5)) \<and>
   ballsCurrentPositions (table (Game_charged (Fin 0.5))) ! 0 = Vector2 (Fin (- 4.5)) (Fin 0) \<and>
   representable (- 1.5 - (- 4.5)) (4 - 0) \<and>
   speedDirection (table (mouseButtonReleased (Fin (- 1.5)) (Fin 4) (Game_charged (Fin 0.5)))) ! 0 =
     Vector2 (Fin 0.6) (Fin 0.8) \<and>
   speedModulus (table (mouseButtonReleased (Fin (- 1.5)) (Fin 4) (Game_charged (Fin 0.5)))) ! 0 = Fin 7.5 \<and>
   isBallsMoving (mouseButtonReleased (Fin (- 1.5)) (Fin 4) (Game_charged (Fin 0.5))) \<and>
   \<not> isChargingShot (mouseButtonReleased (Fin (- 1.5)) (Fin 4) (Game_charged (Fin 0.5))) \<and>
   shotChargeProgress (mouseButtonReleased (Fin (- 1.5)) (Fin 4) (Game_charged (Fin 0.5))) = Fin 0 \<and>
   representable (0 - (- 4.5)) (0 - 0) \<and>
   speedDirection (table (mouseButtonReleased (Fin 0) (Fin 0) (Game_charged (Fin 0.5)))) ! 0 =
     Vector2 (Fin 1) (Fin 0) \<and>
   speedModulus (table (mouseButtonReleased (Fin 0) (Fin 0) (Game_charged (Fin 0.5)))) ! 0 = Fin 7.5"
proof -
  have r1: "representable (- 1.5 - (- 4.5)) (4 - 0)" and r2: "representable (0 - (- 4.5)) (0 - 0)"
    by (simp_all add: representable_def)
  note t1 = release_when_charging [OF reachable_charged charged_half(1), of "Fin (- 1.5)" "Fin 4"]
  note t2 = release_when_charging [OF reachable_charged charged_half(1), of "Fin 0" "Fin 0"]
  note d1 = t1 [THEN conjunct2, THEN conjunct2, THEN conjunct2, THEN conjunct2, rule_format,
      where a = "- 4.5" and b = 0 and x = "- 1.5" and y = 4]
  note d2 = t2 [THEN conjunct2, THEN conjunct2, THEN conjunct2, THEN conjunct2, rule_format,
      where a = "- 4.5" and b = 0 and x = 0 and y = 0]
  from d1 charged_half(3) r1
  have o: "speedDirection (table (mouseButtonReleased (Fin (- 1.5)) (Fin 4) (Game_charged (Fin 0.5)))) ! 0 =
      unitVector (- 1.5 - (- 4.5)) (4 - 0)"
    by simp
  have "unitVector (- 1.5 - (- 4.5)) (4 - 0) = unitVector 3 4" by simp
  with o unitVector_3_4
  have o': "speedDirection (table (mouseButtonReleased (Fin (- 1.5)) (Fin 4) (Game_charged (Fin 0.5)))) ! 0 =
      Vector2 (Fin 0.6) (Fin 0.8)"
    by simp
  from d2 charged_half(2,3) r2
  have e: "speedDirection (table (mouseButtonReleased (Fin 0) (Fin 0) (Game_charged (Fin 0.5)))) ! 0 =
      Vector2 (Fin 1) (Fin 0) \<and>
    speedModulus (table (mouseButtonReleased (Fin 0) (Fin 0) (Game_charged (Fin 0.5)))) ! 0 = Fin 0.5 * width"
    by (simp add: unitVector_east)
  from t1 charged_half(2) have s: "speedModulus (table (mouseButtonReleased (Fin (- 1.5)) (Fin 4) (Game_charged (Fin 0.5)))) ! 0 = Fin 7.5"
    by (simp add: width_def)
  from t1 o' s e r1 r2 reachable_charged [of "Fin 0.5"] charged_half(1,3) show ?thesis
    by (simp add: width_def)
qed

text \<open>
  C10, as stated: in every state with \<^verbatim>\<open>isBallsMoving\<close> false and for every point \<open>(x, y)\<close>,
  the release sets the direction of the cue ball toward \<open>(x, y)\<close>. It fails for a release
  at the position of the cue ball, where there is no direction toward the point: right
  after \<^verbatim>\<open>init()\<close>, with no press, \<^verbatim>\<open>mouseButtonReleased(-4.5, 0)\<close> leaves the direction
  \<open>(NaN, NaN)\<close>.
\<close>

theorem idle_release_at_cue_counterexample:
  "reachable Game_initial \<and> idle Game_initial \<and>
   ballsCurrentPositions (table Game_initial) ! 0 = Vector2 (Fin (- 4.5)) (Fin 0) \<and>
   speedDirection (table (mouseButtonReleased (Fin (- 4.5)) (Fin 0) Game_initial)) ! 0 = Vector2 NaN NaN"
proof -
  have i: "idle Game_initial" "\<not> isBallsMoving Game_initial"
    by (simp_all add: idle_def Game_initial_def)
  have "speedDirection (table (mouseButtonReleased (Fin (- 4.5)) (Fin 0) Game_initial)) ! 0 =
      Vector2 NaN NaN"
    using released_effect(1) [OF i(2) reachable_wf [OF reachable_initial], of "Fin (- 4.5)" "Fin 0"]
      initial_cue
    by (simp add: Vector2_normalize_def Vector2_length_def Let_def)
  with i(1) reachable_initial initial_cue show ?thesis by simp
qed

text \<open>
  C10, amended: in every state with \<^verbatim>\<open>isBallsMoving\<close> false, the idle state that never saw a
  press included, \<^verbatim>\<open>mouseButtonReleased(x, y)\<close> sets the speed of the cue ball to
  \<open>shotChargeProgress * width\<close> (zero when idle) and sets \<^verbatim>\<open>isBallsMoving\<close>, for every \<open>x\<close>
  and \<open>y\<close>: the handler does not require a charge in progress. When the cue position
  \<open>(a, b)\<close> and the point \<open>(x, y)\<close> are finite and the offset \<open>(x - a, y - b)\<close> is
  \<open>representable\<close> (not zero in particular), it sets the direction of the cue ball toward
  \<open>(x, y)\<close>: to the offset divided by its length.
\<close>

theorem release_without_charge:
  assumes "wf_table (table g)" and "\<not> isBallsMoving g"
  shows "speedModulus (table (mouseButtonReleased mx my g)) ! 0 = shotChargeProgress g * width \<and>
         isBallsMoving (mouseButtonReleased mx my g) \<and>
         (reachable g \<and> idle g \<longrightarrow> speedModulus (table (mouseButtonReleased mx my g)) ! 0 = Fin 0) \<and>
         (\<forall>a b x y. ballsCurrentPositions (table g) ! 0 = Vector2 (Fin a) (Fin b) \<and>
             mx = Fin x \<and> my = Fin y \<and> representable (x - a) (y - b) \<longrightarrow>
           speedDirection (table (mouseButtonReleased mx my g)) ! 0 = unitVector (x - a) (y - b))"
proof -
  note eff = released_effect [OF assms(2,1), of mx my]
  have idle: "speedModulus (table (mouseButtonReleased mx my g)) ! 0 = Fin 0" if "reachable g" "idle g"
  proof -
    from reachable_flags [OF that(1)] that(2) have "shotChargeProgress g = Fin 0"
      by (simp add: idle_def)
    with eff(2) show ?thesis by (simp add: width_def)
  qed
  have dir: "speedDirection (table (mouseButtonReleased mx my g)) ! 0 = unitVector (x - a) (y - b)"
    if h: "ballsCurrentPositions (table g) ! 0 = Vector2 (Fin a) (Fin b)" "mx = Fin x" "my = Fin y"
      "representable (x - a) (y - b)" for a b x y
  proof -
    from representable_nonzero [OF h(4)]
    have n: "Vector2_normalize (Vector2 (Fin (x - a)) (Fin (y - b))) = unitVector (x - a) (y - b)"
      by (auto simp add: Vector2_normalize_def Vector2_length_def unitVector_def Let_def)
    from h(1-3) have "Vector2 (mx - vx (ballsCurrentPositions (table g) ! 0))
        (my - vy (ballsCurrentPositions (table g) ! 0)) = Vector2 (Fin (x - a)) (Fin (y - b))"
      by simp
    with eff(1) n show ?thesis
      by simp
  qed
  from eff(2,3) idle dir show ?thesis by blast
qed

theorem release_without_charge_witness:
  "wf_table (table Game_initial) \<and> idle Game_initial \<and> reachable Game_initial \<and>
   ballsCurrentPositions (table Game_initial) ! 0 = Vector2 (Fin (- 4.5)) (Fin 0) \<and>
   representable (- 1.5 - (- 4.5)) (4 - 0) \<and>
   speedDirection (table (mouseButtonReleased (Fin (- 1.5)) (Fin 4) Game_initial)) ! 0 =
     Vector2 (Fin 0.6) (Fin 0.8) \<and>
   speedModulus (table (mouseButtonReleased (Fin (- 1.5)) (Fin 4) Game_initial)) ! 0 = Fin 0 \<and>
   isBallsMoving (mouseButtonReleased (Fin (- 1.5)) (Fin 4) Game_initial)"
proof -
  have i: "idle Game_initial" "\<not> isBallsMoving Game_initial"
    by (simp_all add: idle_def Game_initial_def)
  have r: "representable (- 1.5 - (- 4.5)) (4 - 0)"
    by (simp add: representable_def)
  note t = release_without_charge [OF reachable_wf [OF reachable_initial] i(2), of "Fin (- 1.5)" "Fin 4"]
  from t [THEN conjunct2, THEN conjunct2, THEN conjunct2, rule_format,
      where a = "- 4.5" and b = 0 and x = "- 1.5" and y = 4] initial_cue r
  have "speedDirection (table (mouseButtonReleased (Fin (- 1.5)) (Fin 4) Game_initial)) ! 0 =
      unitVector (- 1.5 - (- 4.5)) (4 - 0)"
    by simp
  moreover have "unitVector (- 1.5 - (- 4.5)) (4 - 0) = unitVector 3 4" by simp
  ultimately have "speedDirection (table (mouseButtonReleased (Fin (- 1.5)) (Fin 4) Game_initial)) ! 0 =
      Vector2 (Fin 0.6) (Fin 0.8)"
    using unitVector_3_4 by simp
  moreover from t i(1) reachable_initial
  have "speedModulus (table (mouseButtonReleased (Fin (- 1.5)) (Fin 4) Game_initial)) ! 0 = Fin 0"
    by blast
  moreover from t have "isBallsMoving (mouseButtonReleased (Fin (- 1.5)) (Fin 4) Game_initial)"
    by blast
  ultimately show ?thesis
    using i(1) reachable_initial reachable_wf [OF reachable_initial] initial_cue r by blast
qed

section \<open>The border check\<close>

lemma run_reachable: "run cs g = Some g' \<Longrightarrow> reachable g \<Longrightarrow> reachable g'"
proof (induction cs arbitrary: g)
  case Nil
  then show ?case by simp
next
  case (Cons c cs)
  show ?case
  proof (cases c)
    case (Update dt)
    with Cons.prems obtain g1 where u: "update dt g = Some g1" and r: "run cs g1 = Some g'"
      by (auto simp: bind_eq_Some_conv)
    from Cons.IH [OF r r_update [OF Cons.prems(2) u]] show ?thesis .
  next
    case (Pressed mx my)
    with Cons.prems have "run cs (mouseButtonPressed mx my g) = Some g'" by simp
    from Cons.IH [OF this r_pressed [OF Cons.prems(2)]] show ?thesis .
  next
    case (Released mx my)
    with Cons.prems have "run cs (mouseButtonReleased mx my g) = Some g'" by simp
    from Cons.IH [OF this r_released [OF Cons.prems(2)]] show ?thesis .
  qed
qed

lemma run_append: "run (cs @ ds) g = Option.bind (run cs g) (run ds)"
proof (induction cs arbitrary: g)
  case Nil
  then show ?case by simp
next
  case (Cons c cs)
  then have "run (cs @ ds) = (\<lambda>y. Option.bind (run cs y) (run ds))" by auto
  then show ?case by (cases c) (simp_all add: bind_assoc)
qed

lemma run_charge: "run [Pressed (Fin 0) (Fin 0), Update dt] Game_initial = Some (Game_charged dt)"
  by (simp add: update_def Let_def advanceCharge_flags Game_charged_def mouseButtonPressed_def
      Game_initial_def)

lemma charged_table: "table (Game_charged dt) = Table_initial 0"
  by (simp add: Game_charged_def advanceCharge_flags mouseButtonPressed_def Game_initial_def)

lemma charged_flags:
  "isChargingShot (Game_charged dt)" "\<not> isBallsMoving (Game_charged dt)"
  by (simp_all add: Game_charged_def advanceCharge_flags mouseButtonPressed_def Game_initial_def)

lemma charged_progress:
  "0 \<le> d \<Longrightarrow> d \<le> 1 \<Longrightarrow> shotChargeProgress (Game_charged (Fin d)) = Fin d"
  by (simp add: Game_charged_def advanceCharge_def mouseButtonPressed_def Game_initial_def
      chargeTime_def std_min_def Let_def)

lemmas tables = Table_initial_def place_def

text \<open>The first shot of the scenarios: full charge, released to the west of the cue ball.\<close>

lemma shot_west:
  "table (mouseButtonReleased (Fin (- 5.5)) (Fin 0) (Game_charged (Fin 1))) =
     place 0 (Vector2 (Fin (- 4.5)) (Fin 0)) (Vector2 (Fin (- 1)) (Fin 0)) (Fin 15) (Table_initial 0)"
  "isBallsMoving (mouseButtonReleased (Fin (- 5.5)) (Fin 0) (Game_charged (Fin 1)))"
  "\<not> isChargingShot (mouseButtonReleased (Fin (- 5.5)) (Fin 0) (Game_charged (Fin 1)))"
  by (simp_all add: mouseButtonReleased_def charged_table charged_flags charged_progress tables params
      Vector2_normalize_def Vector2_length_def evals cong: let_weak_cong)

lemma frame_west:
  assumes "table g = place 0 (Vector2 (Fin (- 4.5)) (Fin 0)) (Vector2 (Fin (- 1)) (Fin 0)) (Fin 15) (Table_initial 0)"
    and "isBallsMoving g" and "\<not> isChargingShot g"
  shows "\<exists>g'. update (Fin 0.2) g = Some g' \<and>
     table g' = place 0 (Vector2 (Fin (- 7.5)) (Fin 0)) (Vector2 (Fin (- 1)) (Fin 0)) (Fin 14.85) (Table_initial 0)"
  using assms
  by (simp add: tables params steps evals del: pow_half.simps cong: let_weak_cong)

lemma pos_checkBorders_yLow:
  assumes "b < length (ballsCurrentPositions t)" "ballsCurrentPositions t ! b = Vector2 (Fin px) (Fin py)"
  shows "ballsCurrentPositions (checkBorders_yLow b t) ! b = Vector2 (Fin px) (Fin (max py (- 3.7)))"
  using assms by (simp add: checkBorders_yLow_def Let_def params max_def)

lemma pos_checkBorders_yHigh:
  assumes "b < length (ballsCurrentPositions t)" "ballsCurrentPositions t ! b = Vector2 (Fin px) (Fin py)"
  shows "ballsCurrentPositions (checkBorders_yHigh b t) ! b = Vector2 (Fin px) (Fin (min py 3.7))"
  using assms by (simp add: checkBorders_yHigh_def Let_def params min_def)

lemma pos_checkBorders_xLow:
  assumes "b < length (ballsCurrentPositions t)" "ballsCurrentPositions t ! b = Vector2 (Fin px) (Fin py)"
  shows "ballsCurrentPositions (checkBorders_xLow b t) ! b = Vector2 (Fin (max px (- 7.2))) (Fin py)"
  using assms by (simp add: checkBorders_xLow_def Let_def params max_def)

lemma pos_checkBorders_xHigh:
  assumes "b < length (ballsCurrentPositions t)" "ballsCurrentPositions t ! b = Vector2 (Fin px) (Fin py)"
  shows "ballsCurrentPositions (checkBorders_xHigh b t) ! b = Vector2 (Fin (min px 7.2)) (Fin py)"
  using assms by (simp add: checkBorders_xHigh_def Let_def params min_def)

lemma length_checkBorders_parts:
  "length (ballsCurrentPositions (checkBorders_yLow b t)) = length (ballsCurrentPositions t)"
  "length (ballsCurrentPositions (checkBorders_yHigh b t)) = length (ballsCurrentPositions t)"
  "length (ballsCurrentPositions (checkBorders_xLow b t)) = length (ballsCurrentPositions t)"
  "length (ballsCurrentPositions (checkBorders_xHigh b t)) = length (ballsCurrentPositions t)"
  by (simp_all add: checkBorders_yLow_def checkBorders_yHigh_def checkBorders_xLow_def
      checkBorders_xHigh_def Let_def)

lemma pos_checkBorders:
  assumes "b < length (ballsCurrentPositions t)" "ballsCurrentPositions t ! b = Vector2 (Fin px) (Fin py)"
  shows "ballsCurrentPositions (checkBorders b t) ! b =
    Vector2 (Fin (min (max px (- 7.2)) 7.2)) (Fin (min (max py (- 3.7)) 3.7))"
proof -
  note 1 = pos_checkBorders_yLow [OF assms]
  have l1: "b < length (ballsCurrentPositions (checkBorders_yLow b t))"
    using assms(1) by (simp add: length_checkBorders_parts)
  note 2 = pos_checkBorders_yHigh [OF l1 1]
  have l2: "b < length (ballsCurrentPositions (checkBorders_yHigh b (checkBorders_yLow b t)))"
    using l1 by (simp add: length_checkBorders_parts)
  note 3 = pos_checkBorders_xLow [OF l2 2]
  have l3: "b < length (ballsCurrentPositions (checkBorders_xLow b (checkBorders_yHigh b (checkBorders_yLow b t))))"
    using l2 by (simp add: length_checkBorders_parts)
  note 4 = pos_checkBorders_xHigh [OF l3 3]
  then show ?thesis by (simp add: checkBorders_def)
qed

lemma shot:
  assumes "\<not> isBallsMoving g" and "shotChargeProgress g = Fin 0" and "0 \<le> d" and "d \<le> 1"
    and "wf_table (table g)"
  shows "\<exists>g'. run [Pressed a b, Update (Fin d), Released mx my] g = Some g' \<and>
    table g' = place 0 (ballsCurrentPositions (table g) ! 0)
        (Vector2_normalize (Vector2 (mx - vx (ballsCurrentPositions (table g) ! 0))
                                    (my - vy (ballsCurrentPositions (table g) ! 0))))
        (Fin (d * 15)) (table g) \<and>
    isBallsMoving g' \<and> \<not> isChargingShot g' \<and> shotChargeProgress g' = Fin 0"
  using assms
  by (simp add: update_def advanceCharge_def mouseButtonPressed_def mouseButtonReleased_def Let_def
      std_min_def chargeTime_def width_def place_def wf_table_def)

text \<open>
  C2, as stated: after the simulation step of a ball that is not pocketed its position lies in
  the table rectangle offset inward by the radius. It fails: the border check comes first
  in \<^verbatim>\<open>moveBall\<close> and the integration after it. After \<^verbatim>\<open>init\<close>, a full charge, a release
  to the west and one \<^verbatim>\<open>update(0.2)\<close> the cue ball is at \<open>x = -7.5\<close>, left of
  \<open>-width/2 + radius = -7.2\<close>, and not pocketed.
\<close>

theorem border_containment_counterexample:
  "map_option (ballPosition 0)
     (run [Pressed (Fin 0) (Fin 0), Update (Fin 1), Released (Fin (- 5.5)) (Fin 0), Update (Fin 0.2)]
        Game_initial) = Some (Vector2 (Fin (- 7.5)) (Fin 0)) \<and>
   map_option (ballPocketed 0)
     (run [Pressed (Fin 0) (Fin 0), Update (Fin 1), Released (Fin (- 5.5)) (Fin 0), Update (Fin 0.2)]
        Game_initial) = Some False \<and>
   \<not> insideBorders (Vector2 (Fin (- 7.5)) (Fin 0))"
proof -
  have 1: "run [Pressed (Fin 0) (Fin 0), Update (Fin 1), Released (Fin (- 5.5)) (Fin 0)] Game_initial =
      Some (mouseButtonReleased (Fin (- 5.5)) (Fin 0) (Game_charged (Fin 1)))"
    using run_charge [of "Fin 1"] by (simp add: bind_eq_Some_conv)
  from frame_west [OF shot_west] obtain g' where
    u: "update (Fin 0.2) (mouseButtonReleased (Fin (- 5.5)) (Fin 0) (Game_charged (Fin 1))) = Some g'"
    and t: "table g' = place 0 (Vector2 (Fin (- 7.5)) (Fin 0)) (Vector2 (Fin (- 1)) (Fin 0)) (Fin 14.85)
        (Table_initial 0)"
    by blast
  have "run ([Pressed (Fin 0) (Fin 0), Update (Fin 1), Released (Fin (- 5.5)) (Fin 0)] @ [Update (Fin 0.2)])
      Game_initial = Some g'"
    unfolding run_append 1 using u by simp
  then have r: "run [Pressed (Fin 0) (Fin 0), Update (Fin 1), Released (Fin (- 5.5)) (Fin 0), Update (Fin 0.2)]
      Game_initial = Some g'"
    by simp
  have p: "ballPosition 0 g' = Vector2 (Fin (- 7.5)) (Fin 0)" "ballPocketed 0 g' = False"
    by (simp_all add: ballPosition_def ballPocketed_def t tables replicate7 ballsPositions_def)
  have "\<not> insideBorders (Vector2 (Fin (- 7.5)) (Fin 0))"
    by (simp add: insideBorders_def params)
  with r p show ?thesis by simp
qed

text \<open>
  C2, amended: right after the border check of the simulation step (\<^verbatim>\<open>checkBorders\<close>) a
  ball with a finite position lies in the rectangle \<open>[-width/2 + radius, width/2 - radius]\<close>
  by \<open>[-height/2 + radius, height/2 - radius]\<close>. The collision response and the
  integration that follow in the same step can move it out again, until the border check of
  the next frame.
\<close>

theorem border_check_inside:
  assumes "b < length (ballsCurrentPositions t)"
    and "ballsCurrentPositions t ! b = Vector2 (Fin px) (Fin py)"
  shows "insideBorders (ballsCurrentPositions (checkBorders b t) ! b)"
  unfolding pos_checkBorders [OF assms]
  by (auto simp: insideBorders_def params min_def max_def)

theorem border_check_inside_witness:
  "ballsCurrentPositions
     (place 0 (Vector2 (Fin (- 7.5)) (Fin 0)) (Vector2 (Fin (- 1)) (Fin 0)) (Fin 14.85) (Table_initial 0)) ! 0 =
     Vector2 (Fin (- 7.5)) (Fin 0) \<and>
   insideBorders (ballsCurrentPositions (checkBorders 0
     (place 0 (Vector2 (Fin (- 7.5)) (Fin 0)) (Vector2 (Fin (- 1)) (Fin 0)) (Fin 14.85) (Table_initial 0))) ! 0)"
proof -
  have l: "0 < length (ballsCurrentPositions
     (place 0 (Vector2 (Fin (- 7.5)) (Fin 0)) (Vector2 (Fin (- 1)) (Fin 0)) (Fin 14.85) (Table_initial 0)))"
    by (simp add: tables ballsPositions_def)
  have p: "ballsCurrentPositions
     (place 0 (Vector2 (Fin (- 7.5)) (Fin 0)) (Vector2 (Fin (- 1)) (Fin 0)) (Fin 14.85) (Table_initial 0)) ! 0 =
     Vector2 (Fin (- 7.5)) (Fin 0)"
    by (simp add: tables ballsPositions_def)
  from border_check_inside [OF l p] p show ?thesis by simp
qed

section \<open>The energy loss at the borders\<close>

lemma initial_game:
  "\<not> isBallsMoving Game_initial" "shotChargeProgress Game_initial = Fin 0"
  "table Game_initial = Table_initial 0" "\<not> isChargingShot Game_initial"
  by (simp_all add: Game_initial_def)

lemma run_step:
  assumes "run cs g = Some g1" and "run ds g1 = Some g2"
  shows "run (cs @ ds) g = Some g2"
  using assms by (simp add: run_append)

lemma frame_east:
  assumes "table g = place 0 (Vector2 (Fin (- 4.5)) (Fin 0)) (Vector2 (Fin 1) (Fin 0)) (Fin 3) (Table_initial 0)"
    and "isBallsMoving g" and "\<not> isChargingShot g" and "shotChargeProgress g = Fin 0"
  shows "\<exists>g'. run [Update (Fin 4)] g = Some g' \<and>
     table g' = place 0 (Vector2 (Fin 7.5) (Fin 0)) (Vector2 (Fin 1) (Fin 0)) (Fin 0) (Table_initial 0) \<and>
     \<not> isBallsMoving g' \<and> \<not> isChargingShot g' \<and> shotChargeProgress g' = Fin 0"
  using assms
  by (simp add: tables params steps evals del: pow_half.simps cong: let_weak_cong)

text \<open>
  C4. The claim: at each of the four edges the speed is reduced by
  \<open>0.15 * speedModulus * (1 + |d|)\<close>, \<open>d\<close> the component of the direction perpendicular to the
  edge. \<^verbatim>\<open>checkBorders\<close> takes the absolute value at the lower edges only (\<open>y\<close> and \<open>x\<close>
  below the minimum); at the upper edges it adds the signed component. At the state below,
  reached from \<^verbatim>\<open>init\<close> by two shots, the cue ball rests at \<open>x = 7.5\<close>, beyond \<open>7.2\<close>, and is
  shot to the west with speed \<open>3\<close>: the border check clamps \<open>x\<close> and turns the direction to
  the east, but leaves the speed at \<open>3\<close>, where the claim gives
  \<open>3 - 0.15 * 3 * (1 + |-1|) = 2.1\<close>.
\<close>

theorem upper_border_keeps_speed:
  "map_option table
     (run [Pressed (Fin 0) (Fin 0), Update (Fin 0.2), Released (Fin 0) (Fin 0), Update (Fin 4),
           Pressed (Fin 0) (Fin 0), Update (Fin 0.2), Released (Fin 6.5) (Fin 0)] Game_initial) =
     Some (place 0 (Vector2 (Fin 7.5) (Fin 0)) (Vector2 (Fin (- 1)) (Fin 0)) (Fin 3) (Table_initial 0)) \<and>
   checkBorders 0
     (place 0 (Vector2 (Fin 7.5) (Fin 0)) (Vector2 (Fin (- 1)) (Fin 0)) (Fin 3) (Table_initial 0)) =
     place 0 (Vector2 (Fin 7.2) (Fin 0)) (Vector2 (Fin 1) (Fin 0)) (Fin 3) (Table_initial 0) \<and>
   Fin 3 - Fin 0.15 * Fin 3 * (Fin 1 + \<bar>Fin (- 1)\<bar>) = Fin 2.1"
proof -
  have wf0: "wf_table (Table_initial 0)" by (rule wf_Table_initial)
  have c0: "ballsCurrentPositions (Table_initial 0) ! 0 = Vector2 (Fin (- 4.5)) (Fin 0)"
    by (simp add: Table_initial_def ballsPositions_def width_def)
  have n1: "Vector2_normalize (Vector2 (Fin 0 - Fin (- 4.5)) (Fin 0 - Fin 0)) = Vector2 (Fin 1) (Fin 0)"
    using normalize_east [of "4.5"] by simp
  have "\<exists>g'. run [Pressed (Fin 0) (Fin 0), Update (Fin 0.2), Released (Fin 0) (Fin 0)] Game_initial = Some g' \<and>
    table g' = place 0 (ballsCurrentPositions (table Game_initial) ! 0)
        (Vector2_normalize (Vector2 (Fin 0 - vx (ballsCurrentPositions (table Game_initial) ! 0))
                                    (Fin 0 - vy (ballsCurrentPositions (table Game_initial) ! 0))))
        (Fin (0.2 * 15)) (table Game_initial) \<and>
    isBallsMoving g' \<and> \<not> isChargingShot g' \<and> shotChargeProgress g' = Fin 0"
    by (rule shot) (simp_all add: initial_game wf0)
  then obtain g1 where
    r1: "run [Pressed (Fin 0) (Fin 0), Update (Fin 0.2), Released (Fin 0) (Fin 0)] Game_initial = Some g1"
    and t1: "table g1 = place 0 (Vector2 (Fin (- 4.5)) (Fin 0)) (Vector2 (Fin 1) (Fin 0)) (Fin 3) (Table_initial 0)"
    and f1: "isBallsMoving g1" "\<not> isChargingShot g1" "shotChargeProgress g1 = Fin 0"
    unfolding initial_game c0 Vector2.sel n1 by auto
  from frame_east [OF t1 f1] obtain g2 where
    r2: "run [Update (Fin 4)] g1 = Some g2"
    and t2: "table g2 = place 0 (Vector2 (Fin 7.5) (Fin 0)) (Vector2 (Fin 1) (Fin 0)) (Fin 0) (Table_initial 0)"
    and f2: "\<not> isBallsMoving g2" "\<not> isChargingShot g2" "shotChargeProgress g2 = Fin 0"
    by blast
  have wf2: "wf_table (table g2)"
    by (simp add: t2 place_def wf_table_def Table_initial_def ballsPositions_def)
  have c2: "ballsCurrentPositions (table g2) ! 0 = Vector2 (Fin 7.5) (Fin 0)"
    by (simp add: t2 tables ballsPositions_def)
  have n2: "Vector2_normalize (Vector2 (Fin 6.5 - Fin 7.5) (Fin 0 - Fin 0)) = Vector2 (Fin (- 1)) (Fin 0)"
    by (simp add: Vector2_normalize_def Vector2_length_def Let_def)
  have e2: "place 0 (Vector2 (Fin 7.5) (Fin 0)) (Vector2 (Fin (- 1)) (Fin 0)) (Fin (0.2 * 15)) (table g2) =
      place 0 (Vector2 (Fin 7.5) (Fin 0)) (Vector2 (Fin (- 1)) (Fin 0)) (Fin 3) (Table_initial 0)"
    by (simp add: t2 tables ballsPositions_def)
  have "\<exists>g'. run [Pressed (Fin 0) (Fin 0), Update (Fin 0.2), Released (Fin 6.5) (Fin 0)] g2 = Some g' \<and>
    table g' = place 0 (ballsCurrentPositions (table g2) ! 0)
        (Vector2_normalize (Vector2 (Fin 6.5 - vx (ballsCurrentPositions (table g2) ! 0))
                                    (Fin 0 - vy (ballsCurrentPositions (table g2) ! 0))))
        (Fin (0.2 * 15)) (table g2) \<and>
    isBallsMoving g' \<and> \<not> isChargingShot g' \<and> shotChargeProgress g' = Fin 0"
    by (rule shot) (simp_all add: f2 wf2)
  then obtain g3 where
    r3: "run [Pressed (Fin 0) (Fin 0), Update (Fin 0.2), Released (Fin 6.5) (Fin 0)] g2 = Some g3"
    and t3: "table g3 = place 0 (Vector2 (Fin 7.5) (Fin 0)) (Vector2 (Fin (- 1)) (Fin 0)) (Fin 3) (Table_initial 0)"
    unfolding c2 Vector2.sel n2 e2 by auto
  from run_step [OF run_step [OF r1 r2] r3]
  have "run [Pressed (Fin 0) (Fin 0), Update (Fin 0.2), Released (Fin 0) (Fin 0), Update (Fin 4),
           Pressed (Fin 0) (Fin 0), Update (Fin 0.2), Released (Fin 6.5) (Fin 0)] Game_initial = Some g3"
    by simp
  with t3 have a: "map_option table
     (run [Pressed (Fin 0) (Fin 0), Update (Fin 0.2), Released (Fin 0) (Fin 0), Update (Fin 4),
           Pressed (Fin 0) (Fin 0), Update (Fin 0.2), Released (Fin 6.5) (Fin 0)] Game_initial) =
     Some (place 0 (Vector2 (Fin 7.5) (Fin 0)) (Vector2 (Fin (- 1)) (Fin 0)) (Fin 3) (Table_initial 0))"
    by simp
  have b: "checkBorders 0
     (place 0 (Vector2 (Fin 7.5) (Fin 0)) (Vector2 (Fin (- 1)) (Fin 0)) (Fin 3) (Table_initial 0)) =
     place 0 (Vector2 (Fin 7.2) (Fin 0)) (Vector2 (Fin 1) (Fin 0)) (Fin 3) (Table_initial 0)"
    by (simp add: tables params checkBorders_def checkBorders_yLow_def checkBorders_yHigh_def
        checkBorders_xLow_def checkBorders_xHigh_def invertX_def evals cong: let_weak_cong)
  have c: "Fin 3 - Fin 0.15 * Fin 3 * (Fin 1 + \<bar>Fin (- 1)\<bar>) = Fin 2.1"
    by simp
  from a b c show ?thesis by blast
qed

section \<open>The cue ball in a pocket\<close>

lemma upt17: "[Suc 0..<7] = [1,2,3,4,5,6]"
  by (simp add: upt_rec)

lemma std_max_Fin: "std_max (Fin a) (Fin b) = Fin (max a b)"
  by (simp add: std_max_def max_def)

lemma created_destroy_pockets: "created (foldl (\<lambda>s mesh. destroyMesh mesh s) sc ms) = created sc"
  by (induction ms arbitrary: sc) (simp_all add: destroyMesh_def)

lemma created_destroy_balls:
  "created (foldl (\<lambda>s mesh. if mesh \<noteq> None then destroyMesh mesh s else s) sc ms) = created sc"
  by (induction ms arbitrary: sc) (simp_all add: destroyMesh_def)

lemma created_Table_deinit: "created (snd (Table_deinit (t, sc))) = created sc"
  by (simp add: Table_deinit_def Let_def created_destroy_pockets created_destroy_balls del: not_None_eq)

lemma Game_reset:
  "Game_init (Game_deinit g) =
     Some (g\<lparr>table := Table_initial (created (scene g)),
             scene := \<lparr>created = created (scene g) + 13,
                       calls = calls (snd (Table_deinit (table g, scene g))) @
                               Game_init_calls (created (scene g))\<rparr>\<rparr>)"
  by (simp add: Game_deinit_eq Game_init_empty created_Table_deinit)

lemma rest_balls:
  assumes "table g = Table_initial n" and "0 \<le> d"
  shows "\<exists>g'. ballsLoop [1,2,3,4,5,6] (Fin d) g = Some g' \<and> table g' = Table_initial n \<and>
     created (scene g') = created (scene g) \<and>
     calls (scene g') = calls (scene g) @ restPlacements n"
  using assms
  by (simp add: tables params moveBall_def rollBall_def isInPocket_def
  checkBorders_def checkBorders_yLow_def checkBorders_yHigh_def checkBorders_xLow_def
  checkBorders_xHigh_def checkBallCollision_def collide_def Vector2_length_def placeMesh_def
      restPlacements_def upt17 std_max_Fin evals del: pow_half.simps cong: let_weak_cong)

lemma cue_reset_frame:
  assumes "isBallsMoving g" and "\<not> isPocketed (table g) ! 0" and "isInPocket 0 (table g)" and "0 \<le> d"
  shows "\<exists>r g'. moveBall 0 (Fin d) (advanceCharge (Fin d) g) = Some r \<and>
     update (Fin d) g = Some g' \<and>
     table r = Table_initial (created (scene g)) \<and>
     table g' = Table_initial (created (scene g)) \<and>
     \<not> isBallsMoving g' \<and>
     calls (scene g') = calls (scene r) @ restPlacements (created (scene g))"
proof -
  define g2 where "g2 = advanceCharge (Fin d) g"
  have g2: "table g2 = table g" "isBallsMoving g2" "created (scene g2) = created (scene g)"
    using assms(1) by (simp_all add: g2_def advanceCharge_def Let_def updateProgressBar_def)
  define r where "r = g2\<lparr>table := Table_initial (created (scene g2)),
             scene := \<lparr>created = created (scene g2) + 13,
                       calls = calls (snd (Table_deinit (table g2, scene g2))) @
                               Game_init_calls (created (scene g2))\<rparr>\<rparr>"
  have m0: "moveBall 0 (Fin d) g2 = Some r"
    using assms(3) by (simp add: moveBall_def g2 Game_reset r_def)
  have tr: "table r = Table_initial (created (scene g))"
    by (simp add: r_def g2)
  from rest_balls [OF tr assms(4)] obtain g3 where
    l: "ballsLoop [1,2,3,4,5,6] (Fin d) r = Some g3"
    and t3: "table g3 = Table_initial (created (scene g))"
    and c3: "calls (scene g3) = calls (scene r) @ restPlacements (created (scene g))"
    by blast
  have loop: "ballsLoop [0..<7] (Fin d) g2 = Some g3"
    using assms(2) m0 l by (simp add: upt7 g2)
  have z: "speedSum (table g3) = Fin 0"
    by (simp add: t3 speedSum_def Table_initial_def replicate7)
  have "update (Fin d) g = Some (g3\<lparr>isBallsMoving := False\<rparr>)"
    using loop g2(2) z by (simp add: update_def g2_def [symmetric] to_bool_def)
  with m0 tr t3 c3 show ?thesis
    by (simp add: g2_def)
qed








section \<open>A ball other than the cue ball in a pocket\<close>

lemmas border_defs = checkBorders_def checkBorders_yLow_def checkBorders_yHigh_def
  checkBorders_xLow_def checkBorders_xHigh_def

lemma checkBorders_frame:
  "isPocketed (checkBorders b t) = isPocketed t"
  "balls (checkBorders b t) = balls t"
  "pockets (checkBorders b t) = pockets t"
  "j \<noteq> b \<Longrightarrow> ballsCurrentPositions (checkBorders b t) ! j = ballsCurrentPositions t ! j"
  "j \<noteq> b \<Longrightarrow> speedDirection (checkBorders b t) ! j = speedDirection t ! j"
  "j \<noteq> b \<Longrightarrow> speedModulus (checkBorders b t) ! j = speedModulus t ! j"
  by (simp_all add: border_defs Let_def)

lemma collide_frame:
  "isPocketed (collide b i t) = isPocketed t"
  "balls (collide b i t) = balls t"
  "pockets (collide b i t) = pockets t"
  "j \<noteq> b \<Longrightarrow> ballsCurrentPositions (collide b i t) ! j = ballsCurrentPositions t ! j"
  "j \<noteq> b \<Longrightarrow> j \<noteq> i \<Longrightarrow> speedDirection (collide b i t) ! j = speedDirection t ! j"
  "j \<noteq> b \<Longrightarrow> j \<noteq> i \<Longrightarrow> speedModulus (collide b i t) ! j = speedModulus t ! j"
  by (simp_all add: collide_def Let_def)

lemma collisionLoop_frame:
  "isPocketed (collisionLoop js b t) = isPocketed t"
  "balls (collisionLoop js b t) = balls t"
  "pockets (collisionLoop js b t) = pockets t"
  "j \<noteq> b \<Longrightarrow> ballsCurrentPositions (collisionLoop js b t) ! j = ballsCurrentPositions t ! j"
  by (induction js arbitrary: t) (simp_all add: collide_frame)

lemma rollBall_frame:
  "isPocketed (table (rollBall b dt g)) = isPocketed (table g)"
  "balls (table (rollBall b dt g)) = balls (table g)"
  "pockets (table (rollBall b dt g)) = pockets (table g)"
  "j \<noteq> b \<Longrightarrow> ballsCurrentPositions (table (rollBall b dt g)) ! j = ballsCurrentPositions (table g) ! j"
  "\<exists>px py. calls (scene (rollBall b dt g)) =
     calls (scene g) @ [PlaceMesh (balls (table g) ! b) px py (Fin 0)]"
  "created (scene (rollBall b dt g)) = created (scene g)"
  by (simp_all add: rollBall_def Let_def checkBallCollision_def collisionLoop_frame checkBorders_frame
      placeMesh_def)

lemma pocketBall_frame:
  "pockets (table (pocketBall b g)) = pockets (table g)"
  "j \<noteq> b \<Longrightarrow> isPocketed (table (pocketBall b g)) ! j = isPocketed (table g) ! j"
  "j \<noteq> b \<Longrightarrow> balls (table (pocketBall b g)) ! j = balls (table g) ! j"
  "j \<noteq> b \<Longrightarrow> ballsCurrentPositions (table (pocketBall b g)) ! j = ballsCurrentPositions (table g) ! j"
  "j \<noteq> b \<Longrightarrow> speedModulus (table (pocketBall b g)) ! j = speedModulus (table g) ! j"
  "speedDirection (table (pocketBall b g)) = speedDirection (table g)"
  "calls (scene (pocketBall b g)) = calls (scene g) @ [DestroyMesh (balls (table g) ! b)]"
  "created (scene (pocketBall b g)) = created (scene g)"
  by (simp_all add: pocketBall_def Let_def destroyMesh_def)

lemma pocketBall_self:
  assumes "wf_table (table g)" and "b < 7"
  shows "isPocketed (table (pocketBall b g)) ! b"
    and "balls (table (pocketBall b g)) ! b = None"
    and "ballsCurrentPositions (table (pocketBall b g)) ! b = Vector2 (Fin 30) (Fin 30)"
    and "speedModulus (table (pocketBall b g)) ! b = Fin 0"
  using assms by (simp_all add: pocketBall_def Let_def wf_table_def width_def)

lemma isInPocket_cong:
  "ballsCurrentPositions t ! b = ballsCurrentPositions t' ! b \<Longrightarrow> isInPocket b t = isInPocket b t'"
  by (simp add: isInPocket_def)

lemma abs_le_length: "\<bar>a\<bar> \<le> sqrt (a * a + b * b)"
  by (rule real_le_rsqrt) (simp add: power2_eq_square)

lemma Vector2_length_Fin: "Vector2_length (Vector2 (Fin a) (Fin b)) = Fin (sqrt (a * a + b * b))"
proof -
  have "\<not> a * a + b * b < 0" by (simp add: not_less)
  then show ?thesis by (simp add: Vector2_length_def)
qed

lemma Vector2_length_NaN:
  "Vector2_length (Vector2 NaN b) = NaN" "Vector2_length (Vector2 a NaN) = NaN"
  by (cases b; simp add: Vector2_length_def) (cases a; simp add: Vector2_length_def)

lemma collide_apart:
  assumes "\<not> Vector2_length (Vector2 (vx (ballsCurrentPositions t ! j) - vx (ballsCurrentPositions t ! k))
        (vy (ballsCurrentPositions t ! j) - vy (ballsCurrentPositions t ! k))) < Fin 2 * radius"
  shows "collide k j t = t"
  using assms by (simp add: collide_def Let_def)

lemma leftOf_mono: "leftOf B p \<Longrightarrow> B \<le> C \<Longrightarrow> leftOf C p"
  by (auto simp: leftOf_def split: fl.splits)

lemma leftOf_NaN: "leftOf B (Vector2 NaN b)" "leftOf B (Vector2 a NaN)"
  by (simp_all add: leftOf_def split: fl.splits)

lemma leftOf_Fin: "leftOf B (Vector2 (Fin px) (Fin py)) \<longleftrightarrow> px \<le> B"
  by (simp add: leftOf_def)

lemma leftOf_checkBorders:
  assumes "k < length (ballsCurrentPositions t)"
  shows "leftOf 7.2 (ballsCurrentPositions (checkBorders k t) ! k)"
proof (cases "ballsCurrentPositions t ! k")
  case (Vector2 a b)
  show ?thesis
  proof (cases a)
    case (Fin px)
    show ?thesis
    proof (cases b)
      case (Fin py)
      with \<open>a = Fin px\<close> Vector2 assms show ?thesis
        by (simp add: pos_checkBorders leftOf_Fin)
    next
      case NaN
      with Vector2 assms have "vy (ballsCurrentPositions (checkBorders k t) ! k) = NaN"
        by (simp add: border_defs Let_def params)
      then show ?thesis
        by (cases "ballsCurrentPositions (checkBorders k t) ! k") (simp add: leftOf_NaN)
    qed
  next
    case NaN
    with Vector2 assms have "vx (ballsCurrentPositions (checkBorders k t) ! k) = NaN"
      by (simp add: border_defs Let_def params)
    then show ?thesis
      by (cases "ballsCurrentPositions (checkBorders k t) ! k") (simp add: leftOf_NaN)
  qed
qed

lemma push_bound:
  fixes l a px :: real
  assumes "0 < l" and "l < 0.6" and "\<bar>a\<bar> \<le> l"
  shows "px - a / l * (0.6 - l) \<le> px + 0.6"
proof -
  define X where "X = a / l * (0.6 - l)"
  from assms have "\<bar>a / l\<bar> \<le> 1" by (simp add: field_simps)
  then have "\<bar>a / l\<bar> * \<bar>0.6 - l\<bar> \<le> 1 * (0.6 - l)"
    using assms by (intro mult_mono) simp_all
  then have "\<bar>X\<bar> \<le> 0.6 - l" by (simp add: X_def abs_mult)
  then have "- X \<le> 0.6 - l" by (rule abs_le_D2)
  with assms(1) have "px - X \<le> px + 0.6" by linarith
  then show ?thesis by (simp only: X_def)
qed

lemma leftOf_collide:
  assumes "k < length (ballsCurrentPositions t)" and "leftOf B (ballsCurrentPositions t ! k)"
  shows "leftOf (B + 0.6) (ballsCurrentPositions (collide k j t) ! k)"
proof (cases "Vector2_length (Vector2 (vx (ballsCurrentPositions t ! j) - vx (ballsCurrentPositions t ! k))
        (vy (ballsCurrentPositions t ! j) - vy (ballsCurrentPositions t ! k))) < Fin 2 * radius")
  case False
  then have "collide k j t = t" by (rule collide_apart)
  with assms(2) show ?thesis by (simp add: leftOf_mono)
next
  case True
  obtain a b where p: "ballsCurrentPositions t ! k = Vector2 a b" by (cases "ballsCurrentPositions t ! k")
  obtain c d where q: "ballsCurrentPositions t ! j = Vector2 c d" by (cases "ballsCurrentPositions t ! j")
  from True p q obtain px py qx qy where f: "a = Fin px" "b = Fin py" "c = Fin qx" "d = Fin qy"
    by (cases a; cases b; cases c; cases d) (simp_all add: Vector2_length_NaN)
  define dx where "dx = qx - px"
  define dy where "dy = qy - py"
  define l where "l = sqrt (dx * dx + dy * dy)"
  have dist: "Vector2 (vx (ballsCurrentPositions t ! j) - vx (ballsCurrentPositions t ! k))
        (vy (ballsCurrentPositions t ! j) - vy (ballsCurrentPositions t ! k)) = Vector2 (Fin dx) (Fin dy)"
    by (simp add: p q f dx_def dy_def)
  have len: "Vector2_length (Vector2 (Fin dx) (Fin dy)) = Fin l"
    by (simp add: Vector2_length_Fin l_def)
  from True have l6: "l < 0.6" unfolding dist len by (simp add: radius_def)
  have l0: "0 \<le> l" by (simp add: l_def)
  from assms(2) p f have B: "px \<le> B" by (simp add: leftOf_Fin)
  have pos: "vx (ballsCurrentPositions (collide k j t) ! k) = Fin px - (Fin dx / Fin l) * (Fin 2 * radius - Fin l)"
    using True assms(1) unfolding collide_def Let_def dist len
    by (simp add: Vector2_normalize_def len p f)
  show ?thesis
  proof (cases "l = 0")
    case True
    with pos have "vx (ballsCurrentPositions (collide k j t) ! k) = NaN" by simp
    then show ?thesis
      by (cases "ballsCurrentPositions (collide k j t) ! k") (simp add: leftOf_NaN)
  next
    case False
    with l0 have "0 < l" by simp
    moreover have "\<bar>dx\<bar> \<le> l" unfolding l_def by (rule abs_le_length)
    ultimately have "px - dx / l * (0.6 - l) \<le> px + 0.6" using l6 by (intro push_bound)
    with B have le: "px - dx / l * (0.6 - l) \<le> B + 0.6" by linarith
    from pos False have "vx (ballsCurrentPositions (collide k j t) ! k) = Fin (px - dx / l * (0.6 - l))"
      by (simp add: radius_def)
    with le show ?thesis
      by (cases "ballsCurrentPositions (collide k j t) ! k"; cases "vy (ballsCurrentPositions (collide k j t) ! k)")
         (simp_all add: leftOf_Fin leftOf_NaN)
  qed
qed

lemma collide_sentinel:
  assumes "ballsCurrentPositions t ! i = Vector2 (Fin 30) (Fin 30)"
    and "leftOf B (ballsCurrentPositions t ! k)" and "B \<le> 29"
  shows "collide k i t = t"
proof (rule collide_apart)
  obtain a b where p: "ballsCurrentPositions t ! k = Vector2 a b" by (cases "ballsCurrentPositions t ! k")
  have "\<not> Vector2_length (Vector2 (Fin 30 - a) (Fin 30 - b)) < Fin 2 * radius"
  proof (cases a)
    case NaN
    then show ?thesis by (simp add: Vector2_length_NaN)
  next
    case (Fin px)
    show ?thesis
    proof (cases b)
      case NaN
      with Fin show ?thesis by (simp add: Vector2_length_NaN)
    next
      case b: (Fin py)
      define l where "l = sqrt ((30 - px) * (30 - px) + (30 - py) * (30 - py))"
      from assms(2,3) p Fin b have "1 \<le> 30 - px" by (simp add: leftOf_Fin)
      also have "30 - px \<le> \<bar>30 - px\<bar>" by simp
      also have "\<dots> \<le> l" unfolding l_def by (rule abs_le_length)
      finally have "\<not> l < 0.6" by simp
      moreover have "Vector2_length (Vector2 (Fin 30 - a) (Fin 30 - b)) = Fin l"
        by (simp add: Fin b Vector2_length_Fin l_def)
      ultimately show ?thesis by (simp add: radius_def)
    qed
  qed
  with assms(1) p show "\<not> Vector2_length (Vector2 (vx (ballsCurrentPositions t ! i) - vx (ballsCurrentPositions t ! k))
        (vy (ballsCurrentPositions t ! i) - vy (ballsCurrentPositions t ! k))) < Fin 2 * radius"
    by simp
qed

lemma length_collide:
  "length (ballsCurrentPositions (collide k j t)) = length (ballsCurrentPositions t)"
  by (simp add: collide_def Let_def)

lemma collisionLoop_sentinel:
  assumes "k \<noteq> i" and "k < length (ballsCurrentPositions t)"
    and "ballsCurrentPositions t ! i = Vector2 (Fin 30) (Fin 30)"
    and "leftOf B (ballsCurrentPositions t ! k)" and "B + 0.6 * real (length js) \<le> 29"
  shows "speedModulus (collisionLoop js k t) ! i = speedModulus t ! i \<and>
         speedDirection (collisionLoop js k t) ! i = speedDirection t ! i"
  using assms(2-5)
proof (induction js arbitrary: t B)
  case Nil
  then show ?case by simp
next
  case (Cons j js)
  define n where "n = real (length js)"
  have "real (length (j # js)) = n + 1" by (simp add: n_def)
  with Cons.prems(4) have n: "B + 0.6 * (n + 1) \<le> 29" by (simp only:)
  have n0: "0 \<le> n" by (simp add: n_def)
  have "B + 0.6 * n \<le> 29" using n n0 by argo
  moreover have "B \<le> 29" using n n0 by argo
  moreover have "(B + 0.6) + 0.6 * n \<le> 29" using n n0 by argo
  ultimately have B: "B + 0.6 * real (length js) \<le> 29" "B \<le> 29"
    "(B + 0.6) + 0.6 * real (length js) \<le> 29"
    by (simp_all only: n_def)
  show ?case
  proof (cases "j = k")
    case True
    with Cons.IH [OF Cons.prems(1,2,3) B(1)] show ?thesis by simp
  next
    case jk: False
    show ?thesis
    proof (cases "j = i")
      case True
      then have "collide k j t = t"
        using collide_sentinel [OF Cons.prems(2,3) B(2)] by simp
      with jk Cons.IH [OF Cons.prems(1,2,3) B(1)] show ?thesis by simp
    next
      case ji: False
      have 1: "k < length (ballsCurrentPositions (collide k j t))"
        using Cons.prems(1) by (simp add: length_collide)
      have 2: "ballsCurrentPositions (collide k j t) ! i = Vector2 (Fin 30) (Fin 30)"
        using Cons.prems(2) assms(1) by (simp add: collide_frame)
      have 3: "leftOf (B + 0.6) (ballsCurrentPositions (collide k j t) ! k)"
        using Cons.prems(1,3) by (rule leftOf_collide)
      from Cons.IH [OF 1 2 3 B(3)] assms(1) ji jk show ?thesis
        by (simp add: collide_frame)
    qed
  qed
qed

lemma rollBall_sentinel:
  assumes "k \<noteq> i" and "k < 7" and "wf_table (table g)"
    and "ballsCurrentPositions (table g) ! i = Vector2 (Fin 30) (Fin 30)"
  shows "speedModulus (table (rollBall k dt g)) ! i = speedModulus (table g) ! i"
proof -
  define t1 where "t1 = checkBorders k (table g)"
  have l0: "k < length (ballsCurrentPositions (table g))"
    using assms(2,3) by (simp add: wf_table_def)
  have l1: "k < length (ballsCurrentPositions t1)"
    using assms(2,3) wf_checkBorders [of k "table g"] by (simp add: t1_def wf_table_def)
  have p1: "ballsCurrentPositions t1 ! i = Vector2 (Fin 30) (Fin 30)"
    using assms(1,4) by (simp add: t1_def checkBorders_frame)
  have b1: "leftOf 7.2 (ballsCurrentPositions t1 ! k)"
    unfolding t1_def using l0 by (rule leftOf_checkBorders)
  have "speedModulus (collisionLoop [0..<7] k t1) ! i = speedModulus t1 ! i"
    using collisionLoop_sentinel [OF assms(1) l1 p1 b1, of "[0..<7]"] by simp
  also have "\<dots> = speedModulus (table g) ! i"
    using assms(1) by (simp add: t1_def checkBorders_frame)
  finally show ?thesis
    using assms(1) by (simp add: rollBall_def Let_def checkBallCollision_def t1_def)
qed

lemma moveBall_other:
  assumes "k \<noteq> 0"
  shows "moveBall k dt g = Some (if isInPocket k (table g) then pocketBall k g else rollBall k dt g)"
  using assms by (simp add: moveBall_def)

lemma moveBall_keeps_pocketed:
  assumes "k \<noteq> 0" and "k \<noteq> i" and "k < 7" and "restsPocketed i g"
  shows "\<exists>g'. moveBall k dt g = Some g' \<and> restsPocketed i g' \<and>
    set (calls (scene g)) \<subseteq> set (calls (scene g'))"
proof (cases "isInPocket k (table g)")
  case True
  with assms show ?thesis
    by (simp add: moveBall_other restsPocketed_def wf_pocketBall pocketBall_frame) auto
next
  case False
  from assms have "speedModulus (table (rollBall k dt g)) ! i = Fin 0"
    by (simp add: restsPocketed_def rollBall_sentinel)
  moreover from rollBall_frame(5) [of k dt g]
  have "set (calls (scene g)) \<subseteq> set (calls (scene (rollBall k dt g)))" by auto
  ultimately show ?thesis
    using assms False
    by (simp add: moveBall_other restsPocketed_def wf_rollBall rollBall_frame)
qed

lemma ballsLoop_keeps_pocketed:
  assumes "0 \<notin> set js" and "i \<notin> set js" and "\<forall>k \<in> set js. k < 7" and "restsPocketed i g"
  shows "\<exists>g'. ballsLoop js dt g = Some g' \<and> restsPocketed i g' \<and>
    set (calls (scene g)) \<subseteq> set (calls (scene g'))"
  using assms
proof (induction js arbitrary: g)
  case Nil
  then show ?case by simp
next
  case (Cons k js)
  show ?case
  proof (cases "isPocketed (table g) ! k")
    case True
    with Cons show ?thesis by simp
  next
    case False
    from Cons.prems have k: "k \<noteq> 0" "k \<noteq> i" "k < 7" by auto
    from moveBall_keeps_pocketed [OF k Cons.prems(4), of dt] obtain g1 where
      m: "moveBall k dt g = Some g1" and r: "restsPocketed i g1"
      and c: "set (calls (scene g)) \<subseteq> set (calls (scene g1))"
      by blast
    from Cons.prems have "0 \<notin> set js" "i \<notin> set js" "\<forall>k \<in> set js. k < 7" by auto
    from Cons.IH [OF this r] obtain g' where
      "ballsLoop js dt g1 = Some g'" "restsPocketed i g'" "set (calls (scene g1)) \<subseteq> set (calls (scene g'))"
      by blast
    with m c False show ?thesis by auto
  qed
qed

lemma moveBall_keeps_waiting:
  assumes "k \<noteq> 0" and "k \<noteq> i" and "awaitsTurn i p h g"
  shows "\<exists>g'. moveBall k dt g = Some g' \<and> awaitsTurn i p h g'"
  using assms
  by (simp add: moveBall_other awaitsTurn_def wf_pocketBall pocketBall_frame wf_rollBall rollBall_frame)

lemma ballsLoop_keeps_waiting:
  assumes "0 \<notin> set js" and "i \<notin> set js" and "awaitsTurn i p h g"
  shows "\<exists>g'. ballsLoop js dt g = Some g' \<and> awaitsTurn i p h g'"
  using assms
proof (induction js arbitrary: g)
  case Nil
  then show ?case by simp
next
  case (Cons k js)
  show ?case
  proof (cases "isPocketed (table g) ! k")
    case True
    with Cons show ?thesis by simp
  next
    case False
    from Cons.prems have k: "k \<noteq> 0" "k \<noteq> i" by auto
    from moveBall_keeps_waiting [OF k Cons.prems(3), of dt] obtain g1 where
      m: "moveBall k dt g = Some g1" and r: "awaitsTurn i p h g1"
      by blast
    from Cons.prems have "0 \<notin> set js" "i \<notin> set js" by auto
    from Cons.IH [OF this r] obtain g' where
      "ballsLoop js dt g1 = Some g'" "awaitsTurn i p h g'"
      by blast
    with m False show ?thesis by auto
  qed
qed

lemma ballsLoop_append:
  "ballsLoop (js @ ks) dt g = Option.bind (ballsLoop js dt g) (ballsLoop ks dt)"
proof (induction js arbitrary: g)
  case Nil
  then show ?case by simp
next
  case (Cons j js)
  then have "ballsLoop (js @ ks) dt = (\<lambda>y. Option.bind (ballsLoop js dt y) (ballsLoop ks dt))" by auto
  then show ?case by (simp add: bind_assoc)
qed

lemma upt_split3:
  assumes "1 \<le> i" and "i < 7"
  shows "[0..<7] = 0 # [1..<i] @ i # [Suc i..<7]"
proof -
  have "[0..<7] = [0..<i] @ [i..<7]"
    using assms by (metis le_add_diff_inverse less_imp_le_nat upt_add_eq_append zero_le)
  moreover have "[0..<i] = 0 # [1..<i]" using assms by (simp add: upt_rec)
  moreover have "[i..<7] = i # [Suc i..<7]" using assms by (simp add: upt_rec)
  ultimately show ?thesis by simp
qed

lemma pocketing_frame:
  assumes "wf_table (table g)" and "isBallsMoving g" and "1 \<le> i" and "i < 7"
    and "\<not> isPocketed (table g) ! i" and "isInPocket i (table g)"
    and "isPocketed (table g) ! 0 \<or> \<not> isInPocket 0 (table g)"
  shows "\<exists>g1 g'. ballsLoop [0..<i] dt (advanceCharge dt g) = Some g1 \<and>
     moveBall i dt g1 = Some (pocketBall i g1) \<and>
     balls (table g1) ! i = balls (table g) ! i \<and>
     update dt g = Some g' \<and> restsPocketed i g' \<and>
     DestroyMesh (balls (table g) ! i) \<in> set (calls (scene g'))"
proof -
  define g2 where "g2 = advanceCharge dt g"
  define p where "p = ballsCurrentPositions (table g) ! i"
  define h where "h = balls (table g) ! i"
  have g2: "table g2 = table g" "isBallsMoving g2"
    using assms(2) by (simp_all add: g2_def advanceCharge_flags)
  have a2: "awaitsTurn i p h g2"
    using assms(1,5) by (simp add: awaitsTurn_def g2 p_def h_def)
  from assms(3) have i0: "i \<noteq> 0" by simp
  have "\<exists>g0. ballsLoop [0] dt g2 = Some g0 \<and> awaitsTurn i p h g0"
  proof (cases "isPocketed (table g) ! 0")
    case True
    with a2 show ?thesis by (simp add: g2)
  next
    case False
    with assms(7) have "\<not> isInPocket 0 (table g2)" by (simp add: g2)
    then have "moveBall 0 dt g2 = Some (rollBall 0 dt g2)" by (simp add: moveBall_def)
    moreover have "awaitsTurn i p h (rollBall 0 dt g2)"
      using a2 i0 by (simp add: awaitsTurn_def wf_rollBall rollBall_frame)
    ultimately show ?thesis using False by (simp add: g2)
  qed
  then obtain g0 where l0: "ballsLoop [0] dt g2 = Some g0" and a0: "awaitsTurn i p h g0"
    by blast
  have "0 \<notin> set [1..<i]" "i \<notin> set [1..<i]" by simp_all
  from ballsLoop_keeps_waiting [OF this a0, of dt] obtain g1 where
    l1: "ballsLoop [1..<i] dt g0 = Some g1" and a1: "awaitsTurn i p h g1"
    by blast
  have pre: "ballsLoop [0..<i] dt g2 = Some g1"
  proof -
    have "[0..<i] = [0] @ [1..<i]" using assms(3) by (simp add: upt_rec)
    then show ?thesis using l0 l1 by (simp only: ballsLoop_append) simp
  qed
  have "isInPocket i (table g1) = isInPocket i (table g)"
    using a1 by (intro isInPocket_cong) (simp add: awaitsTurn_def p_def)
  with assms(6) i0 have m: "moveBall i dt g1 = Some (pocketBall i g1)"
    by (simp add: moveBall_other)
  have r3: "restsPocketed i (pocketBall i g1)"
    using a1 assms(4) by (simp add: restsPocketed_def awaitsTurn_def wf_pocketBall pocketBall_self)
  have d3: "DestroyMesh (balls (table g) ! i) \<in> set (calls (scene (pocketBall i g1)))"
    using a1 by (simp add: pocketBall_frame awaitsTurn_def h_def)
  have "0 \<notin> set [Suc i..<7]" "i \<notin> set [Suc i..<7]" "\<forall>k \<in> set [Suc i..<7]. k < 7" by simp_all
  from ballsLoop_keeps_pocketed [OF this r3, of dt] obtain g4 where
    l4: "ballsLoop [Suc i..<7] dt (pocketBall i g1) = Some g4" and r4: "restsPocketed i g4"
    and c4: "set (calls (scene (pocketBall i g1))) \<subseteq> set (calls (scene g4))"
    by blast
  have "ballsLoop ([0..<i] @ i # [Suc i..<7]) dt g2 = Some g4"
    unfolding ballsLoop_append using pre m l4 a1 by (simp add: awaitsTurn_def)
  moreover have "[0..<7] = [0..<i] @ i # [Suc i..<7]"
    using upt_split3 [OF assms(3,4)] assms(3) by (simp add: upt_rec)
  ultimately have loop: "ballsLoop [0..<7] dt g2 = Some g4" by simp
  define g' where "g' = (if \<not> to_bool (speedSum (table g4)) then g4\<lparr>isBallsMoving := False\<rparr> else g4)"
  have u: "update dt g = Some g'"
    using loop g2(2) by (simp add: update_def g2_def [symmetric] g'_def)
  have "restsPocketed i g'" using r4 by (simp add: g'_def restsPocketed_def)
  moreover have "DestroyMesh (balls (table g) ! i) \<in> set (calls (scene g'))"
    using d3 c4 by (auto simp: g'_def)
  moreover have "balls (table g1) ! i = balls (table g) ! i"
    using a1 by (simp add: awaitsTurn_def h_def)
  ultimately show ?thesis using pre m u by (simp add: g2_def)
qed

lemma two_in_pockets:
  "isBallsMoving Game_two_in_pockets" "\<not> isPocketed (table Game_two_in_pockets) ! 0"
  "isInPocket 0 (table Game_two_in_pockets)" "created (scene Game_two_in_pockets) = 13"
  "isInPocket 1 (table Game_two_in_pockets)" "\<not> isPocketed (table Game_two_in_pockets) ! 1"
  by (simp_all add: Game_two_in_pockets_def Game_initial_def tables params isInPocket_def
      Vector2_length_def evals del: pow_half.simps)

lemma ball_in_pocket:
  "isBallsMoving Game_ball_in_pocket" "wf_table (table Game_ball_in_pocket)"
  "\<not> isInPocket 0 (table Game_ball_in_pocket)"
  "isInPocket 1 (table Game_ball_in_pocket)" "\<not> isPocketed (table Game_ball_in_pocket) ! 1"
  "balls (table Game_ball_in_pocket) ! 1 = Some 7"
  by (simp_all add: Game_ball_in_pocket_def Game_initial_def tables params isInPocket_def wf_table_def
      Vector2_length_def evals del: pow_half.simps)

text \<open>
  C6, as stated: every ball 1 to 6 within \<open>pocketRadius\<close> of a pocket is removed by one
  \<^verbatim>\<open>update\<close> while \<^verbatim>\<open>isBallsMoving\<close>. It fails when the cue ball is in a pocket in the same
  frame: the cue ball comes first, the table is reset, and the ball is back at its canonical
  position and not flagged pocketed. Below, the cue ball is at the centre of the first
  pocket and ball 1 at the centre of the last.
\<close>

theorem pocketing_counterexample:
  "isBallsMoving Game_two_in_pockets \<and> isInPocket 1 (table Game_two_in_pockets) \<and>
   \<not> ballPocketed 1 Game_two_in_pockets \<and>
   map_option (ballPocketed 1) (update (Fin 0.1) Game_two_in_pockets) = Some False \<and>
   map_option (ballPosition 1) (update (Fin 0.1) Game_two_in_pockets) = Some (Vector2 (Fin 3) (Fin 0))"
proof -
  from cue_reset_frame [OF two_in_pockets(1,2,3), of "0.1"] obtain g' where
    u: "update (Fin 0.1) Game_two_in_pockets = Some g'" and t: "table g' = Table_initial 13"
    by (auto simp: two_in_pockets(4))
  have "ballPocketed 1 g' = False" "ballPosition 1 g' = Vector2 (Fin 3) (Fin 0)"
    by (simp_all add: ballPocketed_def ballPosition_def t Table_initial_def replicate7 params)
  with u two_in_pockets show ?thesis by (simp add: ballPocketed_def)
qed

text \<open>
  C6, amended: for every ball 1 to 6 that is not flagged pocketed and whose position is
  within \<open>pocketRadius\<close> of a pocket centre, in a frame in which the cue ball does not reset
  the table (the cue ball is not in a pocket), one \<^verbatim>\<open>update(dt)\<close> while \<^verbatim>\<open>isBallsMoving\<close>
  destroys its mesh and clears the handle, sets its position to \<open>(2 * width, 2 * width)\<close>,
  outside the table rectangle, zeroes its speed and sets \<^verbatim>\<open>isPocketed\<close>. Its simulation
  step is that removal and nothing else (no border check, collision, integration or
  friction for it), and the steps of the balls after it leave all of this as it is.
\<close>

theorem pocketing_removes_ball:
  assumes "wf_table (table g)" and "isBallsMoving g" and "1 \<le> i" and "i < 7"
    and "\<not> isPocketed (table g) ! i" and "isInPocket i (table g)"
    and "isPocketed (table g) ! 0 \<or> \<not> isInPocket 0 (table g)"
  shows "\<exists>g1 g'. ballsLoop [0..<i] dt (advanceCharge dt g) = Some g1 \<and>
     moveBall i dt g1 = Some (pocketBall i g1) \<and>
     balls (table g1) ! i = balls (table g) ! i \<and>
     update dt g = Some g' \<and>
     isPocketed (table g') ! i \<and>
     ballsCurrentPositions (table g') ! i = Vector2 (Fin 2 * width) (Fin 2 * width) \<and>
     \<not> insideBorders (ballsCurrentPositions (table g') ! i) \<and>
     speedModulus (table g') ! i = Fin 0 \<and>
     balls (table g') ! i = None \<and>
     DestroyMesh (balls (table g) ! i) \<in> set (calls (scene g'))"
proof -
  from pocketing_frame [OF assms, of dt] obtain g1 g' where
    "ballsLoop [0..<i] dt (advanceCharge dt g) = Some g1" "moveBall i dt g1 = Some (pocketBall i g1)"
    "balls (table g1) ! i = balls (table g) ! i" "update dt g = Some g'"
    and r: "restsPocketed i g'" and "DestroyMesh (balls (table g) ! i) \<in> set (calls (scene g'))"
    by blast
  moreover from r have "ballsCurrentPositions (table g') ! i = Vector2 (Fin 2 * width) (Fin 2 * width)"
    "\<not> insideBorders (ballsCurrentPositions (table g') ! i)"
    by (simp_all add: restsPocketed_def insideBorders_def params)
  ultimately show ?thesis using r by (auto simp: restsPocketed_def)
qed

theorem pocketing_removes_ball_witness:
  "isBallsMoving Game_ball_in_pocket \<and> isInPocket 1 (table Game_ball_in_pocket) \<and>
   \<not> ballPocketed 1 Game_ball_in_pocket \<and>
   map_option (ballPocketed 1) (update (Fin 0.1) Game_ball_in_pocket) = Some True \<and>
   map_option (ballPosition 1) (update (Fin 0.1) Game_ball_in_pocket) = Some (Vector2 (Fin 30) (Fin 30)) \<and>
   map_option (ballSpeed 1) (update (Fin 0.1) Game_ball_in_pocket) = Some (Fin 0)"
proof -
  have "isPocketed (table Game_ball_in_pocket) ! 0 \<or> \<not> isInPocket 0 (table Game_ball_in_pocket)"
    using ball_in_pocket(3) by simp
  from pocketing_removes_ball [OF ball_in_pocket(2,1) _ _ ball_in_pocket(5,4) this, of "Fin 0.1"]
  obtain g' where "update (Fin 0.1) Game_ball_in_pocket = Some g'" "isPocketed (table g') ! 1"
    "ballsCurrentPositions (table g') ! 1 = Vector2 (Fin 2 * width) (Fin 2 * width)"
    "speedModulus (table g') ! 1 = Fin 0"
    by auto
  with ball_in_pocket show ?thesis
    by (simp add: ballPocketed_def ballPosition_def ballSpeed_def width_def)
qed

section \<open>Two overlapping balls at rest\<close>

lemma pow_half_0: "pow_half (Fin 0) = Fin 0"
  by simp

lemma pow_half_sq: "0 \<le> r \<Longrightarrow> pow_half (Fin (r * r)) = Fin r"
  by (simp add: not_less)

lemma shot_short:
  "table (mouseButtonReleased (Fin 0) (Fin 0) (Game_charged (Fin (7 / 60)))) =
     place 0 (Vector2 (Fin (- 4.5)) (Fin 0)) (Vector2 (Fin 1) (Fin 0)) (Fin 1.75) (Table_initial 0)"
  "isBallsMoving (mouseButtonReleased (Fin 0) (Fin 0) (Game_charged (Fin (7 / 60))))"
  "\<not> isChargingShot (mouseButtonReleased (Fin 0) (Fin 0) (Game_charged (Fin (7 / 60))))"
  using normalize_east [of "4.5"]
  by (simp_all add: mouseButtonReleased_def charged_table charged_flags charged_progress tables params
      evals cong: let_weak_cong)

lemma step_cue_short:
  assumes "table g = place 0 (Vector2 (Fin (- 4.5)) (Fin 0)) (Vector2 (Fin 1) (Fin 0)) (Fin 1.75) (Table_initial 0)"
  shows "\<exists>g'. moveBall 0 (Fin 4) g = Some g' \<and>
     table g' = place 0 (Vector2 (Fin 2.5) (Fin 0)) (Vector2 (Fin 1) (Fin 0)) (Fin 0) (Table_initial 0)"
  using assms
  by (simp add: tables params moveBall_def rollBall_def isInPocket_def border_defs
      checkBallCollision_def collide_def Vector2_length_def std_max_Fin evals
      del: pow_half.simps cong: let_weak_cong)

lemma step_ball1_overlap:
  assumes "table g = place 0 (Vector2 (Fin 2.5) (Fin 0)) (Vector2 (Fin 1) (Fin 0)) (Fin 0) (Table_initial 0)"
  shows "\<exists>g'. moveBall 1 (Fin 4) g = Some g' \<and>
     table g' = place 1 (Vector2 NaN NaN) (Vector2 NaN NaN) (Fin 0)
       (place 0 (Vector2 (Fin 2.5) (Fin 0)) (Vector2 NaN NaN) (Fin 0) (Table_initial 0))"
  using assms pow_half_sq [of "0.5"]
  by (simp add: tables params moveBall_def rollBall_def isInPocket_def border_defs
      checkBallCollision_def collide_def Vector2_length_def Vector2_normalize_def std_max_def
      pow_half_0 evals
      del: pow_half.simps cong: let_weak_cong)

lemma steps_rest_overlap:
  assumes "table g = place 1 (Vector2 NaN NaN) (Vector2 NaN NaN) (Fin 0)
       (place 0 (Vector2 (Fin 2.5) (Fin 0)) (Vector2 NaN NaN) (Fin 0) (Table_initial 0))"
  shows "\<exists>g'. ballsLoop [2,3,4,5,6] (Fin 4) g = Some g' \<and> table g' = table g"
  using assms
  by (simp add: tables params moveBall_def rollBall_def isInPocket_def border_defs
      checkBallCollision_def collide_def Vector2_length_def std_max_Fin evals
      del: pow_half.simps(1) cong: let_weak_cong)

text \<open>
  C5. The claim: the simulation step of a ball that overlaps another, both at rest, leaves
  their centres \<open>2 * radius\<close> apart. In \<^verbatim>\<open>checkBallCollision\<close> both new velocity vectors are
  zero then, and \<^verbatim>\<open>normalize\<close> divides by their length: both directions become \<open>NaN\<close>, and
  the integration \<open>x + direction.x * 0 * dt\<close> makes the position of the ball \<open>NaN\<close>.

  After \<^verbatim>\<open>init\<close>, a press, \<^verbatim>\<open>update(7/60)\<close> and a release to the east, in \<^verbatim>\<open>update(4)\<close>
  the step of the cue ball takes it to \<open>(2.5, 0)\<close>, at rest, \<open>0.5 = 2 * radius - 0.1\<close> from
  ball 1 at \<open>(3, 0)\<close>, which rests too. The step of ball 1 in the same frame leaves ball 1
  at \<open>(NaN, NaN)\<close> and both directions \<open>NaN\<close>; their distance is \<open>NaN\<close>, which is not
  \<open>\<ge> 2 * radius\<close>.
\<close>

theorem overlap_at_rest_gives_NaN:
  "map_option table
     (moveBall 0 (Fin 4)
        (advanceCharge (Fin 4) (mouseButtonReleased (Fin 0) (Fin 0) (Game_charged (Fin (7 / 60)))))) =
     Some (place 0 (Vector2 (Fin 2.5) (Fin 0)) (Vector2 (Fin 1) (Fin 0)) (Fin 0) (Table_initial 0)) \<and>
   centerDistance 0 1
     (place 0 (Vector2 (Fin 2.5) (Fin 0)) (Vector2 (Fin 1) (Fin 0)) (Fin 0) (Table_initial 0)) = Fin 0.5 \<and>
   speedModulus
     (place 0 (Vector2 (Fin 2.5) (Fin 0)) (Vector2 (Fin 1) (Fin 0)) (Fin 0) (Table_initial 0)) =
     replicate 7 (Fin 0) \<and>
   map_option table
     (Option.bind
        (moveBall 0 (Fin 4)
          (advanceCharge (Fin 4) (mouseButtonReleased (Fin 0) (Fin 0) (Game_charged (Fin (7 / 60))))))
        (moveBall 1 (Fin 4))) =
     Some (place 1 (Vector2 NaN NaN) (Vector2 NaN NaN) (Fin 0)
            (place 0 (Vector2 (Fin 2.5) (Fin 0)) (Vector2 NaN NaN) (Fin 0) (Table_initial 0))) \<and>
   map_option table
     (update (Fin 4) (mouseButtonReleased (Fin 0) (Fin 0) (Game_charged (Fin (7 / 60))))) =
     Some (place 1 (Vector2 NaN NaN) (Vector2 NaN NaN) (Fin 0)
            (place 0 (Vector2 (Fin 2.5) (Fin 0)) (Vector2 NaN NaN) (Fin 0) (Table_initial 0))) \<and>
   centerDistance 0 1
     (place 1 (Vector2 NaN NaN) (Vector2 NaN NaN) (Fin 0)
        (place 0 (Vector2 (Fin 2.5) (Fin 0)) (Vector2 NaN NaN) (Fin 0) (Table_initial 0))) = NaN \<and>
   \<not> Fin 2 * radius \<le> NaN"
proof -
  define G where "G = mouseButtonReleased (Fin 0) (Fin 0) (Game_charged (Fin (7 / 60)))"
  define T0 where "T0 = place 0 (Vector2 (Fin 2.5) (Fin 0)) (Vector2 (Fin 1) (Fin 0)) (Fin 0) (Table_initial 0)"
  define T1 where "T1 = place 1 (Vector2 NaN NaN) (Vector2 NaN NaN) (Fin 0)
       (place 0 (Vector2 (Fin 2.5) (Fin 0)) (Vector2 NaN NaN) (Fin 0) (Table_initial 0))"
  have G: "table (advanceCharge (Fin 4) G) =
      place 0 (Vector2 (Fin (- 4.5)) (Fin 0)) (Vector2 (Fin 1) (Fin 0)) (Fin 1.75) (Table_initial 0)"
    "isBallsMoving (advanceCharge (Fin 4) G)"
    by (simp_all add: G_def advanceCharge_flags shot_short)
  from step_cue_short [OF G(1)] obtain g0 where
    m0: "moveBall 0 (Fin 4) (advanceCharge (Fin 4) G) = Some g0" and t0: "table g0 = T0"
    unfolding T0_def by blast
  from step_ball1_overlap [OF t0 [unfolded T0_def]] obtain g1 where
    m1: "moveBall 1 (Fin 4) g0 = Some g1" and t1: "table g1 = T1"
    unfolding T1_def by blast
  from steps_rest_overlap [OF t1 [unfolded T1_def]] obtain g6 where
    l: "ballsLoop [2,3,4,5,6] (Fin 4) g1 = Some g6" and t6: "table g6 = T1"
    using t1 by auto
  have p: "\<not> isPocketed (table (advanceCharge (Fin 4) G)) ! 0" "\<not> isPocketed (table g0) ! 1"
    by (simp_all add: G t0 T0_def tables replicate7)
  have "ballsLoop [0..<7] (Fin 4) (advanceCharge (Fin 4) G) = Some g6"
    using m0 m1 l p by (simp add: upt7)
  moreover have "speedSum T1 = Fin 0"
    by (simp add: T1_def speedSum_def tables replicate7)
  ultimately have "update (Fin 4) G = Some (g6\<lparr>isBallsMoving := False\<rparr>)"
    using G(2) t6 by (simp add: update_def to_bool_def)
  then have u: "map_option table (update (Fin 4) G) = Some T1"
    by (simp add: t6)
  have d0: "centerDistance 0 1 T0 = Fin 0.5"
    using pow_half_sq [of "0.5"]
    by (simp add: centerDistance_def T0_def tables params Vector2_length_def del: pow_half.simps)
  have s0: "speedModulus T0 = replicate 7 (Fin 0)"
    by (simp add: T0_def tables replicate7)
  have d1: "centerDistance 0 1 T1 = NaN"
    by (simp add: centerDistance_def T1_def tables params Vector2_length_def)
  have a: "map_option table (moveBall 0 (Fin 4) (advanceCharge (Fin 4) G)) = Some T0"
    using m0 t0 by simp
  have b: "map_option table (Option.bind (moveBall 0 (Fin 4) (advanceCharge (Fin 4) G)) (moveBall 1 (Fin 4))) =
      Some T1"
    using m0 m1 t1 by simp
  have c: "\<not> Fin 2 * radius \<le> NaN" by simp
  from a d0 s0 b u d1 c show ?thesis
    unfolding G_def T0_def T1_def by (intro conjI)
qed

section \<open>Coming to rest\<close>

lemma NaN_right [simp]:
  "a + NaN = NaN" "a - NaN = NaN" "a * NaN = NaN" "a / NaN = NaN" "\<not> a < NaN" "\<not> a \<le> NaN"
  by (cases a; simp)+

lemma NaN_left [simp]:
  "NaN + a = NaN" "NaN - a = NaN" "NaN * a = NaN" "NaN / a = NaN" "\<not> NaN < a" "\<not> NaN \<le> a"
  by (cases a; simp)+

lemma normalize_NaN [simp]: "Vector2_normalize (Vector2 NaN NaN) = Vector2 NaN NaN"
  by (simp add: Vector2_normalize_def Vector2_length_def)

lemma length_NaN [simp]: "Vector2_length (Vector2 NaN NaN) = NaN"
  by (simp add: Vector2_length_def)

lemma foldl_NaN: "foldl (\<lambda>sum v. sum + v) NaN xs = NaN"
  by (induction xs) simp_all

lemma speedSum_NaN:
  assumes "i < length xs" and "xs ! i = NaN"
  shows "foldl (\<lambda>sum v. sum + v) a xs = NaN"
  using assms
proof (induction xs arbitrary: a i)
  case Nil
  then show ?case by simp
next
  case (Cons x xs)
  show ?case
  proof (cases i)
    case 0
    with Cons.prems show ?thesis by (simp add: foldl_NaN)
  next
    case (Suc j)
    with Cons.prems Cons.IH [of j "a + x"] show ?thesis by simp
  qed
qed

lemma collide_keeps_NaN:
  assumes "wf_table t" and "k < 7" and "j < 7" and "k \<noteq> j"
    and "speedModulus t ! 0 = NaN" and "speedDirection t ! 0 = Vector2 NaN NaN"
  shows "speedModulus (collide k j t) ! 0 = NaN \<and> speedDirection (collide k j t) ! 0 = Vector2 NaN NaN"
proof (cases "Vector2_length (Vector2 (vx (ballsCurrentPositions t ! j) - vx (ballsCurrentPositions t ! k))
        (vy (ballsCurrentPositions t ! j) - vy (ballsCurrentPositions t ! k))) < Fin 2 * radius")
  case False
  then have "collide k j t = t" by (rule collide_apart)
  with assms show ?thesis by simp
next
  case True
  consider "k = 0" | "j = 0" | "k \<noteq> 0" "j \<noteq> 0" by blast
  then show ?thesis
  proof cases
    case 1
    with True assms show ?thesis
      by (simp add: collide_def Let_def wf_table_def)
  next
    case 2
    with True assms show ?thesis
      by (simp add: collide_def Let_def wf_table_def)
  next
    case 3
    with assms show ?thesis by (simp add: collide_frame)
  qed
qed

lemma collisionLoop_keeps_NaN:
  assumes "wf_table t" and "k < 7" and "\<forall>j \<in> set js. j < 7"
    and "speedModulus t ! 0 = NaN" and "speedDirection t ! 0 = Vector2 NaN NaN"
  shows "speedModulus (collisionLoop js k t) ! 0 = NaN \<and>
         speedDirection (collisionLoop js k t) ! 0 = Vector2 NaN NaN"
  using assms(1,3-5)
proof (induction js arbitrary: t)
  case Nil
  then show ?case by simp
next
  case (Cons j js)
  show ?case
  proof (cases "j = k")
    case True
    with Cons show ?thesis by simp
  next
    case False
    from Cons.prems have j: "j < 7" by simp
    from False have kj: "k \<noteq> j" by simp
    from collide_keeps_NaN [OF Cons.prems(1) assms(2) j kj Cons.prems(3,4)]
    have "speedModulus (collide k j t) ! 0 = NaN" "speedDirection (collide k j t) ! 0 = Vector2 NaN NaN"
      by simp_all
    moreover have "wf_table (collide k j t)" using Cons.prems(1) by (simp add: wf_collide)
    moreover from Cons.prems have "\<forall>j \<in> set js. j < 7" by simp
    ultimately show ?thesis using Cons.IH False by simp
  qed
qed

lemma checkBorders_keeps_NaN:
  assumes "wf_table t" and "k < 7"
    and "speedModulus t ! 0 = NaN" and "speedDirection t ! 0 = Vector2 NaN NaN"
  shows "speedModulus (checkBorders k t) ! 0 = NaN \<and>
         speedDirection (checkBorders k t) ! 0 = Vector2 NaN NaN"
proof (cases "k = 0")
  case True
  with assms show ?thesis
    by (simp add: border_defs Let_def wf_table_def invertX_def invertY_def)
next
  case False
  with assms show ?thesis by (simp add: checkBorders_frame)
qed

lemma pocketLoop_NaN: "\<not> pocketLoop js NaN py"
  by (induction js) (simp_all add: Vector2_length_NaN)

lemma rollBall_keeps_NaN:
  assumes "wf_table (table g)" and "k < 7"
    and "speedModulus (table g) ! 0 = NaN" and "speedDirection (table g) ! 0 = Vector2 NaN NaN"
  shows "speedModulus (table (rollBall k dt g)) ! 0 = NaN"
    and "speedDirection (table (rollBall k dt g)) ! 0 = Vector2 NaN NaN"
    and "k = 0 \<Longrightarrow> ballsCurrentPositions (table (rollBall k dt g)) ! 0 = Vector2 NaN NaN"
proof -
  define t1 where "t1 = checkBorders k (table g)"
  define t2 where "t2 = collisionLoop [0..<7] k t1"
  have w1: "wf_table t1" using assms(1) by (simp add: t1_def wf_checkBorders)
  have n1: "speedModulus t1 ! 0 = NaN" "speedDirection t1 ! 0 = Vector2 NaN NaN"
    using checkBorders_keeps_NaN [OF assms] by (simp_all add: t1_def)
  have w2: "wf_table t2" using w1 by (simp add: t2_def wf_collisionLoop)
  have "\<forall>j \<in> set [0..<7]. j < 7" by simp
  from collisionLoop_keeps_NaN [OF w1 assms(2) this n1]
  have n2: "speedModulus t2 ! 0 = NaN" "speedDirection t2 ! 0 = Vector2 NaN NaN"
    by (simp_all add: t2_def)
  have r: "table (rollBall k dt g) =
      t2\<lparr>ballsCurrentPositions := (ballsCurrentPositions t2)
            [k := Vector2 (vx (ballsCurrentPositions t2 ! k) + vx (speedDirection t2 ! k) * speedModulus t2 ! k * dt)
                          (vy (ballsCurrentPositions t2 ! k) + vy (speedDirection t2 ! k) * speedModulus t2 ! k * dt)],
         speedModulus := (speedModulus t2)[k := std_max (speedModulus t2 ! k - Fin 0.05 * width * dt) (Fin 0)]\<rparr>"
    by (simp add: rollBall_def Let_def checkBallCollision_def t1_def t2_def)
  show "speedModulus (table (rollBall k dt g)) ! 0 = NaN"
    unfolding r using n2 w2 by (cases "k = 0") (simp_all add: wf_table_def std_max_def)
  show "speedDirection (table (rollBall k dt g)) ! 0 = Vector2 NaN NaN"
    unfolding r using n2 by simp
  show "ballsCurrentPositions (table (rollBall k dt g)) ! 0 = Vector2 NaN NaN" if "k = 0"
    unfolding r using that n2 w2 by (simp add: wf_table_def)
qed

lemma moveBall_keeps_lostCue:
  assumes "k < 7" and "lostCue g"
  shows "\<exists>g'. moveBall k dt g = Some g' \<and> lostCue g'"
proof (cases "k = 0")
  case True
  from assms(2) have w: "wf_table (table g)" and n: "speedModulus (table g) ! 0 = NaN"
    "speedDirection (table g) ! 0 = Vector2 NaN NaN" and np: "\<not> isInPocket 0 (table g)"
    by (simp_all add: lostCue_def)
  have "0 < (7::nat)" by simp
  note r = rollBall_keeps_NaN [OF w this n, of dt]
  have "\<not> isInPocket 0 (table (rollBall 0 dt g))"
    using r(3) by (simp add: isInPocket_def pocketLoop_NaN)
  with r assms(2) have "lostCue (rollBall 0 dt g)"
    by (simp add: lostCue_def wf_rollBall rollBall_frame rollBall_def [of 0 dt g, THEN arg_cong [of _ _ isBallsMoving]] Let_def)
  with np True show ?thesis by (simp add: moveBall_def)
next
  case False
  from assms(2) have w: "wf_table (table g)" and n: "speedModulus (table g) ! 0 = NaN"
    "speedDirection (table g) ! 0 = Vector2 NaN NaN"
    by (simp_all add: lostCue_def)
  note r = rollBall_keeps_NaN(1,2) [OF w assms(1) n, of dt]
  have p0: "ballsCurrentPositions (table (rollBall k dt g)) ! 0 = ballsCurrentPositions (table g) ! 0"
    "ballsCurrentPositions (table (pocketBall k g)) ! 0 = ballsCurrentPositions (table g) ! 0"
    using False by (simp_all add: rollBall_frame pocketBall_frame)
  have i0: "isInPocket 0 (table (rollBall k dt g)) = isInPocket 0 (table g)"
    "isInPocket 0 (table (pocketBall k g)) = isInPocket 0 (table g)"
    using p0 by (simp_all add: isInPocket_def)
  have m: "isBallsMoving (rollBall k dt g) = isBallsMoving g" "isBallsMoving (pocketBall k g) = isBallsMoving g"
    by (simp_all add: rollBall_def pocketBall_def Let_def)
  have "lostCue (rollBall k dt g)"
    using assms(2) r i0 m by (simp add: lostCue_def wf_rollBall rollBall_frame)
  moreover have "lostCue (pocketBall k g)"
    using assms(2) i0 m False by (simp add: lostCue_def wf_pocketBall pocketBall_frame)
  ultimately show ?thesis using False by (simp add: moveBall_other)
qed

lemma ballsLoop_keeps_lostCue:
  assumes "\<forall>k \<in> set js. k < 7" and "lostCue g"
  shows "\<exists>g'. ballsLoop js dt g = Some g' \<and> lostCue g'"
  using assms
proof (induction js arbitrary: g)
  case Nil
  then show ?case by simp
next
  case (Cons k js)
  show ?case
  proof (cases "isPocketed (table g) ! k")
    case True
    with Cons show ?thesis by simp
  next
    case False
    from Cons.prems have "k < 7" by simp
    from moveBall_keeps_lostCue [OF this Cons.prems(2), of dt] obtain g1 where
      m: "moveBall k dt g = Some g1" and l: "lostCue g1" by blast
    from Cons.prems have "\<forall>k \<in> set js. k < 7" by simp
    from Cons.IH [OF this l] m False show ?thesis by simp
  qed
qed

lemma lostCue_speedSum: "lostCue g \<Longrightarrow> speedSum (table g) = NaN"
  unfolding speedSum_def by (rule speedSum_NaN [of 0]) (simp_all add: lostCue_def wf_table_def)

lemma update_keeps_lostCue:
  assumes "lostCue g"
  shows "\<exists>g'. update dt g = Some g' \<and> lostCue g'"
proof -
  have a: "lostCue (advanceCharge dt g)"
    using assms by (simp add: lostCue_def advanceCharge_flags)
  have "\<forall>k \<in> set [0..<7]. k < 7" by simp
  from ballsLoop_keeps_lostCue [OF this a, of dt] obtain g3 where
    l: "ballsLoop [0..<7] dt (advanceCharge dt g) = Some g3" and c: "lostCue g3" by blast
  from c have "to_bool (speedSum (table g3))" by (simp add: lostCue_speedSum to_bool_def)
  with l a c show ?thesis by (simp add: update_def lostCue_def)
qed

lemma frames_keep_lostCue:
  assumes "lostCue g"
  shows "\<exists>g'. frames n dt g = Some g' \<and> lostCue g'"
  using assms
proof (induction n arbitrary: g)
  case 0
  then show ?case by simp
next
  case (Suc n)
  from update_keeps_lostCue [OF Suc.prems, of dt] obtain g1 where
    "update dt g = Some g1" "lostCue g1" by blast
  with Suc.IH [of g1] show ?case by simp
qed

lemma shot_half:
  "table (mouseButtonReleased (Fin 0) (Fin 0) (Game_charged (Fin 0.5))) =
     place 0 (Vector2 (Fin (- 4.5)) (Fin 0)) (Vector2 (Fin 1) (Fin 0)) (Fin 7.5) (Table_initial 0)"
  "isBallsMoving (mouseButtonReleased (Fin 0) (Fin 0) (Game_charged (Fin 0.5)))"
  "\<not> isChargingShot (mouseButtonReleased (Fin 0) (Fin 0) (Game_charged (Fin 0.5)))"
  using normalize_east [of "4.5"]
  by (simp_all add: mouseButtonReleased_def charged_table charged_flags charged_progress tables params
      evals cong: let_weak_cong)

lemma step_cue_onto_ball:
  assumes "table g = place 0 (Vector2 (Fin (- 4.5)) (Fin 0)) (Vector2 (Fin 1) (Fin 0)) (Fin 7.5) (Table_initial 0)"
  shows "\<exists>g'. moveBall 0 (Fin 1) g = Some g' \<and>
     table g' = place 0 (Vector2 (Fin 3) (Fin 0)) (Vector2 (Fin 1) (Fin 0)) (Fin 6.75) (Table_initial 0)"
  using assms
  by (simp add: tables params moveBall_def rollBall_def isInPocket_def border_defs
      checkBallCollision_def collide_def Vector2_length_def std_max_Fin evals
      del: pow_half.simps(1) cong: let_weak_cong)

lemma step_ball1_coincident:
  assumes "table g = place 0 (Vector2 (Fin 3) (Fin 0)) (Vector2 (Fin 1) (Fin 0)) (Fin 6.75) (Table_initial 0)"
  shows "\<exists>g'. moveBall 1 (Fin 1) g = Some g' \<and>
     table g' = place 1 (Vector2 NaN NaN) (Vector2 NaN NaN) NaN
       (place 0 (Vector2 (Fin 3) (Fin 0)) (Vector2 NaN NaN) NaN (Table_initial 0))"
  using assms
  by (simp add: tables params moveBall_def rollBall_def isInPocket_def border_defs
      checkBallCollision_def collide_def Vector2_length_def Vector2_normalize_def std_max_def
      pow_half_0 evals
      del: pow_half.simps(1) cong: let_weak_cong)

lemma steps_rest_coincident:
  assumes "table g = place 1 (Vector2 NaN NaN) (Vector2 NaN NaN) NaN
       (place 0 (Vector2 (Fin 3) (Fin 0)) (Vector2 NaN NaN) NaN (Table_initial 0))"
  shows "\<exists>g'. ballsLoop [2,3,4,5,6] (Fin 1) g = Some g' \<and> table g' = table g"
  using assms
  by (simp add: tables params moveBall_def rollBall_def isInPocket_def border_defs
      checkBallCollision_def collide_def Vector2_length_def std_max_Fin evals
      del: pow_half.simps(1) cong: let_weak_cong)

lemma first_frame_loses_cue:
  "\<exists>g'. update (Fin 1) (mouseButtonReleased (Fin 0) (Fin 0) (Game_charged (Fin 0.5))) = Some g' \<and>
     lostCue g'"
proof -
  define G where "G = mouseButtonReleased (Fin 0) (Fin 0) (Game_charged (Fin 0.5))"
  define T1 where "T1 = place 1 (Vector2 NaN NaN) (Vector2 NaN NaN) NaN
       (place 0 (Vector2 (Fin 3) (Fin 0)) (Vector2 NaN NaN) NaN (Table_initial 0))"
  have G: "table (advanceCharge (Fin 1) G) =
      place 0 (Vector2 (Fin (- 4.5)) (Fin 0)) (Vector2 (Fin 1) (Fin 0)) (Fin 7.5) (Table_initial 0)"
    "isBallsMoving (advanceCharge (Fin 1) G)"
    using shot_half by (simp_all add: G_def advanceCharge_flags)
  from step_cue_onto_ball [OF G(1)] obtain g0 where
    m0: "moveBall 0 (Fin 1) (advanceCharge (Fin 1) G) = Some g0"
    and t0: "table g0 = place 0 (Vector2 (Fin 3) (Fin 0)) (Vector2 (Fin 1) (Fin 0)) (Fin 6.75) (Table_initial 0)"
    by blast
  from step_ball1_coincident [OF t0] obtain g1 where
    m1: "moveBall 1 (Fin 1) g0 = Some g1" and t1: "table g1 = T1"
    unfolding T1_def by blast
  from steps_rest_coincident [OF t1 [unfolded T1_def]] obtain g6 where
    l: "ballsLoop [2,3,4,5,6] (Fin 1) g1 = Some g6" and t6: "table g6 = T1"
    using t1 by auto
  have p: "\<not> isPocketed (table (advanceCharge (Fin 1) G)) ! 0" "\<not> isPocketed (table g0) ! 1"
    by (simp_all add: G t0 tables replicate7)
  have loop: "ballsLoop [0..<7] (Fin 1) (advanceCharge (Fin 1) G) = Some g6"
    using m0 m1 l p by (simp add: upt7)
  from ballsLoop_flags [OF loop] G(2) have mv: "isBallsMoving g6" by simp
  have T1: "wf_table T1" "\<not> isPocketed T1 ! 0" "\<not> isInPocket 0 T1" "speedModulus T1 ! 0 = NaN"
    "speedDirection T1 ! 0 = Vector2 NaN NaN"
    by (simp_all add: T1_def tables params wf_table_def isInPocket_def Vector2_length_def evals
        del: pow_half.simps(1))
  with mv t6 have c: "lostCue g6" by (simp add: lostCue_def)
  then have "to_bool (speedSum (table g6))" by (simp add: lostCue_speedSum to_bool_def)
  with loop G(2) have "update (Fin 1) G = Some g6" by (simp add: update_def)
  with c show ?thesis unfolding G_def by blast
qed

text \<open>
  C8. The claim: from every \<^verbatim>\<open>BallsMoving\<close> state with finite speeds, repeated \<^verbatim>\<open>update(dt)\<close>
  with a fixed \<open>dt > 0\<close> reaches \<open>speedSum() == 0\<close> and clears \<^verbatim>\<open>isBallsMoving\<close>. After
  \<^verbatim>\<open>init\<close>, a press, \<^verbatim>\<open>update(0.5)\<close> and a release to the east, every value of the state is
  finite, the cue ball has speed \<open>7.5\<close> and the others rest. The first \<^verbatim>\<open>update(1)\<close> takes the
  cue ball onto the centre of ball 1; the step of ball 1 divides the zero distance by its
  length, and the speeds of both balls become \<open>NaN\<close>. From then on, after every further
  \<^verbatim>\<open>update(1)\<close>, \<open>speedSum()\<close> is \<open>NaN\<close>, which is not zero, and \<^verbatim>\<open>isBallsMoving\<close> stays set:
  the state machine never returns to idle.
\<close>

theorem coincident_balls_never_rest:
  "reachable (mouseButtonReleased (Fin 0) (Fin 0) (Game_charged (Fin 0.5))) \<and>
   isBallsMoving (mouseButtonReleased (Fin 0) (Fin 0) (Game_charged (Fin 0.5))) \<and>
   speedModulus (table (mouseButtonReleased (Fin 0) (Fin 0) (Game_charged (Fin 0.5)))) =
     [Fin 7.5, Fin 0, Fin 0, Fin 0, Fin 0, Fin 0, Fin 0] \<and>
   (\<forall>n. \<exists>g. frames (Suc n) (Fin 1) (mouseButtonReleased (Fin 0) (Fin 0) (Game_charged (Fin 0.5))) = Some g \<and>
      speedSum (table g) = NaN \<and> to_bool (speedSum (table g)) \<and> isBallsMoving g)"
proof -
  have r: "reachable (mouseButtonReleased (Fin 0) (Fin 0) (Game_charged (Fin 0.5)))"
    by (rule r_released) (rule reachable_charged)
  have s: "speedModulus (table (mouseButtonReleased (Fin 0) (Fin 0) (Game_charged (Fin 0.5)))) =
     [Fin 7.5, Fin 0, Fin 0, Fin 0, Fin 0, Fin 0, Fin 0]"
    using shot_half(1) by (simp add: tables replicate7)
  have "\<exists>g. frames (Suc n) (Fin 1) (mouseButtonReleased (Fin 0) (Fin 0) (Game_charged (Fin 0.5))) = Some g \<and>
      speedSum (table g) = NaN \<and> to_bool (speedSum (table g)) \<and> isBallsMoving g" for n
  proof -
    from first_frame_loses_cue obtain g1 where
      u: "update (Fin 1) (mouseButtonReleased (Fin 0) (Fin 0) (Game_charged (Fin 0.5))) = Some g1"
      and c: "lostCue g1" by blast
    from frames_keep_lostCue [OF c, of n "Fin 1"] obtain g where
      f: "frames n (Fin 1) g1 = Some g" and "lostCue g" by blast
    then have "speedSum (table g) = NaN" "to_bool (speedSum (table g))" "isBallsMoving g"
      by (simp_all add: lostCue_speedSum to_bool_def lostCue_def)
    with u f show ?thesis by simp
  qed
  with r s shot_half(2) show ?thesis by blast
qed

section \<open>The sum of the speeds\<close>

lemma shot_oblique:
  "table (mouseButtonReleased (Fin (- 3.06)) (Fin (- 0.17)) (Game_charged (Fin (47 / 60)))) =
     place 0 (Vector2 (Fin (- 4.5)) (Fin 0)) (Vector2 (Fin (144 / 145)) (Fin (- (17 / 145)))) (Fin 11.75)
       (Table_initial 0)"
  "isBallsMoving (mouseButtonReleased (Fin (- 3.06)) (Fin (- 0.17)) (Game_charged (Fin (47 / 60))))"
  "\<not> isChargingShot (mouseButtonReleased (Fin (- 3.06)) (Fin (- 0.17)) (Game_charged (Fin (47 / 60))))"
  using pow_half_sq [of "1.45"]
  by (simp_all add: mouseButtonReleased_def charged_table charged_flags charged_progress tables params
      Vector2_normalize_def Vector2_length_def evals del: pow_half.simps(1) cong: let_weak_cong)

lemma frame_oblique_1:
  assumes "table g = place 0 (Vector2 (Fin (- 4.5)) (Fin 0)) (Vector2 (Fin (144 / 145)) (Fin (- (17 / 145))))
       (Fin 11.75) (Table_initial 0)"
    and "isBallsMoving g"
  shows "\<exists>g'. update (Fin 0.4) g = Some g' \<and>
     table g' = place 0 (Vector2 (Fin (243 / 1450)) (Fin (- (799 / 1450))))
       (Vector2 (Fin (144 / 145)) (Fin (- (17 / 145)))) (Fin 11.45) (Table_initial 0) \<and>
     isBallsMoving g'"
  using assms
  by (simp add: tables params steps std_max_Fin evals del: pow_half.simps(1) cong: let_weak_cong)

lemma frame_oblique_2a:
  assumes "table g = place 0 (Vector2 (Fin (243 / 1450)) (Fin (- (799 / 1450))))
       (Vector2 (Fin (144 / 145)) (Fin (- (17 / 145)))) (Fin 11.45) (Table_initial 0)"
  shows "\<exists>g'. ballsLoop [0,1,2,3,4,5] (Fin 0.4) g = Some g' \<and>
     table g' = place 0 (Vector2 (Fin (1179 / 250)) (Fin (- (136 / 125))))
       (Vector2 (Fin (144 / 145)) (Fin (- (17 / 145)))) (Fin 11.15) (Table_initial 0)"
  using assms
  by (simp add: tables params moveBall_def rollBall_def isInPocket_def border_defs
      checkBallCollision_def collide_def Vector2_length_def std_max_Fin evals
      del: pow_half.simps(1) cong: let_weak_cong)

lemma frame_oblique_2b:
  assumes "table g = place 0 (Vector2 (Fin (1179 / 250)) (Fin (- (136 / 125))))
       (Vector2 (Fin (144 / 145)) (Fin (- (17 / 145)))) (Fin 11.15) (Table_initial 0)"
  shows "\<exists>g'. moveBall 6 (Fin 0.4) g = Some g' \<and>
     speedModulus (table g') =
       [Fin (19 / 20) * pow_half (Fin (6516935721 / 134560000)), Fin 0, Fin 0, Fin 0, Fin 0, Fin 0,
        std_max (Fin (19 / 20) * pow_half (Fin (5946046801 / 134560000)) - Fin (3 / 10)) (Fin 0)] \<and>
     isPocketed (table g') = replicate 7 False"
  using assms pow_half_sq [of "0.36"]
  by (simp add: tables params moveBall_def rollBall_def isInPocket_def border_defs
      checkBallCollision_def collide_def Vector2_length_def Vector2_normalize_def std_max_Fin evals
      del: pow_half.simps(1) cong: let_weak_cong)

lemma oblique_sum:
  "Fin 12.6 < foldl (\<lambda>sum v. sum + v) (Fin 0)
       [Fin (19 / 20) * pow_half (Fin (6516935721 / 134560000)), Fin 0, Fin 0, Fin 0, Fin 0, Fin 0,
        std_max (Fin (19 / 20) * pow_half (Fin (5946046801 / 134560000)) - Fin (3 / 10)) (Fin 0)]"
proof -
  define a where "a = sqrt (6516935721 / 134560000)"
  define b where "b = sqrt (5946046801 / 134560000)"
  have a: "6.959 < a" unfolding a_def by (rule real_less_rsqrt) (simp add: power2_eq_square)
  have b: "6.647 < b" unfolding b_def by (rule real_less_rsqrt) (simp add: power2_eq_square)
  have pa: "pow_half (Fin (6516935721 / 134560000)) = Fin a" by (simp add: a_def)
  have pb: "pow_half (Fin (5946046801 / 134560000)) = Fin b" by (simp add: b_def)
  have "12.6 < 19 / 20 * a + max (19 / 20 * b - 3 / 10) 0"
    using a b by (simp add: max_def)
  then show ?thesis
    unfolding pa pb by (simp add: std_max_Fin)
qed

text \<open>
  C3, as stated: over consecutive frames in which no ball is pocketed, \<open>speedSum()\<close> never
  grows. It fails at an oblique collision: the response shares the velocity of the moving
  ball between the two balls along the normal and the tangent, and the two speeds add up to
  more than the one before (up to \<open>0.95 * sqrt 2\<close> times). After \<^verbatim>\<open>init\<close>, a charge of
  \<open>47/60\<close> and a release at \<open>(-3.06, -0.17)\<close>, the first \<^verbatim>\<open>update(0.4)\<close> leaves
  \<open>speedSum() = 11.45\<close>; in the second the cue ball lands \<open>0.36\<close> from ball 6, the step of
  ball 6 resolves the collision, and \<open>speedSum()\<close> is above \<open>12.6\<close>. No ball is pocketed.
\<close>

theorem speed_sum_counterexample:
  "map_option (speedSum \<circ> table)
     (run [Pressed (Fin 0) (Fin 0), Update (Fin (47 / 60)), Released (Fin (- 3.06)) (Fin (- 0.17)),
           Update (Fin 0.4)] Game_initial) = Some (Fin 11.45) \<and>
   map_option (isPocketed \<circ> table)
     (run [Pressed (Fin 0) (Fin 0), Update (Fin (47 / 60)), Released (Fin (- 3.06)) (Fin (- 0.17)),
           Update (Fin 0.4)] Game_initial) = Some (replicate 7 False) \<and>
   map_option ((<) (Fin 12.6) \<circ> speedSum \<circ> table)
     (run [Pressed (Fin 0) (Fin 0), Update (Fin (47 / 60)), Released (Fin (- 3.06)) (Fin (- 0.17)),
           Update (Fin 0.4), Update (Fin 0.4)] Game_initial) = Some True \<and>
   map_option (isPocketed \<circ> table)
     (run [Pressed (Fin 0) (Fin 0), Update (Fin (47 / 60)), Released (Fin (- 3.06)) (Fin (- 0.17)),
           Update (Fin 0.4), Update (Fin 0.4)] Game_initial) = Some (replicate 7 False)"
proof -
  define G where "G = mouseButtonReleased (Fin (- 3.06)) (Fin (- 0.17)) (Game_charged (Fin (47 / 60)))"
  have r0: "run [Pressed (Fin 0) (Fin 0), Update (Fin (47 / 60)), Released (Fin (- 3.06)) (Fin (- 0.17))]
      Game_initial = Some G"
    using run_charge [of "Fin (47 / 60)"] by (simp add: bind_eq_Some_conv G_def)
  from frame_oblique_1 [OF shot_oblique(1,2)] obtain g1 where
    u1: "update (Fin 0.4) G = Some g1"
    and t1: "table g1 = place 0 (Vector2 (Fin (243 / 1450)) (Fin (- (799 / 1450))))
       (Vector2 (Fin (144 / 145)) (Fin (- (17 / 145)))) (Fin 11.45) (Table_initial 0)"
    and m1: "isBallsMoving g1"
    unfolding G_def by blast
  have r1: "run [Pressed (Fin 0) (Fin 0), Update (Fin (47 / 60)), Released (Fin (- 3.06)) (Fin (- 0.17)),
           Update (Fin 0.4)] Game_initial = Some g1"
    using run_step [OF r0, of "[Update (Fin 0.4)]" g1] u1 by simp
  have s1: "speedSum (table g1) = Fin 11.45" "isPocketed (table g1) = replicate 7 False"
    by (simp_all add: t1 speedSum_def tables replicate7)
  have t1': "table (advanceCharge (Fin 0.4) g1) = table g1" "isBallsMoving (advanceCharge (Fin 0.4) g1)"
    using m1 by (simp_all add: advanceCharge_flags)
  from frame_oblique_2a [OF t1'(1) [unfolded t1]] obtain g5 where
    l5: "ballsLoop [0,1,2,3,4,5] (Fin 0.4) (advanceCharge (Fin 0.4) g1) = Some g5"
    and t5: "table g5 = place 0 (Vector2 (Fin (1179 / 250)) (Fin (- (136 / 125))))
       (Vector2 (Fin (144 / 145)) (Fin (- (17 / 145)))) (Fin 11.15) (Table_initial 0)"
    by blast
  from frame_oblique_2b [OF t5] obtain g6 where
    m6: "moveBall 6 (Fin 0.4) g5 = Some g6"
    and s6: "speedModulus (table g6) =
       [Fin (19 / 20) * pow_half (Fin (6516935721 / 134560000)), Fin 0, Fin 0, Fin 0, Fin 0, Fin 0,
        std_max (Fin (19 / 20) * pow_half (Fin (5946046801 / 134560000)) - Fin (3 / 10)) (Fin 0)]"
    and p6: "isPocketed (table g6) = replicate 7 False"
    by blast
  have "\<not> isPocketed (table g5) ! 6" by (simp add: t5 tables replicate7)
  with l5 m6 have "ballsLoop ([0,1,2,3,4,5] @ [6]) (Fin 0.4) (advanceCharge (Fin 0.4) g1) = Some g6"
    unfolding ballsLoop_append by simp
  then have loop: "ballsLoop [0..<7] (Fin 0.4) (advanceCharge (Fin 0.4) g1) = Some g6"
    by (simp add: upt7)
  define g2 where "g2 = (if \<not> to_bool (speedSum (table g6)) then g6\<lparr>isBallsMoving := False\<rparr> else g6)"
  have u2: "update (Fin 0.4) g1 = Some g2"
    using loop t1'(2) by (simp add: update_def g2_def)
  have t2: "table g2 = table g6" by (simp add: g2_def)
  have r2: "run [Pressed (Fin 0) (Fin 0), Update (Fin (47 / 60)), Released (Fin (- 3.06)) (Fin (- 0.17)),
           Update (Fin 0.4), Update (Fin 0.4)] Game_initial = Some g2"
    using run_step [OF r1, of "[Update (Fin 0.4)]" g2] u2 by simp
  have s2: "Fin 12.6 < speedSum (table g2)"
    unfolding t2 speedSum_def s6 by (rule oblique_sum)
  from r1 s1 r2 s2 p6 t2 show ?thesis by simp
qed

lemma fl_le_trans: "(a::fl) \<le> b \<Longrightarrow> b \<le> c \<Longrightarrow> a \<le> c"
  by (cases a; cases b; cases c) simp_all

lemma fl_le_refl_iff: "(a::fl) \<le> a \<longleftrightarrow> a \<noteq> NaN"
  by (cases a) simp_all

lemma fl_nonneg: "Fin 0 \<le> m \<longleftrightarrow> (\<exists>s. m = Fin s \<and> 0 \<le> s)"
  by (cases m) simp_all

lemma fl_abs_le1: "\<bar>c\<bar> \<le> Fin 1 \<longleftrightarrow> (\<exists>a. c = Fin a \<and> \<bar>a\<bar> \<le> 1)"
  by (cases c) simp_all

lemma wellBehaved_nth:
  assumes "wf_table t"
  shows "wellBehaved t \<longleftrightarrow>
    (\<forall>i<7. Fin 0 \<le> speedModulus t ! i \<and> \<bar>vx (speedDirection t ! i)\<bar> \<le> Fin 1 \<and>
            \<bar>vy (speedDirection t ! i)\<bar> \<le> Fin 1)"
  using assms by (auto simp: wellBehaved_def wf_table_def list_all_length)

lemma border_loss_abs:
  fixes s c :: real
  assumes "0 \<le> s" and "\<bar>c\<bar> \<le> 1"
  shows "0 \<le> s - 0.15 * s * (1 + \<bar>c\<bar>)" and "s - 0.15 * s * (1 + \<bar>c\<bar>) \<le> s"
proof -
  have e: "s - 0.15 * s * (1 + \<bar>c\<bar>) = s * (0.85 - 0.15 * \<bar>c\<bar>)" by (simp add: algebra_simps)
  have "0 \<le> 0.85 - 0.15 * \<bar>c\<bar>" "0.85 - 0.15 * \<bar>c\<bar> \<le> 1" using assms(2) by simp_all
  with assms(1) have "0 \<le> s * (0.85 - 0.15 * \<bar>c\<bar>)" "s * (0.85 - 0.15 * \<bar>c\<bar>) \<le> s * 1"
    by (simp_all add: mult_left_mono del: mult_1_right)
  then show "0 \<le> s - 0.15 * s * (1 + \<bar>c\<bar>)" "s - 0.15 * s * (1 + \<bar>c\<bar>) \<le> s"
    unfolding e by simp_all
qed

lemma border_loss_signed:
  fixes s c :: real
  assumes "0 \<le> s" and "\<bar>c\<bar> \<le> 1"
  shows "0 \<le> s - 0.15 * s * (1 + c)" and "s - 0.15 * s * (1 + c) \<le> s"
proof -
  have e: "s - 0.15 * s * (1 + c) = s * (0.85 - 0.15 * c)" by (simp add: algebra_simps)
  have "0 \<le> 0.85 - 0.15 * c" "0.85 - 0.15 * c \<le> 1" using assms(2) by (simp_all add: abs_le_iff)
  with assms(1) have "0 \<le> s * (0.85 - 0.15 * c)" "s * (0.85 - 0.15 * c) \<le> s * 1"
    by (simp_all add: mult_left_mono del: mult_1_right)
  then show "0 \<le> s - 0.15 * s * (1 + c)" "s - 0.15 * s * (1 + c) \<le> s"
    unfolding e by simp_all
qed

lemma calm_update:
  assumes "wf_table t" and "wellBehaved t" and "b < 7" and "wf_table t'"
    and "speedModulus t ! b = Fin s" and "0 \<le> s'" and "s' \<le> s"
    and "\<bar>a'\<bar> \<le> 1" and "\<bar>c'\<bar> \<le> 1"
    and "speedModulus t' = (speedModulus t)[b := Fin s']"
    and "speedDirection t' = (speedDirection t)[b := Vector2 (Fin a') (Fin c')]"
  shows "wellBehaved t' \<and> (\<forall>i<7. speedModulus t' ! i \<le> speedModulus t ! i)"
proof -
  from assms(1,2) have wb: "\<forall>i<7. Fin 0 \<le> speedModulus t ! i \<and> \<bar>vx (speedDirection t ! i)\<bar> \<le> Fin 1 \<and>
      \<bar>vy (speedDirection t ! i)\<bar> \<le> Fin 1"
    by (simp add: wellBehaved_nth)
  from assms(1) have len: "length (speedModulus t) = 7" "length (speedDirection t) = 7"
    by (simp_all add: wf_table_def)
  have "Fin 0 \<le> speedModulus t' ! i \<and> \<bar>vx (speedDirection t' ! i)\<bar> \<le> Fin 1 \<and>
      \<bar>vy (speedDirection t' ! i)\<bar> \<le> Fin 1 \<and> speedModulus t' ! i \<le> speedModulus t ! i"
    if "i < 7" for i
  proof (cases "i = b")
    case True
    with assms(3,5-9) len show ?thesis
      by (simp add: assms(10,11))
  next
    case False
    from wb that have "Fin 0 \<le> speedModulus t ! i" by simp
    then have "speedModulus t ! i \<le> speedModulus t ! i" by (auto simp: fl_nonneg)
    with wb that False show ?thesis by (simp add: assms(10,11))
  qed
  then show ?thesis using assms(4) by (simp add: wellBehaved_nth)
qed

lemma calm_same:
  assumes "wf_table t" and "wellBehaved t"
  shows "\<forall>i<7. speedModulus t ! i \<le> speedModulus t ! i"
proof -
  from assms have "\<forall>i<7. Fin 0 \<le> speedModulus t ! i" by (simp add: wellBehaved_nth)
  then show ?thesis by (auto simp: fl_nonneg)
qed

lemma calm_ball:
  assumes "wf_table t" and "wellBehaved t" and "b < 7"
  obtains s a c where "speedModulus t ! b = Fin s" "0 \<le> s"
    "speedDirection t ! b = Vector2 (Fin a) (Fin c)" "\<bar>a\<bar> \<le> 1" "\<bar>c\<bar> \<le> 1"
proof -
  from assms have "Fin 0 \<le> speedModulus t ! b" "\<bar>vx (speedDirection t ! b)\<bar> \<le> Fin 1"
    "\<bar>vy (speedDirection t ! b)\<bar> \<le> Fin 1"
    by (simp_all add: wellBehaved_nth)
  then obtain s a c where "speedModulus t ! b = Fin s" "0 \<le> s" "vx (speedDirection t ! b) = Fin a"
    "\<bar>a\<bar> \<le> 1" "vy (speedDirection t ! b) = Fin c" "\<bar>c\<bar> \<le> 1"
    by (auto simp: fl_nonneg fl_abs_le1)
  then show thesis
    by (cases "speedDirection t ! b") (auto intro: that)
qed

lemma calm_yLow:
  assumes "wf_table t" and "wellBehaved t" and "b < 7"
  shows "wf_table (checkBorders_yLow b t) \<and> wellBehaved (checkBorders_yLow b t) \<and>
    (\<forall>i<7. speedModulus (checkBorders_yLow b t) ! i \<le> speedModulus t ! i)"
proof (cases "vy (ballsCurrentPositions t ! b) < - Fin 0.5 * height + radius")
  case False
  then have "checkBorders_yLow b t = t" by (simp add: checkBorders_yLow_def Let_def)
  with assms calm_same [OF assms(1,2)] show ?thesis by simp
next
  case True
  from assms obtain s a c where b: "speedModulus t ! b = Fin s" "0 \<le> s"
    "speedDirection t ! b = Vector2 (Fin a) (Fin c)" "\<bar>a\<bar> \<le> 1" "\<bar>c\<bar> \<le> 1"
    by (rule calm_ball)
  have w: "wf_table (checkBorders_yLow b t)"
    using assms(1) by (simp add: checkBorders_yLow_def Let_def wf_table_def)
  have "wellBehaved (checkBorders_yLow b t) \<and>
    (\<forall>i<7. speedModulus (checkBorders_yLow b t) ! i \<le> speedModulus t ! i)"
  proof (rule calm_update [OF assms w b(1)])
    show "0 \<le> s - 0.15 * s * (1 + \<bar>c\<bar>)" "s - 0.15 * s * (1 + \<bar>c\<bar>) \<le> s"
      using b(2,5) by (rule border_loss_abs)+
    show "\<bar>a\<bar> \<le> 1" by fact
    show "\<bar>c * (- 1)\<bar> \<le> 1" using b(5) by simp
    show "speedModulus (checkBorders_yLow b t) = (speedModulus t)[b := Fin (s - 0.15 * s * (1 + \<bar>c\<bar>))]"
      using True b by (simp add: checkBorders_yLow_def Let_def)
    show "speedDirection (checkBorders_yLow b t) = (speedDirection t)[b := Vector2 (Fin a) (Fin (c * (- 1)))]"
      using True b by (simp add: checkBorders_yLow_def Let_def invertY_def)
  qed
  with w show ?thesis by simp
qed

lemma calm_yHigh:
  assumes "wf_table t" and "wellBehaved t" and "b < 7"
  shows "wf_table (checkBorders_yHigh b t) \<and> wellBehaved (checkBorders_yHigh b t) \<and>
    (\<forall>i<7. speedModulus (checkBorders_yHigh b t) ! i \<le> speedModulus t ! i)"
proof (cases "Fin 0.5 * height - radius < vy (ballsCurrentPositions t ! b)")
  case False
  then have "checkBorders_yHigh b t = t" by (simp add: checkBorders_yHigh_def Let_def)
  with assms calm_same [OF assms(1,2)] show ?thesis by simp
next
  case True
  from assms obtain s a c where b: "speedModulus t ! b = Fin s" "0 \<le> s"
    "speedDirection t ! b = Vector2 (Fin a) (Fin c)" "\<bar>a\<bar> \<le> 1" "\<bar>c\<bar> \<le> 1"
    by (rule calm_ball)
  have w: "wf_table (checkBorders_yHigh b t)"
    using assms(1) by (simp add: checkBorders_yHigh_def Let_def wf_table_def)
  have "wellBehaved (checkBorders_yHigh b t) \<and>
    (\<forall>i<7. speedModulus (checkBorders_yHigh b t) ! i \<le> speedModulus t ! i)"
  proof (rule calm_update [OF assms w b(1)])
    show "0 \<le> s - 0.15 * s * (1 + c)" "s - 0.15 * s * (1 + c) \<le> s"
      using b(2,5) by (rule border_loss_signed)+
    show "\<bar>a\<bar> \<le> 1" by fact
    show "\<bar>c * (- 1)\<bar> \<le> 1" using b(5) by simp
    show "speedModulus (checkBorders_yHigh b t) = (speedModulus t)[b := Fin (s - 0.15 * s * (1 + c))]"
      using True b by (simp add: checkBorders_yHigh_def Let_def)
    show "speedDirection (checkBorders_yHigh b t) = (speedDirection t)[b := Vector2 (Fin a) (Fin (c * (- 1)))]"
      using True b by (simp add: checkBorders_yHigh_def Let_def invertY_def)
  qed
  with w show ?thesis by simp
qed

lemma calm_xLow:
  assumes "wf_table t" and "wellBehaved t" and "b < 7"
  shows "wf_table (checkBorders_xLow b t) \<and> wellBehaved (checkBorders_xLow b t) \<and>
    (\<forall>i<7. speedModulus (checkBorders_xLow b t) ! i \<le> speedModulus t ! i)"
proof (cases "vx (ballsCurrentPositions t ! b) < - Fin 0.5 * width + radius")
  case False
  then have "checkBorders_xLow b t = t" by (simp add: checkBorders_xLow_def Let_def)
  with assms calm_same [OF assms(1,2)] show ?thesis by simp
next
  case True
  from assms obtain s a c where b: "speedModulus t ! b = Fin s" "0 \<le> s"
    "speedDirection t ! b = Vector2 (Fin a) (Fin c)" "\<bar>a\<bar> \<le> 1" "\<bar>c\<bar> \<le> 1"
    by (rule calm_ball)
  have w: "wf_table (checkBorders_xLow b t)"
    using assms(1) by (simp add: checkBorders_xLow_def Let_def wf_table_def)
  have "wellBehaved (checkBorders_xLow b t) \<and>
    (\<forall>i<7. speedModulus (checkBorders_xLow b t) ! i \<le> speedModulus t ! i)"
  proof (rule calm_update [OF assms w b(1)])
    show "0 \<le> s - 0.15 * s * (1 + \<bar>a\<bar>)" "s - 0.15 * s * (1 + \<bar>a\<bar>) \<le> s"
      using b(2,4) by (rule border_loss_abs)+
    show "\<bar>a * (- 1)\<bar> \<le> 1" using b(4) by simp
    show "\<bar>c\<bar> \<le> 1" by fact
    show "speedModulus (checkBorders_xLow b t) = (speedModulus t)[b := Fin (s - 0.15 * s * (1 + \<bar>a\<bar>))]"
      using True b by (simp add: checkBorders_xLow_def Let_def)
    show "speedDirection (checkBorders_xLow b t) = (speedDirection t)[b := Vector2 (Fin (a * (- 1))) (Fin c)]"
      using True b by (simp add: checkBorders_xLow_def Let_def invertX_def)
  qed
  with w show ?thesis by simp
qed

lemma calm_xHigh:
  assumes "wf_table t" and "wellBehaved t" and "b < 7"
  shows "wf_table (checkBorders_xHigh b t) \<and> wellBehaved (checkBorders_xHigh b t) \<and>
    (\<forall>i<7. speedModulus (checkBorders_xHigh b t) ! i \<le> speedModulus t ! i)"
proof (cases "Fin 0.5 * width - radius < vx (ballsCurrentPositions t ! b)")
  case False
  then have "checkBorders_xHigh b t = t" by (simp add: checkBorders_xHigh_def Let_def)
  with assms calm_same [OF assms(1,2)] show ?thesis by simp
next
  case True
  from assms obtain s a c where b: "speedModulus t ! b = Fin s" "0 \<le> s"
    "speedDirection t ! b = Vector2 (Fin a) (Fin c)" "\<bar>a\<bar> \<le> 1" "\<bar>c\<bar> \<le> 1"
    by (rule calm_ball)
  have w: "wf_table (checkBorders_xHigh b t)"
    using assms(1) by (simp add: checkBorders_xHigh_def Let_def wf_table_def)
  have "wellBehaved (checkBorders_xHigh b t) \<and>
    (\<forall>i<7. speedModulus (checkBorders_xHigh b t) ! i \<le> speedModulus t ! i)"
  proof (rule calm_update [OF assms w b(1)])
    show "0 \<le> s - 0.15 * s * (1 + a)" "s - 0.15 * s * (1 + a) \<le> s"
      using b(2,4) by (rule border_loss_signed)+
    show "\<bar>a * (- 1)\<bar> \<le> 1" using b(4) by simp
    show "\<bar>c\<bar> \<le> 1" by fact
    show "speedModulus (checkBorders_xHigh b t) = (speedModulus t)[b := Fin (s - 0.15 * s * (1 + a))]"
      using True b by (simp add: checkBorders_xHigh_def Let_def)
    show "speedDirection (checkBorders_xHigh b t) = (speedDirection t)[b := Vector2 (Fin (a * (- 1))) (Fin c)]"
      using True b by (simp add: checkBorders_xHigh_def Let_def invertX_def)
  qed
  with w show ?thesis by simp
qed

lemma calm_checkBorders:
  assumes "wf_table t" and "wellBehaved t" and "b < 7"
  shows "wf_table (checkBorders b t) \<and> wellBehaved (checkBorders b t) \<and>
    (\<forall>i<7. speedModulus (checkBorders b t) ! i \<le> speedModulus t ! i)"
proof -
  define t1 where "t1 = checkBorders_yLow b t"
  define t2 where "t2 = checkBorders_yHigh b t1"
  define t3 where "t3 = checkBorders_xLow b t2"
  from calm_yLow [OF assms] have 1: "wf_table t1" "wellBehaved t1"
    "\<forall>i<7. speedModulus t1 ! i \<le> speedModulus t ! i"
    by (simp_all add: t1_def)
  from calm_yHigh [OF 1(1,2) assms(3)] have 2: "wf_table t2" "wellBehaved t2"
    "\<forall>i<7. speedModulus t2 ! i \<le> speedModulus t1 ! i"
    by (simp_all add: t2_def)
  from calm_xLow [OF 2(1,2) assms(3)] have 3: "wf_table t3" "wellBehaved t3"
    "\<forall>i<7. speedModulus t3 ! i \<le> speedModulus t2 ! i"
    by (simp_all add: t3_def)
  from calm_xHigh [OF 3(1,2) assms(3)] have 4: "wf_table (checkBorders_xHigh b t3)"
    "wellBehaved (checkBorders_xHigh b t3)"
    "\<forall>i<7. speedModulus (checkBorders_xHigh b t3) ! i \<le> speedModulus t3 ! i"
    by simp_all
  have e: "checkBorders b t = checkBorders_xHigh b t3"
    by (simp add: checkBorders_def t1_def t2_def t3_def)
  from 1(3) 2(3) 3(3) 4(3) have "\<forall>i<7. speedModulus (checkBorders_xHigh b t3) ! i \<le> speedModulus t ! i"
    by (blast intro: fl_le_trans)
  with 4 show ?thesis by (simp add: e)
qed

lemma collisionLoop_noContact:
  assumes "\<forall>j \<in> set js. j = b \<or> \<not> centerDistance b j t < Fin 2 * radius"
  shows "collisionLoop js b t = t"
  using assms
proof (induction js)
  case Nil
  then show ?case by simp
next
  case (Cons j js)
  show ?case
  proof (cases "j = b")
    case True
    with Cons show ?thesis by simp
  next
    case False
    with Cons.prems have "\<not> centerDistance b j t < Fin 2 * radius" by simp
    then have "collide b j t = t"
      unfolding centerDistance_def by (rule collide_apart)
    with Cons False show ?thesis by simp
  qed
qed

lemma rollBall_quiet:
  assumes "wf_table (table g)" and "wellBehaved (table g)" and "b < 7"
    and "noContact b (checkBorders b (table g))" and "0 \<le> d"
  shows "wf_table (table (rollBall b (Fin d) g)) \<and> wellBehaved (table (rollBall b (Fin d) g)) \<and>
    (\<forall>i<7. speedModulus (table (rollBall b (Fin d) g)) ! i \<le> speedModulus (table g) ! i)"
proof -
  define t1 where "t1 = checkBorders b (table g)"
  from calm_checkBorders [OF assms(1-3)] have 1: "wf_table t1" "wellBehaved t1"
    "\<forall>i<7. speedModulus t1 ! i \<le> speedModulus (table g) ! i"
    by (simp_all add: t1_def)
  from assms(4) have c: "checkBallCollision b t1 = t1"
    unfolding checkBallCollision_def t1_def
    by (intro collisionLoop_noContact) (simp add: noContact_def list_all_iff)
  from 1(1,2) assms(3) obtain s a e where b: "speedModulus t1 ! b = Fin s" "0 \<le> s"
    "speedDirection t1 ! b = Vector2 (Fin a) (Fin e)" "\<bar>a\<bar> \<le> 1" "\<bar>e\<bar> \<le> 1"
    by (rule calm_ball)
  define t4 where "t4 = table (rollBall b (Fin d) g)"
  have w4: "wf_table t4" using assms(1) by (simp add: t4_def wf_rollBall)
  have "wellBehaved t4 \<and> (\<forall>i<7. speedModulus t4 ! i \<le> speedModulus t1 ! i)"
  proof (rule calm_update [OF 1(1,2) assms(3) w4 b(1)])
    show "0 \<le> max (s - 0.75 * d) 0" by simp
    show "max (s - 0.75 * d) 0 \<le> s" using b(2) assms(5) by simp
    show "\<bar>a\<bar> \<le> 1" "\<bar>e\<bar> \<le> 1" by fact+
    show "speedModulus t4 = (speedModulus t1)[b := Fin (max (s - 0.75 * d) 0)]"
      using b(1) by (simp add: t4_def rollBall_def Let_def c t1_def [symmetric] std_max_Fin width_def)
    show "speedDirection t4 = (speedDirection t1)[b := Vector2 (Fin a) (Fin e)]"
      unfolding b(3) [symmetric] by (simp add: t4_def rollBall_def Let_def c t1_def [symmetric])
  qed
  with 1(3) w4 show ?thesis
    unfolding t4_def by (blast intro: fl_le_trans)
qed

lemma quiet_loop:
  assumes "wf_table (table g)" and "wellBehaved (table g)" and "\<forall>b \<in> set js. b < 7"
    and "quietLoop js (Fin d) g" and "0 \<le> d"
  shows "\<exists>g'. ballsLoop js (Fin d) g = Some g' \<and> wf_table (table g') \<and> wellBehaved (table g') \<and>
    (\<forall>i<7. speedModulus (table g') ! i \<le> speedModulus (table g) ! i)"
  using assms(1-4)
proof (induction js arbitrary: g)
  case Nil
  with calm_same show ?case by simp
next
  case (Cons b js)
  from Cons.prems(3) have b: "b < 7" and js: "\<forall>b \<in> set js. b < 7" by simp_all
  show ?case
  proof (cases "isPocketed (table g) ! b")
    case True
    with Cons.prems have "quietLoop js (Fin d) g" by simp
    from Cons.IH [OF Cons.prems(1,2) js this] True show ?thesis by simp
  next
    case False
    with Cons.prems(4) have q: "\<not> isInPocket b (table g)" "noContact b (checkBorders b (table g))"
      "quietLoop js (Fin d) (rollBall b (Fin d) g)"
      by simp_all
    from q(1) have m: "moveBall b (Fin d) g = Some (rollBall b (Fin d) g)"
      by (simp add: moveBall_def)
    from rollBall_quiet [OF Cons.prems(1,2) b q(2) assms(5)]
    have r: "wf_table (table (rollBall b (Fin d) g))" "wellBehaved (table (rollBall b (Fin d) g))"
      "\<forall>i<7. speedModulus (table (rollBall b (Fin d) g)) ! i \<le> speedModulus (table g) ! i"
      by simp_all
    from Cons.IH [OF r(1,2) js q(3)] obtain g' where
      "ballsLoop js (Fin d) (rollBall b (Fin d) g) = Some g'" "wf_table (table g')" "wellBehaved (table g')"
      "\<forall>i<7. speedModulus (table g') ! i \<le> speedModulus (table (rollBall b (Fin d) g)) ! i"
      by blast
    with r(3) m False show ?thesis
      by (auto intro: fl_le_trans)
  qed
qed

lemma fl_add_mono: "(a::fl) \<le> b \<Longrightarrow> x \<le> y \<Longrightarrow> a + x \<le> b + y"
  by (cases a; cases b; cases x; cases y) simp_all

lemma foldl_add_mono:
  assumes "length xs = length ys" and "\<forall>i<length xs. xs ! i \<le> ys ! i" and "(a::fl) \<le> b"
  shows "foldl (\<lambda>sum v. sum + v) a xs \<le> foldl (\<lambda>sum v. sum + v) b ys"
  using assms
proof (induction xs ys arbitrary: a b rule: list_induct2)
  case Nil
  then show ?case by simp
next
  case (Cons x xs y ys)
  from Cons.prems(1) have "x \<le> y" by auto
  with Cons.prems(2) have ab: "a + x \<le> b + y" by (rule fl_add_mono)
  from Cons.prems(1) have "\<forall>i<length xs. xs ! i \<le> ys ! i" by auto
  from Cons.IH [OF this ab] show ?case by simp
qed

lemma quiet_frame_sum:
  assumes "isBallsMoving g" and "wf_table (table g)" and "wellBehaved (table g)" and "0 \<le> d"
    and "quietFrame (Fin d) g"
  shows "\<exists>g'. update (Fin d) g = Some g' \<and> speedSum (table g') \<le> speedSum (table g)"
proof -
  define g2 where "g2 = advanceCharge (Fin d) g"
  have g2: "table g2 = table g" "isBallsMoving g2"
    using assms(1) by (simp_all add: g2_def advanceCharge_flags)
  have "\<forall>b \<in> set [0..<7]. b < 7" by simp
  from quiet_loop [OF _ _ this _ assms(4), of g2] assms(2,3,5) obtain g3 where
    l: "ballsLoop [0..<7] (Fin d) g2 = Some g3" and w: "wf_table (table g3)"
    and le: "\<forall>i<7. speedModulus (table g3) ! i \<le> speedModulus (table g) ! i"
    by (auto simp: g2 quietFrame_def g2_def [symmetric])
  have "speedSum (table g3) \<le> speedSum (table g)"
    unfolding speedSum_def using w assms(2) le
    by (intro foldl_add_mono) (simp_all add: wf_table_def)
  moreover have "update (Fin d) g =
      Some (if \<not> to_bool (speedSum (table g3)) then g3\<lparr>isBallsMoving := False\<rparr> else g3)"
    using l g2(2) by (simp add: update_def g2_def [symmetric])
  ultimately show ?thesis by auto
qed

lemma quiet_west:
  assumes "table g = place 0 (Vector2 (Fin (- 4.5)) (Fin 0)) (Vector2 (Fin (- 1)) (Fin 0)) (Fin 15) (Table_initial 0)"
  shows "quietLoop [0..<7] (Fin 0.2) g"
  using assms
  by (simp add: tables params rollBall_def isInPocket_def border_defs noContact_def centerDistance_def
      checkBallCollision_def collide_def Vector2_length_def std_max_Fin evals
      del: pow_half.simps(1) cong: let_weak_cong)

lemma shot_west_calm:
  "wf_table (table (mouseButtonReleased (Fin (- 5.5)) (Fin 0) (Game_charged (Fin 1))))"
  "wellBehaved (table (mouseButtonReleased (Fin (- 5.5)) (Fin 0) (Game_charged (Fin 1))))"
  "speedSum (table (mouseButtonReleased (Fin (- 5.5)) (Fin 0) (Game_charged (Fin 1)))) = Fin 15"
  "quietFrame (Fin 0.2) (mouseButtonReleased (Fin (- 5.5)) (Fin 0) (Game_charged (Fin 1)))"
proof -
  show "wf_table (table (mouseButtonReleased (Fin (- 5.5)) (Fin 0) (Game_charged (Fin 1))))"
    by (rule reachable_wf, rule r_released, rule reachable_charged)
  show "wellBehaved (table (mouseButtonReleased (Fin (- 5.5)) (Fin 0) (Game_charged (Fin 1))))"
    unfolding shot_west(1) by (simp add: wellBehaved_def tables replicate7)
  show "speedSum (table (mouseButtonReleased (Fin (- 5.5)) (Fin 0) (Game_charged (Fin 1)))) = Fin 15"
    unfolding shot_west(1) by (simp add: speedSum_def tables replicate7)
  have "table (advanceCharge (Fin 0.2) (mouseButtonReleased (Fin (- 5.5)) (Fin 0) (Game_charged (Fin 1)))) =
      place 0 (Vector2 (Fin (- 4.5)) (Fin 0)) (Vector2 (Fin (- 1)) (Fin 0)) (Fin 15) (Table_initial 0)"
    by (simp only: advanceCharge_flags shot_west(1))
  then show "quietFrame (Fin 0.2) (mouseButtonReleased (Fin (- 5.5)) (Fin 0) (Game_charged (Fin 1)))"
    unfolding quietFrame_def by (rule quiet_west)
qed

text \<open>
  C3, amended: in a frame in which no ball is pocketed and no ball overlaps another when its
  collision check runs (\<open>quietFrame\<close>), with a finite \<open>dt \<ge> 0\<close>, every speed finite and
  not negative and every direction with components in \<open>[-1, 1]\<close> (a unit or a zero vector),
  \<open>speedSum()\<close> after \<^verbatim>\<open>update(dt)\<close> is at most its value before, which is the value after the
  update of the frame before: the border check and the friction only take speed away.
\<close>

theorem quiet_frame_speed_sum:
  assumes "isBallsMoving g" and "wf_table (table g)" and "wellBehaved (table g)" and "0 \<le> d"
    and "quietFrame (Fin d) g"
  shows "\<exists>g'. update (Fin d) g = Some g' \<and> speedSum (table g') \<le> speedSum (table g)"
  using assms by (rule quiet_frame_sum)

theorem quiet_frame_speed_sum_witness:
  "isBallsMoving (mouseButtonReleased (Fin (- 5.5)) (Fin 0) (Game_charged (Fin 1))) \<and>
   quietFrame (Fin 0.2) (mouseButtonReleased (Fin (- 5.5)) (Fin 0) (Game_charged (Fin 1))) \<and>
   speedSum (table (mouseButtonReleased (Fin (- 5.5)) (Fin 0) (Game_charged (Fin 1)))) = Fin 15 \<and>
   map_option ((\<ge>) (Fin 15) \<circ> speedSum \<circ> table)
     (update (Fin 0.2) (mouseButtonReleased (Fin (- 5.5)) (Fin 0) (Game_charged (Fin 1)))) = Some True"
proof -
  have "(0::real) \<le> 0.2" by simp
  from quiet_frame_speed_sum [OF shot_west(2) shot_west_calm(1,2) this shot_west_calm(4)]
  obtain g' where "update (Fin 0.2) (mouseButtonReleased (Fin (- 5.5)) (Fin 0) (Game_charged (Fin 1))) = Some g'"
    "speedSum (table g') \<le> speedSum (table (mouseButtonReleased (Fin (- 5.5)) (Fin 0) (Game_charged (Fin 1))))"
    by blast
  with shot_west(2) shot_west_calm(3,4) show ?thesis by simp
qed

end
